(* ===== verification/Cyrene_Prelude.thy ===== *)
theory Cyrene_Prelude
  imports Main "HOL-Library.Word" "HOL-Library.List_Lexorder" "HOL-Library.Char_ord"
    "HOL-Library.Product_Lexorder"
begin

text \<open>
  Shared vocabulary of the development: fixed-width integers with Rust's saturating and
  checked addition, results and early returns, UTF-8 strings as byte lists, decimal
  printing, ordered maps and sets (the model of \<open>BTreeMap\<close> and \<open>BTreeSet\<close>), and the
  generic interface of a forward-only state machine.
\<close>

named_theorems res_simps "unfolding of the result combinators"
named_theorems bm_simps "ordered map and set operations"

section \<open>Machine integers\<close>

type_synonym u32 = "32 word"
type_synonym u64 = "64 word"

definition saturating_add :: "'a::len word \<Rightarrow> 'a word \<Rightarrow> 'a word" where
  "saturating_add a b = (if unat a + unat b < 2 ^ LENGTH('a) then a + b else - 1)"

definition checked_add :: "'a::len word \<Rightarrow> 'a word \<Rightarrow> 'a word option" where
  "checked_add a b = (if unat a + unat b < 2 ^ LENGTH('a) then Some (a + b) else None)"

lemma unat_add_no_overflow:
  "unat a + unat b < 2 ^ LENGTH('a) \<Longrightarrow> unat (a + b :: 'a::len word) = unat a + unat b"
  by (simp add: unat_word_ariths)

lemma unat_max_word: "unat (- 1 :: 'a::len word) = 2 ^ LENGTH('a) - 1"
  by (simp add: unsigned_minus_1_eq_mask mask_eq_exp_minus_1)

lemma unat_le_max: "unat (a :: 'a::len word) \<le> 2 ^ LENGTH('a) - 1"
proof -
  have "unat a < 2 ^ LENGTH('a)" by simp
  then show ?thesis by linarith
qed

lemma word_pos_of_less: "c < e \<Longrightarrow> 0 < (e :: 'a::len word)"
  by (metis word_gt_0 word_not_simps(1))

lemma saturating_add_unat:
  "unat (saturating_add a b :: 'a::len word) = min (unat a + unat b) (2 ^ LENGTH('a) - 1)"
  by (auto simp: saturating_add_def unat_add_no_overflow unat_max_word min_def)

lemma saturating_add_ge: "(a :: 'a::len word) \<le> saturating_add a b"
  using unat_le_max [of a] by (simp add: word_le_nat_alt saturating_add_unat)

lemma saturating_add_one_gt:
  assumes "(a :: 'a::len word) \<noteq> - 1"
  shows "a < saturating_add a 1"
proof -
  have "a < - 1" using assms by (simp add: order.not_eq_order_implies_strict)
  then have "unat a < unat (- 1 :: 'a word)" by (simp add: word_less_nat_alt)
  then have "unat a + 1 < 2 ^ LENGTH('a)"
    by (simp add: unat_max_word)
  then show ?thesis
    by (simp add: saturating_add_def word_less_nat_alt unat_add_no_overflow)
qed

lemma saturating_add_one_le:
  assumes "(a :: 'a::len word) < b"
  shows "saturating_add a 1 \<le> b"
proof -
  have "unat a < unat b" using assms by (simp add: word_less_nat_alt)
  moreover have "unat b < 2 ^ LENGTH('a)" by simp
  ultimately have "unat a + 1 < 2 ^ LENGTH('a)" by linarith
  then show ?thesis using \<open>unat a < unat b\<close>
    by (simp add: saturating_add_def word_le_nat_alt unat_add_no_overflow)
qed

lemma saturating_add_one_pos: "(0 :: 'a::len word) < saturating_add a 1"
proof (cases "a = - 1")
  case True
  then have "a = saturating_add a 1"
    using saturating_add_ge [of a 1] by (simp add: word_order.extremum_unique)
  then show ?thesis using True by (simp add: word_gt_0)
next
  case False
  then have "a < saturating_add a 1" by (rule saturating_add_one_gt)
  then show ?thesis by (metis word_gt_0 word_not_simps(1))
qed

lemma saturating_add_one_max [simp]: "saturating_add (- 1) 1 = (- 1 :: 'a::len word)"
  using saturating_add_ge [of "- 1 :: 'a word" 1] by (simp add: word_order.extremum_unique)

lemma saturating_add_one_not_max: "saturating_add a 1 \<noteq> - 1 \<Longrightarrow> a \<noteq> (- 1 :: 'a::len word)"
  by auto

lemma saturating_add_mono: "(a :: 'a::len word) \<le> a' \<Longrightarrow> saturating_add a b \<le> saturating_add a' b"
  by (simp add: word_le_nat_alt saturating_add_unat min_def)

lemma checked_add_Some:
  "checked_add a b = Some (c :: 'a::len word) \<longleftrightarrow> unat c = unat a + unat b"
proof
  assume "unat c = unat a + unat b"
  moreover have "unat c < 2 ^ LENGTH('a)" by simp
  ultimately show "checked_add a b = Some c"
    by (simp add: checked_add_def unat_add_no_overflow word_unat_eq_iff)
qed (auto simp: checked_add_def unat_add_no_overflow split: if_splits)

lemma checked_add_None:
  "checked_add a b = None \<longleftrightarrow> 2 ^ LENGTH('a) \<le> unat a + unat (b :: 'a::len word)"
  by (auto simp: checked_add_def)

section \<open>Results and early returns\<close>

text \<open>
  A Rust \<open>Result\<close> is a sum with the error on the left. \<open>bind_res\<close> is the \<open>?\<close> operator,
  \<open>first_err\<close> a sequence of statements that each may return early, \<open>ensure\<close> the guard
  \<open>if !c { return Err(e) }\<close>.
\<close>

definition bind_res :: "'e + 'a \<Rightarrow> ('a \<Rightarrow> 'e + 'b) \<Rightarrow> 'e + 'b" where
  [res_simps]: "bind_res m f = (case m of Inl e \<Rightarrow> Inl e | Inr x \<Rightarrow> f x)"

definition map_err :: "('e \<Rightarrow> 'f) \<Rightarrow> 'e + 'a \<Rightarrow> 'f + 'a" where
  [res_simps]: "map_err g m = (case m of Inl e \<Rightarrow> Inl (g e) | Inr x \<Rightarrow> Inr x)"

definition ensure :: "bool \<Rightarrow> 'e \<Rightarrow> 'e + unit" where
  [res_simps]: "ensure c e = (if c then Inr () else Inl e)"

definition ok_or :: "'a option \<Rightarrow> 'e \<Rightarrow> 'e + 'a" where
  [res_simps]: "ok_or x e = (case x of None \<Rightarrow> Inl e | Some v \<Rightarrow> Inr v)"

definition is_ok :: "'e + 'a \<Rightarrow> bool" where
  "is_ok m = (case m of Inl _ \<Rightarrow> False | Inr _ \<Rightarrow> True)"

fun first_err :: "('e + unit) list \<Rightarrow> 'e + unit" where
  "first_err [] = Inr ()"
| "first_err (r # rs) = (case r of Inl e \<Rightarrow> Inl e | Inr _ \<Rightarrow> first_err rs)"

fun for_each :: "('x \<Rightarrow> 'e + unit) \<Rightarrow> 'x list \<Rightarrow> 'e + unit" where
  "for_each f [] = Inr ()"
| "for_each f (x # xs) = (case f x of Inl e \<Rightarrow> Inl e | Inr _ \<Rightarrow> for_each f xs)"

text \<open>
  The loop that validates every element and inserts its key into a \<open>BTreeSet\<close>, failing on
  the first invalid element or the first key that was already present.
\<close>

fun each_unique :: "('x \<Rightarrow> 'e + unit) \<Rightarrow> ('x \<Rightarrow> 'k) \<Rightarrow> 'e \<Rightarrow> 'k list \<Rightarrow> 'x list \<Rightarrow> 'e + unit" where
  "each_unique chk key dup seen [] = Inr ()"
| "each_unique chk key dup seen (x # xs) =
     (case chk x of
        Inl e \<Rightarrow> Inl e
      | Inr _ \<Rightarrow> if key x \<in> set seen then Inl dup
                 else each_unique chk key dup (key x # seen) xs)"

text \<open>A loop that threads a state and may return early.\<close>

fun fold_res :: "('s \<Rightarrow> 'x \<Rightarrow> 'e + 's) \<Rightarrow> 's \<Rightarrow> 'x list \<Rightarrow> 'e + 's" where
  "fold_res f st [] = Inr st"
| "fold_res f st (x # xs) = (case f st x of Inl e \<Rightarrow> Inl e | Inr st' \<Rightarrow> fold_res f st' xs)"

text \<open>Code with an \<open>expect\<close> or \<open>unwrap\<close> either panics or returns.\<close>

datatype 'a run = Panic string | Return 'a

lemma fold_res_invariant:
  assumes "fold_res f st xs = Inr st'" and "I ds st"
    and "\<And>ys y s s'. I ys s \<Longrightarrow> y \<in> set xs \<Longrightarrow> f s y = Inr s' \<Longrightarrow> I (ys @ [y]) s'"
  shows "I (ds @ xs) st'"
  using assms
proof (induction xs arbitrary: st ds)
  case (Cons x xs)
  from Cons.prems(1) obtain s where s: "f st x = Inr s" "fold_res f s xs = Inr st'"
    by (auto split: sum.splits)
  have "I (ds @ [x]) s" using Cons.prems(2,3) s(1) by simp
  then have "I ((ds @ [x]) @ xs) st'"
    using Cons.IH [OF s(2), of "ds @ [x]"] Cons.prems(3) by simp
  then show ?case by simp
qed simp

lemma is_ok_simps [simp]: "is_ok (Inr x)" "\<not> is_ok (Inl e)"
  by (simp_all add: is_ok_def)

lemma is_ok_unit: "is_ok (m :: 'e + unit) \<longleftrightarrow> m = Inr ()"
  by (auto simp: is_ok_def split: sum.splits)

lemma is_ok_iff: "is_ok m \<longleftrightarrow> (\<exists>x. m = Inr x)"
  by (auto simp: is_ok_def split: sum.splits)

lemma bind_res_simps [simp]: "bind_res (Inl e) f = Inl e" "bind_res (Inr x) f = f x"
  by (simp_all add: bind_res_def)

lemma fold_res_snoc: "fold_res f st (xs @ [x]) = bind_res (fold_res f st xs) (\<lambda>s. f s x)"
  by (induction xs arbitrary: st) (auto simp: bind_res_def split: sum.splits)

lemma bind_res_Inr: "bind_res m f = Inr y \<longleftrightarrow> (\<exists>x. m = Inr x \<and> f x = Inr y)"
  by (auto simp: bind_res_def split: sum.splits)

lemma map_err_simps [simp]: "map_err g (Inl e) = Inl (g e)" "map_err g (Inr x) = Inr x"
  by (simp_all add: map_err_def)

lemma map_err_Inr [simp]: "map_err g m = Inr x \<longleftrightarrow> m = Inr x"
  by (auto simp: map_err_def split: sum.splits)

lemma ensure_Inr [simp]: "ensure c e = Inr u \<longleftrightarrow> c"
  by (auto simp: ensure_def)

lemma ensure_simps [simp]: "ensure True e = Inr ()" "ensure False e = Inl e"
  by (simp_all add: ensure_def)

lemma ok_or_simps [simp]: "ok_or None e = Inl e" "ok_or (Some v) e = Inr v"
  by (simp_all add: ok_or_def)

lemma ok_or_Inr [simp]: "ok_or x e = Inr v \<longleftrightarrow> x = Some v"
  by (auto simp: ok_or_def split: option.splits)

lemma first_err_Inr: "first_err rs = Inr u \<longleftrightarrow> (\<forall>r\<in>set rs. r = Inr ())"
  by (induction rs) (auto simp: first_err.simps split: sum.splits)

declare first_err.simps(2) [simp del]

lemma first_err_Cons [simp]:
  "first_err (Inl e # rs) = Inl e" "first_err (Inr u # rs) = first_err rs"
  by (simp_all add: first_err.simps)

lemma first_err_Cons_Inr [simp]:
  "first_err (r # rs) = Inr u \<longleftrightarrow> r = Inr () \<and> first_err rs = Inr ()"
  by (cases r) auto

lemma for_each_Inr [simp]: "for_each f xs = Inr u \<longleftrightarrow> (\<forall>x\<in>set xs. f x = Inr ())"
  by (induction xs) (auto split: sum.splits)

lemma each_unique_Inr:
  "each_unique chk key dup seen xs = Inr u \<longleftrightarrow>
     (\<forall>x\<in>set xs. chk x = Inr () \<and> key x \<notin> set seen) \<and> distinct (map key xs)"
proof (induction xs arbitrary: seen)
  case (Cons x xs)
  then show ?case by (cases "chk x") (auto simp: image_iff)
qed simp

lemma each_unique_Nil_Inr [simp]:
  "each_unique chk key dup [] xs = Inr u \<longleftrightarrow>
     (\<forall>x\<in>set xs. chk x = Inr ()) \<and> distinct (map key xs)"
  by (simp add: each_unique_Inr)

lemma unit_result_cases: "(m :: 'e + unit) \<noteq> Inr () \<Longrightarrow> \<exists>e. m = Inl e"
  by (cases m) auto

section \<open>Strings\<close>

text \<open>
  A Rust \<open>str\<close> is the list of its UTF-8 bytes, a \<^typ>\<open>string\<close>: \<open>len()\<close> is \<open>length\<close> and
  the derived order is the lexicographic order of the bytes. \<open>char::is_control\<close> holds for
  U+0000..U+001F and U+007F..U+009F; the second range is the byte 7F and the two-byte
  sequences C2 80 .. C2 9F (C2 only ever starts a sequence in valid UTF-8).
\<close>

definition byte :: "char \<Rightarrow> nat" where
  "byte c = of_char c"

definition is_ascii_lowercase :: "char \<Rightarrow> bool" where
  "is_ascii_lowercase c \<longleftrightarrow> 97 \<le> byte c \<and> byte c \<le> 122"

definition is_ascii_uppercase :: "char \<Rightarrow> bool" where
  "is_ascii_uppercase c \<longleftrightarrow> 65 \<le> byte c \<and> byte c \<le> 90"

definition is_ascii_digit :: "char \<Rightarrow> bool" where
  "is_ascii_digit c \<longleftrightarrow> 48 \<le> byte c \<and> byte c \<le> 57"

definition is_ascii_alphanumeric :: "char \<Rightarrow> bool" where
  "is_ascii_alphanumeric c \<longleftrightarrow> is_ascii_lowercase c \<or> is_ascii_uppercase c \<or> is_ascii_digit c"

fun has_control :: "string \<Rightarrow> bool" where
  "has_control [] = False"
| "has_control (c # cs) =
     (byte c < 32 \<or> byte c = 127 \<or>
      (byte c = 194 \<and> (case cs of [] \<Rightarrow> False | d # _ \<Rightarrow> 128 \<le> byte d \<and> byte d \<le> 159)) \<or>
      has_control cs)"

lemma has_control_ascii:
  "(\<forall>c\<in>set s. 32 \<le> byte c \<and> byte c < 127) \<Longrightarrow> \<not> has_control s"
  by (induction s) auto

lemma byte_inject: "byte c = byte d \<Longrightarrow> c = d"
  unfolding byte_def by (metis char_of_char)

text \<open>Decimal rendering of an unsigned integer, as \<open>format!("{}")\<close> prints it.\<close>

fun dec :: "nat \<Rightarrow> string" where
  "dec n = (if n < 10 then [char_of (48 + n)] else dec (n div 10) @ [char_of (48 + n mod 10)])"

declare dec.simps [simp del]

definition undec :: "string \<Rightarrow> nat" where
  "undec s = foldl (\<lambda>a c. 10 * a + (byte c - 48)) 0 s"

lemma byte_char_of [simp]: "n < 256 \<Longrightarrow> byte (char_of n) = n"
  unfolding byte_def by (simp add: of_char_of)

lemma dec_digits: "c \<in> set (dec n) \<Longrightarrow> is_ascii_digit c"
proof (induction n rule: dec.induct)
  case (1 n)
  show ?case
  proof (cases "n < 10")
    case True
    with "1.prems" show ?thesis by (simp add: dec.simps [of n] is_ascii_digit_def)
  next
    case False
    then show ?thesis using "1" by (auto simp: dec.simps [of n] is_ascii_digit_def)
  qed
qed

lemma undec_dec: "undec (dec n) = n"
proof (induction n rule: dec.induct)
  case (1 n)
  show ?case
  proof (cases "n < 10")
    case True
    then show ?thesis by (simp add: dec.simps [of n] undec_def)
  next
    case False
    with "1" have "undec (dec (n div 10)) = n div 10" by simp
    then show ?thesis using False by (simp add: dec.simps [of n] undec_def)
  qed
qed

lemma dec_inject [simp]: "dec m = dec n \<longleftrightarrow> m = n"
  by (metis undec_dec)

lemma digits_sep_inject:
  assumes "xs @ c # r = ys @ d # s"
    and "\<forall>x\<in>set xs. is_ascii_digit x" and "\<forall>x\<in>set ys. is_ascii_digit x"
    and "\<not> is_ascii_digit c" and "\<not> is_ascii_digit d"
  shows "xs = ys \<and> c = d \<and> r = s"
  using assms
proof (induction xs arbitrary: ys)
  case Nil
  then show ?case by (cases ys) auto
next
  case (Cons x xs)
  then show ?case by (cases ys) auto
qed

lemma dec_sep_inject:
  assumes "dec m @ c # r = dec n @ c # s" and "\<not> is_ascii_digit c"
  shows "m = n \<and> r = s"
  using digits_sep_inject [OF assms(1)] assms(2) dec_digits by auto

definition show_u64 :: "'a::len word \<Rightarrow> string" where
  "show_u64 w = dec (unat w)"

lemma show_u64_inject [simp]: "show_u64 v = show_u64 w \<longleftrightarrow> v = w"
  by (simp add: show_u64_def word_unat_eq_iff)

section \<open>Splitting, trimming and joining\<close>

fun split_on :: "char \<Rightarrow> string \<Rightarrow> string list" where
  "split_on c [] = [[]]"
| "split_on c (x # xs) =
     (if x = c then [] # split_on c xs
      else (case split_on c xs of [] \<Rightarrow> [[x]] | s # ss \<Rightarrow> (x # s) # ss))"

fun join_with :: "string \<Rightarrow> string list \<Rightarrow> string" where
  "join_with sep [] = []"
| "join_with sep [x] = x"
| "join_with sep (x # y # ys) = x @ sep @ join_with sep (y # ys)"

text \<open>
  \<open>str::trim\<close> removes the characters with the Unicode property \<open>White_Space\<close> from both ends;
  these are their UTF-8 encodings.
\<close>

definition white_space :: "string list" where
  "white_space =
     [[CHR 0x09], [CHR 0x0A], [CHR 0x0B], [CHR 0x0C], [CHR 0x0D], [CHR 0x20],
      [CHR 0xC2, CHR 0x85], [CHR 0xC2, CHR 0xA0], [CHR 0xE1, CHR 0x9A, CHR 0x80],
      [CHR 0xE2, CHR 0x80, CHR 0x80], [CHR 0xE2, CHR 0x80, CHR 0x81], [CHR 0xE2, CHR 0x80, CHR 0x82],
      [CHR 0xE2, CHR 0x80, CHR 0x83], [CHR 0xE2, CHR 0x80, CHR 0x84], [CHR 0xE2, CHR 0x80, CHR 0x85],
      [CHR 0xE2, CHR 0x80, CHR 0x86], [CHR 0xE2, CHR 0x80, CHR 0x87], [CHR 0xE2, CHR 0x80, CHR 0x88],
      [CHR 0xE2, CHR 0x80, CHR 0x89], [CHR 0xE2, CHR 0x80, CHR 0x8A], [CHR 0xE2, CHR 0x80, CHR 0xA8],
      [CHR 0xE2, CHR 0x80, CHR 0xA9], [CHR 0xE2, CHR 0x80, CHR 0xAF], [CHR 0xE2, CHR 0x81, CHR 0x9F],
      [CHR 0xE3, CHR 0x80, CHR 0x80]]"

function strip_front :: "string list \<Rightarrow> string \<Rightarrow> string" where
  "strip_front ws s =
     (case find (\<lambda>w. w \<noteq> [] \<and> take (length w) s = w) ws of
        None \<Rightarrow> s
      | Some w \<Rightarrow> strip_front ws (drop (length w) s))"
  by auto
termination
proof (relation "measure (length \<circ> snd)")
  fix ws :: "string list" and s w
  assume "find (\<lambda>w. w \<noteq> [] \<and> take (length w) s = w) ws = Some w"
  then have "w \<noteq> []" "take (length w) s = w"
    by (auto simp: find_Some_iff)
  then show "((ws, drop (length w) s), (ws, s)) \<in> measure (length \<circ> snd)"
    by (cases s) auto
qed simp

declare strip_front.simps [simp del]

definition trim_start :: "string \<Rightarrow> string" where
  "trim_start s = strip_front white_space s"

definition trim_end :: "string \<Rightarrow> string" where
  "trim_end s = rev (strip_front (map rev white_space) (rev s))"

definition trim :: "string \<Rightarrow> string" where
  "trim s = trim_end (trim_start s)"

definition push_unique :: "'a \<Rightarrow> 'a list \<Rightarrow> 'a list" where
  "push_unique x xs = (if x \<in> set xs then xs else xs @ [x])"

lemma split_on_nonempty: "split_on c s \<noteq> []"
  by (induction s) (auto split: list.splits)

lemma split_on_Cons_cases: obtains t ts where "split_on c s = t # ts"
  using split_on_nonempty by (metis list.exhaust)

lemma split_on_parts: "p \<in> set (split_on c s) \<Longrightarrow> c \<notin> set p"
proof (induction s arbitrary: p)
  case (Cons x s)
  obtain t ts where "split_on c s = t # ts" by (rule split_on_Cons_cases)
  then show ?case using Cons by (auto split: if_splits)
qed simp

lemma split_on_fresh: "c \<notin> set x \<Longrightarrow> split_on c x = [x]"
  by (induction x) auto

lemma split_on_append: "c \<notin> set x \<Longrightarrow> split_on c (x @ c # y) = x # split_on c y"
  by (induction x) auto

lemma split_on_join:
  "xs \<noteq> [] \<Longrightarrow> (\<forall>x\<in>set xs. c \<notin> set x) \<Longrightarrow> split_on c (join_with [c] xs) = xs"
  by (induction "[c]" xs rule: join_with.induct) (auto simp: split_on_fresh split_on_append)

definition starts_white :: "string list \<Rightarrow> string \<Rightarrow> bool" where
  "starts_white ws s \<longleftrightarrow> (\<exists>w\<in>set ws. w \<noteq> [] \<and> take (length w) s = w)"

lemma strip_front_stop: "\<not> starts_white ws s \<Longrightarrow> strip_front ws s = s"
proof -
  assume "\<not> starts_white ws s"
  then have "find (\<lambda>w. w \<noteq> [] \<and> take (length w) s = w) ws = None"
    unfolding starts_white_def find_None_iff by blast
  then show ?thesis by (subst strip_front.simps) simp
qed

lemma strip_front_clean: "\<not> starts_white ws (strip_front ws s)"
proof (induction ws s rule: strip_front.induct)
  case (1 ws s)
  show ?case
  proof (cases "find (\<lambda>w. w \<noteq> [] \<and> take (length w) s = w) ws")
    case None
    then have "strip_front ws s = s" by (subst strip_front.simps) simp
    moreover have "\<not> starts_white ws s"
      using None unfolding starts_white_def find_None_iff by blast
    ultimately show ?thesis by simp
  next
    case (Some w)
    then show ?thesis using "1" [OF Some] by (subst strip_front.simps) simp
  qed
qed

lemma strip_front_suffix: "\<exists>p. s = p @ strip_front ws s"
proof (induction ws s rule: strip_front.induct)
  case (1 ws s)
  show ?case
  proof (cases "find (\<lambda>w. w \<noteq> [] \<and> take (length w) s = w) ws")
    case None
    then show ?thesis by (subst strip_front.simps) simp
  next
    case (Some w)
    then obtain p where "drop (length w) s = p @ strip_front ws (drop (length w) s)"
      using "1" by blast
    then have "s = (take (length w) s @ p) @ strip_front ws (drop (length w) s)"
      by (metis append_assoc append_take_drop_id)
    moreover have "strip_front ws s = strip_front ws (drop (length w) s)"
      using Some by (subst strip_front.simps) simp
    ultimately show ?thesis by metis
  qed
qed

lemma starts_white_prefix: "starts_white ws p \<Longrightarrow> starts_white ws (p @ q)"
proof -
  assume "starts_white ws p"
  then obtain w where w: "w \<in> set ws" "w \<noteq> []" "take (length w) p = w"
    unfolding starts_white_def by blast
  then have "length w \<le> length p" by (metis length_take min.cobounded1 min_def)
  with w show ?thesis unfolding starts_white_def by force
qed

lemma trim_start_idem: "trim_start (trim s) = trim s"
proof -
  obtain q where "rev (trim_start s) = q @ strip_front (map rev white_space) (rev (trim_start s))"
    using strip_front_suffix by blast
  then have "trim_start s = trim s @ rev q"
    unfolding trim_def trim_end_def by (metis rev_append rev_rev_ident)
  then have "\<not> starts_white white_space (trim s)"
    using strip_front_clean starts_white_prefix unfolding trim_start_def by metis
  then show ?thesis unfolding trim_start_def by (rule strip_front_stop)
qed

lemma trim_idem [simp]: "trim (trim s) = trim s"
proof -
  have "trim_end (trim s) = trim s"
    unfolding trim_def trim_end_def by (simp add: strip_front_stop strip_front_clean)
  then show ?thesis
    using trim_start_idem [of s] by (simp add: trim_def [of "trim s"])
qed

lemma set_trim: "set (trim s) \<subseteq> set s"
proof -
  have "set (strip_front ws t) \<subseteq> set t" for ws t
    using strip_front_suffix [of t ws] by (metis Un_upper2 set_append)
  then show ?thesis
    unfolding trim_def trim_end_def trim_start_def by (metis order_trans set_rev)
qed

lemma set_push_unique [simp]: "set (push_unique x xs) = insert x (set xs)"
  by (auto simp: push_unique_def)

lemma distinct_push_unique [simp]: "distinct (push_unique x xs) = distinct xs"
  by (auto simp: push_unique_def)

lemma set_fold_push_unique [simp]: "set (fold push_unique ys xs) = set xs \<union> set ys"
  by (induction ys arbitrary: xs) auto

lemma distinct_fold_push_unique [simp]: "distinct (fold push_unique ys xs) = distinct xs"
  by (induction ys arbitrary: xs) auto

section \<open>Ordered maps and sets\<close>

text \<open>
  A \<open>BTreeMap\<close> is the list of its entries in strictly increasing key order, a \<open>BTreeSet\<close>
  the strictly increasing list of its elements. Iteration is list order, and two maps are
  equal exactly when the lists are.
\<close>

type_synonym ('k, 'v) btree_map = "('k \<times> 'v) list"
type_synonym 'k btree_set = "'k list"

definition bm_ok :: "('k::linorder, 'v) btree_map \<Rightarrow> bool" where
  "bm_ok m \<longleftrightarrow> sorted_wrt (<) (map fst m)"

fun bm_insert :: "'k::linorder \<Rightarrow> 'v \<Rightarrow> ('k, 'v) btree_map \<Rightarrow> ('k, 'v) btree_map" where
  "bm_insert k v [] = [(k, v)]"
| "bm_insert k v (e # m) =
     (if k < fst e then (k, v) # e # m
      else if k = fst e then (k, v) # m
      else e # bm_insert k v m)"

definition bm_remove :: "'k \<Rightarrow> ('k, 'v) btree_map \<Rightarrow> ('k, 'v) btree_map" where
  "bm_remove k m = filter (\<lambda>e. fst e \<noteq> k) m"

definition bm_retain :: "('k \<Rightarrow> 'v \<Rightarrow> bool) \<Rightarrow> ('k, 'v) btree_map \<Rightarrow> ('k, 'v) btree_map" where
  "bm_retain P m = filter (\<lambda>e. P (fst e) (snd e)) m"

definition bm_update :: "'k \<Rightarrow> ('v \<Rightarrow> 'v) \<Rightarrow> ('k, 'v) btree_map \<Rightarrow> ('k, 'v) btree_map" where
  "bm_update k f m = map (\<lambda>e. if fst e = k then (fst e, f (snd e)) else e) m"

definition bm_contains :: "('k, 'v) btree_map \<Rightarrow> 'k \<Rightarrow> bool" where
  "bm_contains m k \<longleftrightarrow> map_of m k \<noteq> None"

definition bm_values :: "('k, 'v) btree_map \<Rightarrow> 'v list" where
  "bm_values m = map snd m"

definition bm_collect :: "('k::linorder \<times> 'v) list \<Rightarrow> ('k, 'v) btree_map" where
  "bm_collect es = fold (\<lambda>e. bm_insert (fst e) (snd e)) es []"

fun bs_insert :: "'k::linorder \<Rightarrow> 'k btree_set \<Rightarrow> 'k btree_set" where
  "bs_insert x [] = [x]"
| "bs_insert x (y # ys) = (if x < y then x # y # ys else if x = y then y # ys else y # bs_insert x ys)"

definition bs_remove :: "'k \<Rightarrow> 'k btree_set \<Rightarrow> 'k btree_set" where
  "bs_remove x s = filter (\<lambda>y. y \<noteq> x) s"

lemma map_of_bm_insert [simp]: "map_of (bm_insert k v m) = (map_of m)(k \<mapsto> v)"
  by (induction m) (auto simp: fun_eq_iff split: prod.splits)

lemma keys_bm_insert: "fst ` set (bm_insert k v m) = insert k (fst ` set m)"
  by (induction m) auto

lemma bm_ok_Nil [simp]: "bm_ok []"
  by (simp add: bm_ok_def)

lemma bm_ok_Cons: "bm_ok (e # m) \<longleftrightarrow> (\<forall>k\<in>fst ` set m. fst e < k) \<and> bm_ok m"
  by (simp add: bm_ok_def)

lemma bm_ok_insert [simp]: "bm_ok m \<Longrightarrow> bm_ok (bm_insert k v m)"
  by (induction m) (auto simp: bm_ok_Cons keys_bm_insert)

lemma bm_ok_distinct: "bm_ok m \<Longrightarrow> distinct (map fst m)"
  unfolding bm_ok_def by (simp add: strict_sorted_iff)

lemma bm_ok_filter [simp]: "bm_ok m \<Longrightarrow> bm_ok (filter P m)"
  by (induction m) (auto simp: bm_ok_Cons)

lemma bm_ok_remove [simp]: "bm_ok m \<Longrightarrow> bm_ok (bm_remove k m)"
  by (simp add: bm_remove_def)

lemma bm_ok_retain [simp]: "bm_ok m \<Longrightarrow> bm_ok (bm_retain P m)"
  by (simp add: bm_retain_def)

lemma keys_bm_update [simp]: "map fst (bm_update k f m) = map fst m"
  by (simp add: bm_update_def comp_def)

lemma bm_ok_update [simp]: "bm_ok (bm_update k f m) = bm_ok m"
  by (simp add: bm_ok_def)

lemma map_of_bm_update [simp]:
  "map_of (bm_update k f m) = (\<lambda>k'. if k' = k then map_option f (map_of m k) else map_of m k')"
  by (induction m) (auto simp: bm_update_def fun_eq_iff)

lemma map_of_bm_remove [simp]: "map_of (bm_remove k m) = (map_of m)(k := None)"
  by (induction m) (auto simp: bm_remove_def fun_eq_iff)

lemma map_of_in_set: "bm_ok m \<Longrightarrow> (k, v) \<in> set m \<longleftrightarrow> map_of m k = Some v"
  by (simp add: bm_ok_distinct)

lemma map_of_bm_retain:
  assumes "bm_ok m"
  shows "map_of (bm_retain P m) k = (case map_of m k of None \<Rightarrow> None | Some v \<Rightarrow> if P k v then Some v else None)"
  using assms
  by (induction m) (auto simp: bm_retain_def bm_ok_Cons map_of_eq_None_iff split: option.splits)

lemma bm_contains_iff: "bm_contains m k \<longleftrightarrow> k \<in> fst ` set m"
  by (simp add: bm_contains_def map_of_eq_None_iff)

lemma bm_contains_simps [simp]:
  "bm_contains (bm_insert k v m) k' \<longleftrightarrow> k' = k \<or> bm_contains m k'"
  "bm_contains (bm_update k f m) k' \<longleftrightarrow> bm_contains m k'"
  "bm_contains (bm_remove k m) k' \<longleftrightarrow> k' \<noteq> k \<and> bm_contains m k'"
  by (auto simp: bm_contains_def)

lemma set_bm_values: "bm_ok m \<Longrightarrow> set (bm_values m) = ran (map_of m)"
  by (simp add: bm_values_def ran_distinct bm_ok_distinct)

lemma in_bm_values: "bm_ok m \<Longrightarrow> v \<in> set (bm_values m) \<longleftrightarrow> (\<exists>k. map_of m k = Some v)"
  by (simp add: set_bm_values ran_def)

lemma bm_ext:
  assumes "bm_ok m" and "bm_ok m'" and "map_of m = map_of m'"
  shows "m = m'"
proof -
  have s: "set m = set m'"
    using assms by (metis map_of_in_set subrelI subset_antisym)
  have "map fst m = map fst m'"
    using assms(1,2) s unfolding bm_ok_def
    by (intro strict_sorted_equal) auto
  moreover have "map snd m = map snd m'"
  proof -
    have "map snd m = map (\<lambda>k. the (map_of m k)) (map fst m)"
      using bm_ok_distinct [OF assms(1)] by (auto simp: map_of_in_set [OF assms(1), symmetric])
    moreover have "map snd m' = map (\<lambda>k. the (map_of m' k)) (map fst m')"
      using bm_ok_distinct [OF assms(2)] by (auto simp: map_of_in_set [OF assms(2), symmetric])
    ultimately show ?thesis using assms(3) \<open>map fst m = map fst m'\<close> by simp
  qed
  ultimately show ?thesis by (metis zip_map_fst_snd)
qed

lemma bm_ok_fold_insert: "bm_ok m \<Longrightarrow> bm_ok (fold (\<lambda>e. bm_insert (fst e) (snd e)) es m)"
  by (induction es arbitrary: m) auto

lemma bm_ok_collect [simp]: "bm_ok (bm_collect es)"
  by (simp add: bm_collect_def bm_ok_fold_insert)

lemma map_of_fold_insert:
  "map_of (fold (\<lambda>e. bm_insert (fst e) (snd e)) es m) = map_of m ++ map_of (rev es)"
  by (induction es arbitrary: m) (auto simp: fun_eq_iff map_add_def split: option.splits)

lemma map_of_collect: "map_of (bm_collect es) = map_of (rev es)"
  by (simp add: bm_collect_def map_of_fold_insert)

lemma map_of_rev_distinct: "distinct (map fst m) \<Longrightarrow> map_of (rev m) = map_of m"
  by (rule ext) (metis distinct_rev map_of_eq_Some_iff not_None_eq rev_map set_rev)

lemma set_bs_insert [simp]: "set (bs_insert x s) = insert x (set s)"
  by (induction s) auto

lemma set_bs_remove [simp]: "set (bs_remove x s) = set s - {x}"
  by (auto simp: bs_remove_def)

lemma sorted_bs_insert [simp]: "sorted_wrt (<) s \<Longrightarrow> sorted_wrt (<) (bs_insert x s)"
  by (induction s) auto

lemma sorted_bs_remove [simp]: "sorted_wrt (<) s \<Longrightarrow> sorted_wrt (<) (bs_remove x s)"
  by (simp add: bs_remove_def sorted_wrt_filter)

text \<open>The map interface the components program against, discharged by the list model.\<close>

locale key_value_map =
  fixes empty :: "'m" and put :: "'k \<Rightarrow> 'v \<Rightarrow> 'm \<Rightarrow> 'm" and del :: "'k \<Rightarrow> 'm \<Rightarrow> 'm"
    and get :: "'m \<Rightarrow> 'k \<Rightarrow> 'v option" and invar :: "'m \<Rightarrow> bool"
  assumes get_empty: "get empty = (\<lambda>_. None)"
    and get_put: "invar m \<Longrightarrow> get (put k v m) = (get m)(k \<mapsto> v)"
    and get_del: "invar m \<Longrightarrow> get (del k m) = (get m)(k := None)"
    and invar_empty: "invar empty"
    and invar_put: "invar m \<Longrightarrow> invar (put k v m)"
    and invar_del: "invar m \<Longrightarrow> invar (del k m)"
begin

lemma invar_puts: "invar m \<Longrightarrow> invar (fold (\<lambda>e. put (fst e) (snd e)) es m)"
  by (induction es arbitrary: m) (auto simp: invar_put)

lemma get_puts: "invar m \<Longrightarrow> get (fold (\<lambda>e. put (fst e) (snd e)) es m) = get m ++ map_of (rev es)"
  by (induction es arbitrary: m) (auto simp: get_put invar_put fun_eq_iff map_add_def
      split: option.splits)

lemma get_dels: "invar m \<Longrightarrow> get (fold del ks m) = (get m) |` (- set ks)"
proof (induction ks arbitrary: m)
  case (Cons k ks)
  then show ?case by (auto simp: get_del invar_del restrict_map_def fun_eq_iff)
qed (simp add: restrict_map_def)

end

interpretation btree: key_value_map "[]" bm_insert bm_remove map_of bm_ok
  by unfold_locales simp_all

section \<open>Forward-only state machines\<close>

text \<open>
  The interface of the contract's state enumerations: a transition predicate that allows
  replaying the current state and otherwise only moves forward, witnessed by a rank.
\<close>

locale forward_machine =
  fixes can :: "'s \<Rightarrow> 's \<Rightarrow> bool" and rank :: "'s \<Rightarrow> nat"
  assumes can_refl: "can s s"
    and can_rank: "can s t \<Longrightarrow> s \<noteq> t \<Longrightarrow> rank s < rank t"
begin

lemma reach_rank: "can\<^sup>*\<^sup>* s t \<Longrightarrow> s = t \<or> rank s < rank t"
  by (induction rule: rtranclp_induct) (use can_rank in fastforce)+

lemma reach_antisym: "can\<^sup>*\<^sup>* s t \<Longrightarrow> can\<^sup>*\<^sup>* t s \<Longrightarrow> s = t"
  using reach_rank [of s t] reach_rank [of t s] by auto

lemma terminal_absorbing:
  assumes "\<And>t. can s t \<Longrightarrow> t = s" and "can\<^sup>*\<^sup>* s t"
  shows "t = s"
  using assms(2) by (induction rule: rtranclp_induct) (use assms(1) in auto)

lemma strict_run_length:
  assumes "successively (\<lambda>a b. can a b \<and> a \<noteq> b) (s # run)"
  shows "rank s + length run \<le> rank (last (s # run))"
  using assms
proof (induction run arbitrary: s)
  case (Cons t run)
  then have "rank s < rank t" by (auto intro: can_rank)
  moreover have "rank t + length run \<le> rank (last (t # run))"
    using Cons by auto
  ultimately show ?case by simp
qed simp

end

end
