(* ===== verification/Contract_Validation.thy ===== *)
theory Contract_Validation
  imports Cyrene_Prelude
begin

text \<open>
  The leaf validators of the Kernel Semantic Contract (\<open>contracts/rust/cy-kernel-contract\<close>):
  \<open>validation.rs\<close> (text, namespaced identifiers, timestamps, reason codes, property maps),
  \<open>identity.rs\<close> and \<open>revision.rs\<close> (contract revisions, negotiation, rejections). The
  byte-at-a-time scanner for namespaced identifiers is proved equivalent to a grammar, and
  negotiation to be sound, symmetric and a fixpoint on its own result.
\<close>

section \<open>validation.rs: limits and errors\<close>

definition CONTRACT_ID :: string where "CONTRACT_ID = ''cyrene.kernel.semantic''"
definition CONTRACT_MAJOR :: u32 where "CONTRACT_MAJOR = 1"
definition CONTRACT_MINOR :: u32 where "CONTRACT_MINOR = 0"
definition MAX_ID_BYTES :: nat where "MAX_ID_BYTES = 256"
definition MAX_NAMESPACED_ID_BYTES :: nat where "MAX_NAMESPACED_ID_BYTES = 128"
definition MAX_CAPABILITIES :: nat where "MAX_CAPABILITIES = 64"
definition MAX_PROPERTIES :: nat where "MAX_PROPERTIES = 64"
definition MAX_RESOURCES_PER_SNAPSHOT :: nat where "MAX_RESOURCES_PER_SNAPSHOT = 1024"
definition MAX_RESOURCES_PER_LEASE :: nat where "MAX_RESOURCES_PER_LEASE = 256"
definition MAX_WORKERS_PER_SNAPSHOT :: nat where "MAX_WORKERS_PER_SNAPSHOT = 4096"
definition MAX_ENDPOINTS_PER_SNAPSHOT :: nat where "MAX_ENDPOINTS_PER_SNAPSHOT = 4096"
definition MAX_EXECUTION_REF_BYTES :: nat where "MAX_EXECUTION_REF_BYTES = 512"
definition MAX_CONNECTION_REF_BYTES :: nat where "MAX_CONNECTION_REF_BYTES = 512"
definition MAX_ERROR_MESSAGE_BYTES :: nat where "MAX_ERROR_MESSAGE_BYTES = 1024"
definition MAX_EVENT_BODY_BYTES :: nat where "MAX_EVENT_BODY_BYTES = 64 * 1024"
definition MAX_EVENTS_PER_PAGE :: nat where "MAX_EVENTS_PER_PAGE = 256"
definition MAX_TIMESTAMP_UNIX_MS :: u64 where "MAX_TIMESTAMP_UNIX_MS = 253402300799999"

lemmas contract_limits = MAX_ID_BYTES_def MAX_NAMESPACED_ID_BYTES_def MAX_CAPABILITIES_def
  MAX_PROPERTIES_def MAX_RESOURCES_PER_SNAPSHOT_def MAX_RESOURCES_PER_LEASE_def
  MAX_WORKERS_PER_SNAPSHOT_def MAX_ENDPOINTS_PER_SNAPSHOT_def MAX_EXECUTION_REF_BYTES_def
  MAX_CONNECTION_REF_BYTES_def MAX_ERROR_MESSAGE_BYTES_def MAX_EVENT_BODY_BYTES_def
  MAX_EVENTS_PER_PAGE_def MAX_TIMESTAMP_UNIX_MS_def

record contract_error =
  ce_reason_code :: string
  ce_message :: string

definition contract_err :: "string \<Rightarrow> string \<Rightarrow> contract_error" where
  "contract_err code msg = \<lparr>ce_reason_code = code, ce_message = msg\<rparr>"

section \<open>validation.rs: validators\<close>

definition validate_text :: "string \<Rightarrow> string \<Rightarrow> nat \<Rightarrow> contract_error + unit" where
  "validate_text field val max_bytes =
     (if val = [] \<or> length val > max_bytes \<or> has_control val
      then Inl (contract_err ''TEXT_INVALID''
             (field @ '' must be non-empty, bounded UTF-8 without control characters''))
      else Inr ())"

definition is_separator :: "char \<Rightarrow> bool" where
  "is_separator c \<longleftrightarrow> c = CHR ''.'' \<or> c = CHR ''-'' \<or> c = CHR ''_''"

text \<open>The loop over \<open>value.bytes()\<close> with its \<open>expect_segment_start\<close> flag.\<close>

fun namespaced_scan :: "string \<Rightarrow> bool \<Rightarrow> string \<Rightarrow> contract_error + unit" where
  "namespaced_scan field expect_segment_start [] =
     (if expect_segment_start
      then Inl (contract_err ''NAMESPACED_ID_INVALID'' (field @ '' cannot end with a separator''))
      else Inr ())"
| "namespaced_scan field expect_segment_start (c # cs) =
     (if is_separator c then
        (if expect_segment_start
         then Inl (contract_err ''NAMESPACED_ID_INVALID''
                (field @ '' contains an empty identifier segment''))
         else namespaced_scan field True cs)
      else if expect_segment_start then
        (if \<not> is_ascii_lowercase c
         then Inl (contract_err ''NAMESPACED_ID_INVALID''
                (field @ '' segments must start with a lower-case letter''))
         else namespaced_scan field False cs)
      else if \<not> (is_ascii_lowercase c \<or> is_ascii_digit c)
      then Inl (contract_err ''NAMESPACED_ID_INVALID''
             (field @ '' contains an unsupported character''))
      else namespaced_scan field False cs)"

definition validate_namespaced_id :: "string \<Rightarrow> string \<Rightarrow> contract_error + unit" where
  "validate_namespaced_id field val =
     first_err [validate_text field val MAX_NAMESPACED_ID_BYTES, namespaced_scan field True val]"

definition validate_timestamp :: "string \<Rightarrow> u64 \<Rightarrow> contract_error + unit" where
  "validate_timestamp field unix_ms =
     (if unix_ms = 0 \<or> unix_ms > MAX_TIMESTAMP_UNIX_MS
      then Inl (contract_err ''TIMESTAMP_INVALID''
             (field @ '' must be a positive Protobuf-compatible Unix millisecond value''))
      else Inr ())"

fun reason_code_bytes_ok :: "string \<Rightarrow> bool" where
  "reason_code_bytes_ok [] = True"
| "reason_code_bytes_ok (c # cs) =
     (is_ascii_uppercase c \<and>
      list_all (\<lambda>b. is_ascii_uppercase b \<or> is_ascii_digit b \<or> b = CHR ''_'') cs)"

definition validate_reason_code :: "string \<Rightarrow> contract_error + unit" where
  "validate_reason_code val =
     first_err
       [validate_text ''reason code'' val MAX_NAMESPACED_ID_BYTES,
        ensure (reason_code_bytes_ok val)
          (contract_err ''REASON_CODE_INVALID'' ''reason code must use upper snake case'')]"

definition validate_properties :: "(string, string) btree_map \<Rightarrow> contract_error + unit" where
  "validate_properties properties =
     (if length properties > MAX_PROPERTIES
      then Inl (contract_err ''PROPERTY_LIMIT_EXCEEDED'' ''object has too many properties'')
      else for_each (\<lambda>(key, val).
             first_err [validate_namespaced_id ''property key'' key,
                        validate_text ''property value'' val MAX_ID_BYTES]) properties)"

section \<open>identity.rs\<close>

datatype identity = Identity (ident_id: string) (ident_generation: u64)

definition Identity_validate :: "identity \<Rightarrow> contract_error + unit" where
  "Identity_validate i =
     first_err
       [validate_text ''identity id'' (ident_id i) MAX_ID_BYTES,
        ensure (ident_generation i \<noteq> 0)
          (contract_err ''GENERATION_INVALID'' ''identity generation must be non-zero'')]"

record principal =
  principal_identity :: identity

definition Principal_validate :: "principal \<Rightarrow> contract_error + unit" where
  "Principal_validate p = Identity_validate (principal_identity p)"

text \<open>The derived order compares the id bytes first and then the generation.\<close>

instantiation identity :: linorder
begin

definition less_eq_identity :: "identity \<Rightarrow> identity \<Rightarrow> bool" where
  "less_eq_identity a b \<longleftrightarrow>
     (ident_id a, ident_generation a) \<le> (ident_id b, ident_generation b)"

definition less_identity :: "identity \<Rightarrow> identity \<Rightarrow> bool" where
  "less_identity a b \<longleftrightarrow>
     (ident_id a, ident_generation a) < (ident_id b, ident_generation b)"

instance
  by intro_classes
    (auto simp: less_eq_identity_def less_identity_def less_le_not_le intro: identity.expand)

end

section \<open>revision.rs\<close>

record contract_revision =
  contract_id :: string
  rev_major :: u32
  rev_minor :: u32

definition ContractRevision_current :: contract_revision where
  "ContractRevision_current =
     \<lparr>contract_id = CONTRACT_ID, rev_major = CONTRACT_MAJOR, rev_minor = CONTRACT_MINOR\<rparr>"

definition ContractRevision_validate :: "contract_revision \<Rightarrow> contract_error + unit" where
  "ContractRevision_validate r =
     first_err
       [validate_namespaced_id ''contract id'' (contract_id r),
        ensure (rev_major r \<noteq> 0)
          (contract_err ''CONTRACT_MAJOR_INVALID''
             ''semantic contract major version must be non-zero'')]"

definition negotiate :: "contract_revision \<Rightarrow> contract_revision \<Rightarrow> contract_revision option" where
  "negotiate self offered =
     (if \<not> is_ok (ContractRevision_validate self) \<or> \<not> is_ok (ContractRevision_validate offered)
         \<or> contract_id self \<noteq> contract_id offered \<or> rev_major self \<noteq> rev_major offered
      then None
      else Some \<lparr>contract_id = contract_id self, rev_major = rev_major self,
                 rev_minor = min (rev_minor self) (rev_minor offered)\<rparr>)"

record rejection =
  rej_reason_code :: string
  rej_message :: string

definition rejection :: "string \<Rightarrow> string \<Rightarrow> rejection" where
  "rejection code msg = \<lparr>rej_reason_code = code, rej_message = msg\<rparr>"

definition Rejection_validate :: "rejection \<Rightarrow> contract_error + unit" where
  "Rejection_validate r =
     first_err
       [validate_reason_code (rej_reason_code r),
        validate_text ''rejection message'' (rej_message r) MAX_ERROR_MESSAGE_BYTES]"

section \<open>Characterisations\<close>

lemma validate_text_Inr [simp]:
  "validate_text f v n = Inr u \<longleftrightarrow> v \<noteq> [] \<and> length v \<le> n \<and> \<not> has_control v"
  by (auto simp: validate_text_def)

lemma validate_timestamp_Inr [simp]:
  "validate_timestamp f t = Inr u \<longleftrightarrow> 0 < t \<and> t \<le> MAX_TIMESTAMP_UNIX_MS"
  by (auto simp: validate_timestamp_def word_gt_0)

lemma Identity_validate_Inr:
  "Identity_validate i = Inr u \<longleftrightarrow>
     ident_id i \<noteq> [] \<and> length (ident_id i) \<le> MAX_ID_BYTES \<and> \<not> has_control (ident_id i) \<and>
     ident_generation i \<noteq> 0"
  by (auto simp: Identity_validate_def)

text \<open>
  The grammar of namespaced identifiers: the maximal runs between separators, each a
  lower-case letter followed by lower-case letters and digits.
\<close>

fun ns_segments :: "string \<Rightarrow> string list" where
  "ns_segments [] = [[]]"
| "ns_segments (c # cs) =
     (if is_separator c then [] # ns_segments cs
      else (case ns_segments cs of [] \<Rightarrow> [[c]] | s # ss \<Rightarrow> (c # s) # ss))"

definition ns_rest :: "string \<Rightarrow> bool" where
  "ns_rest s \<longleftrightarrow> list_all (\<lambda>c. is_ascii_lowercase c \<or> is_ascii_digit c) s"

definition ns_segment :: "string \<Rightarrow> bool" where
  "ns_segment s \<longleftrightarrow> (case s of [] \<Rightarrow> False | c # cs \<Rightarrow> is_ascii_lowercase c \<and> ns_rest cs)"

definition namespaced_grammar :: "string \<Rightarrow> bool" where
  "namespaced_grammar s \<longleftrightarrow> list_all ns_segment (ns_segments s)"

lemma ns_segments_nonempty: "ns_segments s \<noteq> []"
  by (induction s) (auto split: list.splits)

lemma namespaced_scan_grammar:
  "namespaced_scan f e s = Inr u \<longleftrightarrow>
     (case ns_segments s of [] \<Rightarrow> False
      | t # ts \<Rightarrow> (if e then ns_segment t else ns_rest t) \<and> list_all ns_segment ts)"
proof (induction s arbitrary: e)
  case Nil
  then show ?case by (auto simp: ns_segment_def ns_rest_def)
next
  case (Cons c cs)
  obtain t ts where seg: "ns_segments cs = t # ts"
    using ns_segments_nonempty by (metis list.exhaust)
  show ?case
    using Cons.IH [of True] Cons.IH [of False] seg
    by (auto simp: ns_segment_def ns_rest_def)
qed

lemma ns_segments_cover:
  "c \<in> set s \<Longrightarrow> is_separator c \<or> (\<exists>t\<in>set (ns_segments s). c \<in> set t)"
proof (induction s)
  case (Cons d s)
  obtain t ts where seg: "ns_segments s = t # ts"
    using ns_segments_nonempty by (metis list.exhaust)
  show ?case
  proof (cases "c = d")
    case True
    then show ?thesis using seg by simp
  next
    case False
    then have "is_separator c \<or> c \<in> set t \<or> (\<exists>t\<in>set ts. c \<in> set t)"
      using Cons seg by simp
    then show ?thesis using seg by auto
  qed
qed simp

lemma ns_segment_iff:
  "ns_segment s \<longleftrightarrow>
     (\<exists>c cs. s = c # cs \<and> is_ascii_lowercase c \<and>
        (\<forall>d\<in>set cs. is_ascii_lowercase d \<or> is_ascii_digit d))"
  by (cases s) (simp_all add: ns_segment_def ns_rest_def list_all_iff)

lemma ns_segment_chars:
  "ns_segment t \<Longrightarrow> c \<in> set t \<Longrightarrow> is_ascii_lowercase c \<or> is_ascii_digit c"
  by (cases t) (auto simp: ns_segment_def ns_rest_def list_all_iff)

lemma grammar_chars:
  "list_all ns_segment (ns_segments s) \<Longrightarrow> c \<in> set s \<Longrightarrow>
     is_separator c \<or> is_ascii_lowercase c \<or> is_ascii_digit c"
  by (metis list_all_iff ns_segments_cover ns_segment_chars)

lemma separator_bytes: "is_separator c \<Longrightarrow> 32 \<le> byte c \<and> byte c < 127"
  by (auto simp: is_separator_def byte_def)

lemma grammar_printable: "namespaced_grammar s \<Longrightarrow> s \<noteq> [] \<and> \<not> has_control s"
proof -
  assume g: "namespaced_grammar s"
  then have "s \<noteq> []" by (auto simp: namespaced_grammar_def ns_segment_def)
  moreover have "32 \<le> byte c \<and> byte c < 127" if "c \<in> set s" for c
    using grammar_chars [of s c] g that separator_bytes [of c]
    by (auto simp: namespaced_grammar_def is_ascii_lowercase_def is_ascii_digit_def)
  ultimately show ?thesis using has_control_ascii by blast
qed

lemma validate_namespaced_id_grammar:
  "validate_namespaced_id f v = Inr u \<longleftrightarrow> length v \<le> MAX_NAMESPACED_ID_BYTES \<and> namespaced_grammar v"
proof -
  have "namespaced_scan f True v = Inr () \<longleftrightarrow> namespaced_grammar v"
    using ns_segments_nonempty [of v]
    by (cases "ns_segments v") (auto simp: namespaced_scan_grammar namespaced_grammar_def)
  then show ?thesis
    using grammar_printable [of v]
    by (auto simp: validate_namespaced_id_def)
qed

lemma negotiate_Some:
  "negotiate a b = Some r \<longleftrightarrow>
     ContractRevision_validate a = Inr () \<and> ContractRevision_validate b = Inr () \<and>
     contract_id a = contract_id b \<and> rev_major a = rev_major b \<and>
     r = \<lparr>contract_id = contract_id a, rev_major = rev_major a,
          rev_minor = min (rev_minor a) (rev_minor b)\<rparr>"
  by (auto simp: negotiate_def is_ok_unit)

lemma ContractRevision_validate_minor [simp]:
  "ContractRevision_validate (r\<lparr>rev_minor := m\<rparr>) = ContractRevision_validate r"
  by (simp add: ContractRevision_validate_def)

lemma current_revision_valid: "ContractRevision_validate ContractRevision_current = Inr ()"
  by (simp add: ContractRevision_validate_def ContractRevision_current_def CONTRACT_ID_def
      CONTRACT_MAJOR_def validate_namespaced_id_def validate_text_def contract_limits byte_def
      is_separator_def is_ascii_lowercase_def)

section \<open>Properties\<close>

text \<open>C38. The byte-at-a-time scanner behind every namespaced identifier accepts exactly the
  strings of at most 128 bytes whose dot/dash/underscore-separated segments are each a
  lower-case letter followed by lower-case letters and digits; the text checks that precede
  the scan (non-empty, no control characters) reject nothing further.\<close>

theorem validate_namespaced_id_language:
  "validate_namespaced_id field v = Inr () \<longleftrightarrow>
     length v \<le> 128 \<and>
     (\<forall>seg\<in>set (ns_segments v).
        \<exists>c cs. seg = c # cs \<and> is_ascii_lowercase c \<and>
          (\<forall>d\<in>set cs. is_ascii_lowercase d \<or> is_ascii_digit d))"
  by (simp add: validate_namespaced_id_grammar namespaced_grammar_def list_all_iff
      ns_segment_iff MAX_NAMESPACED_ID_BYTES_def)

theorem validate_namespaced_id_language_witness:
  "validate_namespaced_id ''kind'' ''gpu.nvidia-a100'' = Inr () \<and>
   validate_namespaced_id ''kind'' ''gpu..a'' \<noteq> Inr ()"
  unfolding validate_namespaced_id_language
  by (simp add: is_separator_def is_ascii_lowercase_def is_ascii_digit_def byte_def)

text \<open>Contract negotiation does not depend on which side offers. A negotiated revision is
  valid, has the major version both sides named, a minor version neither side exceeds and one
  of them supports exactly, and renegotiating it with either side gives it back.\<close>

theorem negotiate_agreement:
  "negotiate a b = negotiate b a \<and>
   (negotiate a b = Some r \<longrightarrow>
      ContractRevision_validate r = Inr () \<and> contract_id r = contract_id a \<and>
      rev_major r = rev_major a \<and> rev_major r = rev_major b \<and>
      rev_minor r \<le> rev_minor a \<and> rev_minor r \<le> rev_minor b \<and>
      rev_minor r \<in> {rev_minor a, rev_minor b} \<and>
      negotiate r a = Some r \<and> negotiate r b = Some r)"
proof -
  have valid: "ContractRevision_validate
      \<lparr>contract_id = contract_id x, rev_major = rev_major x, rev_minor = m\<rparr> =
      ContractRevision_validate x" for x m
    by (simp add: ContractRevision_validate_def)
  have "negotiate a b = negotiate b a"
    by (auto simp: negotiate_def min.commute)
  then show ?thesis
    by (auto simp: negotiate_Some valid min_def)
qed

theorem negotiate_agreement_witness:
  "negotiate ContractRevision_current (ContractRevision_current\<lparr>rev_minor := 7\<rparr>) =
     Some ContractRevision_current \<and>
   negotiate ContractRevision_current ContractRevision_current = Some ContractRevision_current"
proof -
  have n: "negotiate ContractRevision_current (ContractRevision_current\<lparr>rev_minor := 7\<rparr>) =
      Some ContractRevision_current"
    using current_revision_valid
    by (simp add: negotiate_Some) (simp add: ContractRevision_current_def CONTRACT_MINOR_def)
  then show ?thesis using negotiate_agreement by blast
qed

end
