(* ===== verification/Contract_Model.thy ===== *)
theory Contract_Model
  imports Contract_Validation
begin

text \<open>
  The entities of the Kernel Semantic Contract: \<open>resource.rs\<close>, \<open>lease.rs\<close>, \<open>operation.rs\<close>,
  \<open>worker.rs\<close>, \<open>endpoint.rs\<close>, \<open>event.rs\<close> and \<open>snapshot.rs\<close> of
  \<open>contracts/rust/cy-kernel-contract\<close>. Each struct is a record whose fields carry a short
  prefix, each \<open>validate\<close> a sequence of early returns in the source's order, and the three
  lifecycle enumerations are interpreted as forward-only state machines.
\<close>

section \<open>resource.rs\<close>

record capability =
  cap_id :: string
  cap_revision :: u32
  cap_properties :: "(string, string) btree_map"

definition Capability_validate :: "capability \<Rightarrow> contract_error + unit" where
  "Capability_validate c =
     first_err
       [validate_namespaced_id ''capability id'' (cap_id c),
        ensure (cap_revision c \<noteq> 0)
          (contract_err ''CAPABILITY_REVISION_INVALID'' ''capability revision must be non-zero''),
        validate_properties (cap_properties c)]"

definition validate_capabilities :: "capability list \<Rightarrow> contract_error + unit" where
  "validate_capabilities capabilities =
     (if length capabilities > MAX_CAPABILITIES
      then Inl (contract_err ''CAPABILITY_LIMIT_EXCEEDED'' ''object has too many capabilities'')
      else each_unique Capability_validate cap_id
             (contract_err ''CAPABILITY_DUPLICATE'' ''object contains a duplicate capability id'')
             [] capabilities)"

record capability_requirement =
  req_id :: string
  req_minimum_revision :: u32
  req_required_properties :: "(string, string) btree_map"

definition CapabilityRequirement_matches :: "capability_requirement \<Rightarrow> capability \<Rightarrow> bool" where
  "CapabilityRequirement_matches r c \<longleftrightarrow>
     req_id r = cap_id c \<and> cap_revision c \<ge> req_minimum_revision r \<and>
     list_all (\<lambda>(key, val). map_of (cap_properties c) key = Some val) (req_required_properties r)"

definition CapabilityRequirement_validate :: "capability_requirement \<Rightarrow> contract_error + unit" where
  "CapabilityRequirement_validate r =
     first_err
       [validate_namespaced_id ''capability requirement id'' (req_id r),
        ensure (req_minimum_revision r \<noteq> 0)
          (contract_err ''CAPABILITY_REVISION_INVALID''
             ''minimum capability revision must be non-zero''),
        validate_properties (req_required_properties r)]"

record quantity =
  q_value :: u64
  q_unit :: string

definition Quantity_satisfies :: "quantity \<Rightarrow> quantity \<Rightarrow> bool" where
  "Quantity_satisfies q minimum \<longleftrightarrow> q_unit q = q_unit minimum \<and> q_value q \<ge> q_value minimum"

definition Quantity_validate :: "quantity \<Rightarrow> contract_error + unit" where
  "Quantity_validate q = validate_namespaced_id ''quantity unit'' (q_unit q)"

datatype provider_state = ProviderReady | ProviderDegraded | ProviderUnavailable

record provider =
  prov_identity :: identity
  prov_state :: provider_state
  prov_capabilities :: "capability list"

definition Provider_validate :: "provider \<Rightarrow> contract_error + unit" where
  "Provider_validate p =
     first_err [Identity_validate (prov_identity p), validate_capabilities (prov_capabilities p)]"

datatype resource_state = ResourceReady | ResourceDegraded | ResourceUnavailable

record topology_link =
  link_peer :: identity
  link_kind :: string
  link_properties :: "(string, string) btree_map"

definition TopologyLink_validate :: "topology_link \<Rightarrow> contract_error + unit" where
  "TopologyLink_validate l =
     first_err
       [Identity_validate (link_peer l),
        validate_namespaced_id ''topology kind'' (link_kind l),
        validate_properties (link_properties l)]"

record resource =
  res_identity :: identity
  res_provider :: identity
  res_class :: string
  res_capabilities :: "capability list"
  res_capacity :: "(string, quantity) btree_map"
  res_attributes :: "(string, string) btree_map"
  res_state :: resource_state
  res_reason_code :: string
  res_summary :: string
  res_links :: "topology_link list"

definition validate_quantities :: "string \<Rightarrow> (string, quantity) btree_map \<Rightarrow> contract_error + unit" where
  "validate_quantities field m =
     for_each (\<lambda>(key, quantity).
       first_err [validate_namespaced_id field key, Quantity_validate quantity]) m"

definition Resource_validate :: "resource \<Rightarrow> contract_error + unit" where
  "Resource_validate r =
     first_err
       [Identity_validate (res_identity r),
        Identity_validate (res_provider r),
        validate_namespaced_id ''resource class'' (res_class r),
        validate_capabilities (res_capabilities r),
        ensure (length (res_capacity r) \<le> MAX_PROPERTIES)
          (contract_err ''CAPACITY_LIMIT_EXCEEDED'' ''resource capacity has too many entries''),
        validate_quantities ''capacity key'' (res_capacity r),
        validate_properties (res_attributes r),
        validate_namespaced_id ''resource reason code'' (res_reason_code r),
        validate_text ''resource summary'' (res_summary r) MAX_ID_BYTES,
        ensure (length (res_links r) \<le> MAX_PROPERTIES)
          (contract_err ''TOPOLOGY_LIMIT_EXCEEDED'' ''resource has too many topology links''),
        each_unique
          (\<lambda>l. first_err
             [TopologyLink_validate l,
              ensure (link_peer l \<noteq> res_identity r)
                (contract_err ''TOPOLOGY_SELF_LINK'' ''resource topology cannot link to itself'')])
          (\<lambda>l. (link_peer l, link_kind l))
          (contract_err ''TOPOLOGY_LINK_DUPLICATE'' ''resource contains a duplicate topology link'')
          [] (res_links r)]"

record resource_query =
  rq_class :: string
  rq_count :: u32
  rq_required_capabilities :: "capability_requirement list"
  rq_minimum_capacity :: "(string, quantity) btree_map"

definition ResourceQuery_matches :: "resource_query \<Rightarrow> resource \<Rightarrow> bool" where
  "ResourceQuery_matches q r \<longleftrightarrow>
     rq_class q = res_class r \<and>
     list_all (\<lambda>requirement.
       list_ex (CapabilityRequirement_matches requirement) (res_capabilities r))
       (rq_required_capabilities q) \<and>
     list_all (\<lambda>(key, minimum).
       case map_of (res_capacity r) key of
         None \<Rightarrow> False
       | Some actual \<Rightarrow> Quantity_satisfies actual minimum) (rq_minimum_capacity q)"

definition ResourceQuery_validate :: "resource_query \<Rightarrow> contract_error + unit" where
  "ResourceQuery_validate q =
     first_err
       [validate_namespaced_id ''resource class'' (rq_class q),
        ensure (rq_count q \<noteq> 0)
          (contract_err ''RESOURCE_COUNT_INVALID'' ''resource query count must be non-zero''),
        ensure (unat (rq_count q) \<le> MAX_RESOURCES_PER_LEASE)
          (contract_err ''RESOURCE_COUNT_LIMIT_EXCEEDED''
             ''resource query count exceeds the per-lease limit''),
        ensure (length (rq_required_capabilities q) \<le> MAX_CAPABILITIES)
          (contract_err ''CAPABILITY_LIMIT_EXCEEDED''
             ''resource query has too many capability requirements''),
        each_unique CapabilityRequirement_validate req_id
          (contract_err ''CAPABILITY_REQUIREMENT_DUPLICATE''
             ''resource query contains a duplicate capability requirement'')
          [] (rq_required_capabilities q),
        ensure (length (rq_minimum_capacity q) \<le> MAX_PROPERTIES)
          (contract_err ''CAPACITY_LIMIT_EXCEEDED''
             ''resource query has too many capacity requirements''),
        validate_quantities ''capacity key'' (rq_minimum_capacity q)]"

section \<open>lease.rs\<close>

datatype lease_state =
  LeaseActive | LeaseReleasing | LeaseReleased | LeaseExpired | LeaseRevoked | LeaseFailed

fun LeaseState_can_transition_to :: "lease_state \<Rightarrow> lease_state \<Rightarrow> bool" where
  "LeaseState_can_transition_to self nxt =
     (self = nxt \<or>
      (case self of
         LeaseActive \<Rightarrow> nxt \<in> {LeaseReleasing, LeaseExpired, LeaseRevoked, LeaseFailed}
       | LeaseReleasing \<Rightarrow> nxt \<in> {LeaseReleased, LeaseRevoked, LeaseFailed}
       | _ \<Rightarrow> False))"

record lease =
  lease_identity :: identity
  lease_holder :: identity
  lease_resources :: "identity list"
  lease_state :: lease_state
  lease_fence_token :: u64
  lease_expires_at_unix_ms :: "u64 option"

definition Lease_validate :: "lease \<Rightarrow> contract_error + unit" where
  "Lease_validate l =
     first_err
       [Identity_validate (lease_identity l),
        Identity_validate (lease_holder l),
        ensure (lease_resources l \<noteq> [] \<and> length (lease_resources l) \<le> MAX_RESOURCES_PER_LEASE)
          (contract_err ''LEASE_RESOURCE_LIMIT_INVALID''
             ''lease must contain a bounded, non-empty resource set''),
        each_unique Identity_validate (\<lambda>r. r)
          (contract_err ''LEASE_RESOURCE_DUPLICATE'' ''lease contains a duplicate resource identity'')
          [] (lease_resources l),
        ensure (lease_fence_token l \<noteq> 0)
          (contract_err ''FENCE_TOKEN_INVALID'' ''lease fence token must be non-zero''),
        bind_res
          (ok_or (lease_expires_at_unix_ms l)
             (contract_err ''LEASE_EXPIRY_REQUIRED'' ''v1 leases must have a finite expiry''))
          (validate_timestamp ''lease expiry'')]"

definition Lease_authorizes :: "lease \<Rightarrow> identity \<Rightarrow> identity \<Rightarrow> u64 \<Rightarrow> u64 \<Rightarrow> bool" where
  "Lease_authorizes l holder resource fence_token now_unix_ms \<longleftrightarrow>
     is_ok (Lease_validate l) \<and> lease_state l = LeaseActive \<and> lease_holder l = holder \<and>
     resource \<in> set (lease_resources l) \<and> lease_fence_token l = fence_token \<and>
     (case lease_expires_at_unix_ms l of None \<Rightarrow> False | Some e \<Rightarrow> now_unix_ms < e)"

definition Lease_renew_lease :: "lease \<Rightarrow> u64 \<Rightarrow> u64 \<Rightarrow> u64 \<Rightarrow> contract_error + lease" where
  "Lease_renew_lease l fence_token expires_at_unix_ms now_unix_ms =
     bind_res (Lease_validate l) (\<lambda>_.
     bind_res (ensure (lease_state l = LeaseActive)
       (contract_err ''LEASE_NOT_ACTIVE'' ''only an active lease can be renewed'')) (\<lambda>_.
     bind_res (ok_or (lease_expires_at_unix_ms l)
       (contract_err ''LEASE_EXPIRY_REQUIRED'' ''v1 leases must have a finite expiry''))
       (\<lambda>current_expiry.
     bind_res (ensure (\<not> now_unix_ms \<ge> current_expiry)
       (contract_err ''LEASE_EXPIRED'' ''an expired lease cannot be renewed'')) (\<lambda>_.
     bind_res (ensure (fence_token = lease_fence_token l)
       (contract_err ''FENCE_MISMATCH'' ''lease renewal fence does not match current authority''))
       (\<lambda>_.
     bind_res (validate_timestamp ''lease renewal expiry'' expires_at_unix_ms) (\<lambda>_.
     bind_res (ensure (\<not> expires_at_unix_ms \<le> current_expiry)
       (contract_err ''LEASE_RENEWAL_INVALID''
          ''lease renewal must strictly extend the finite expiry'')) (\<lambda>_.
     Inr (l\<lparr>lease_expires_at_unix_ms := Some expires_at_unix_ms\<rparr>))))))))"

section \<open>operation.rs\<close>

datatype operation_state =
  OpCreated | OpPending | OpRunning | OpSucceeded | OpFailed | OpCancelling | OpCancelled | OpLost

fun OperationState_can_transition_to :: "operation_state \<Rightarrow> operation_state \<Rightarrow> bool" where
  "OperationState_can_transition_to self nxt =
     (self = nxt \<or>
      (case self of
         OpCreated \<Rightarrow> nxt \<in> {OpPending, OpRunning, OpCancelling, OpCancelled, OpFailed}
       | OpPending \<Rightarrow> nxt \<in> {OpRunning, OpCancelling, OpCancelled, OpFailed, OpLost}
       | OpRunning \<Rightarrow> nxt \<in> {OpSucceeded, OpFailed, OpCancelling, OpLost}
       | OpCancelling \<Rightarrow> nxt \<in> {OpCancelled, OpFailed, OpLost}
       | _ \<Rightarrow> False))"

record operation =
  op_identity :: identity
  op_owner :: identity
  op_executor :: identity
  op_kind :: string
  op_state :: operation_state
  op_deadline_unix_ms :: "u64 option"
  op_parent :: "identity option"
  op_metadata :: "(string, string) btree_map"

definition Operation_validate :: "operation \<Rightarrow> contract_error + unit" where
  "Operation_validate op =
     first_err
       [Identity_validate (op_identity op),
        Identity_validate (op_owner op),
        Identity_validate (op_executor op),
        validate_namespaced_id ''operation kind'' (op_kind op),
        (case op_deadline_unix_ms op of
           None \<Rightarrow> Inr ()
         | Some deadline \<Rightarrow> validate_timestamp ''operation deadline'' deadline),
        (case op_parent op of
           None \<Rightarrow> Inr ()
         | Some parent \<Rightarrow>
             first_err
               [Identity_validate parent,
                ensure (parent \<noteq> op_identity op)
                  (contract_err ''OPERATION_PARENT_INVALID'' ''operation cannot be its own parent'')]),
        validate_properties (op_metadata op)]"

section \<open>worker.rs\<close>

datatype worker_state =
  WkRegistered | WkStarting | WkRunning | WkDraining | WkStopped | WkFailed | WkLost

fun WorkerState_can_transition_to :: "worker_state \<Rightarrow> worker_state \<Rightarrow> bool" where
  "WorkerState_can_transition_to self nxt =
     (self = nxt \<or>
      (case self of
         WkRegistered \<Rightarrow> nxt \<in> {WkStarting, WkDraining, WkStopped, WkFailed, WkLost}
       | WkStarting \<Rightarrow> nxt \<in> {WkRunning, WkDraining, WkStopped, WkFailed, WkLost}
       | WkRunning \<Rightarrow> nxt \<in> {WkDraining, WkStopped, WkFailed, WkLost}
       | WkDraining \<Rightarrow> nxt \<in> {WkStopped, WkFailed, WkLost}
       | _ \<Rightarrow> False))"

record worker =
  wk_identity :: identity
  wk_principal :: identity
  wk_provider :: identity
  wk_lease :: identity
  wk_state :: worker_state
  wk_execution_ref :: string
  wk_limits :: "(string, quantity) btree_map"

definition Worker_validate :: "worker \<Rightarrow> contract_error + unit" where
  "Worker_validate w =
     first_err
       [Identity_validate (wk_identity w),
        Identity_validate (wk_principal w),
        Identity_validate (wk_provider w),
        Identity_validate (wk_lease w),
        validate_text ''worker execution reference'' (wk_execution_ref w) MAX_EXECUTION_REF_BYTES,
        ensure (length (wk_limits w) \<le> MAX_PROPERTIES)
          (contract_err ''WORKER_LIMIT_COUNT_EXCEEDED''
             ''worker has too many generic execution limits''),
        validate_quantities ''worker limit key'' (wk_limits w)]"

section \<open>endpoint.rs\<close>

record endpoint =
  ep_identity :: identity
  ep_provider :: identity
  ep_owner :: identity
  ep_transport :: string
  ep_schema_id :: string
  ep_capabilities :: "capability list"
  ep_public_attributes :: "(string, string) btree_map"
  ep_connection_ref :: string
  ep_credential_ref :: "string option"

definition Endpoint_validate :: "endpoint \<Rightarrow> contract_error + unit" where
  "Endpoint_validate e =
     first_err
       [Identity_validate (ep_identity e),
        Identity_validate (ep_provider e),
        Identity_validate (ep_owner e),
        validate_namespaced_id ''endpoint transport'' (ep_transport e),
        validate_namespaced_id ''endpoint schema id'' (ep_schema_id e),
        validate_capabilities (ep_capabilities e),
        validate_properties (ep_public_attributes e),
        validate_text ''endpoint connection reference'' (ep_connection_ref e)
          MAX_CONNECTION_REF_BYTES,
        (case ep_credential_ref e of
           None \<Rightarrow> Inr ()
         | Some credential_ref \<Rightarrow>
             validate_namespaced_id ''endpoint credential reference'' credential_ref)]"

record endpoint_grant =
  grant_identity :: identity
  grant_endpoint :: identity
  grant_grantee :: identity
  grant_lease :: identity
  grant_fence_token :: u64
  grant_expires_at_unix_ms :: u64

definition EndpointGrant_validate :: "endpoint_grant \<Rightarrow> contract_error + unit" where
  "EndpointGrant_validate g =
     first_err
       [Identity_validate (grant_identity g),
        Identity_validate (grant_endpoint g),
        Identity_validate (grant_grantee g),
        Identity_validate (grant_lease g),
        ensure (grant_fence_token g \<noteq> 0)
          (contract_err ''FENCE_TOKEN_INVALID'' ''endpoint grant fence token must be non-zero''),
        validate_timestamp ''endpoint grant expiry'' (grant_expires_at_unix_ms g)]"

definition EndpointGrant_authorizes ::
    "endpoint_grant \<Rightarrow> identity \<Rightarrow> identity \<Rightarrow> lease \<Rightarrow> u64 \<Rightarrow> bool" where
  "EndpointGrant_authorizes g endpoint grantee l now_unix_ms \<longleftrightarrow>
     is_ok (EndpointGrant_validate g) \<and> is_ok (Lease_validate l) \<and>
     grant_endpoint g = endpoint \<and> grant_grantee g = grantee \<and>
     grant_lease g = lease_identity l \<and> grant_grantee g = lease_holder l \<and>
     grant_fence_token g = lease_fence_token l \<and> lease_state l = LeaseActive \<and>
     (case lease_expires_at_unix_ms l of None \<Rightarrow> False | Some e \<Rightarrow> now_unix_ms < e) \<and>
     now_unix_ms < grant_expires_at_unix_ms g"

section \<open>event.rs\<close>

type_synonym u8 = "8 word"

record event =
  ev_sequence :: u64
  ev_source :: identity
  ev_subject :: identity
  ev_kind :: string
  ev_observed_at_unix_ms :: u64
  ev_schema_id :: string
  ev_body :: "u8 list"

definition Event_validate :: "event \<Rightarrow> contract_error + unit" where
  "Event_validate e =
     first_err
       [ensure (ev_sequence e \<noteq> 0)
          (contract_err ''EVENT_SEQUENCE_INVALID'' ''event sequence must be non-zero''),
        Identity_validate (ev_source e),
        Identity_validate (ev_subject e),
        validate_namespaced_id ''event kind'' (ev_kind e),
        validate_timestamp ''event observed time'' (ev_observed_at_unix_ms e),
        validate_namespaced_id ''event schema id'' (ev_schema_id e),
        ensure (length (ev_body e) \<le> MAX_EVENT_BODY_BYTES)
          (contract_err ''EVENT_BODY_LIMIT_EXCEEDED''
             ''event body exceeds the semantic contract limit'')]"

datatype replay_status = ReplayCurrent | ReplayGap | ReplaySourceChanged

record event_cursor =
  cur_source :: identity
  cur_sequence :: u64

definition EventCursor_validate :: "event_cursor \<Rightarrow> contract_error + unit" where
  "EventCursor_validate c = Identity_validate (cur_source c)"

definition EventCursor_status_against :: "event_cursor \<Rightarrow> identity \<Rightarrow> u64 \<Rightarrow> replay_status" where
  "EventCursor_status_against c current_source oldest_available_sequence =
     (if cur_source c \<noteq> current_source then ReplaySourceChanged
      else if oldest_available_sequence > 0 \<and>
              saturating_add (cur_sequence c) 1 < oldest_available_sequence then ReplayGap
      else ReplayCurrent)"

record event_page =
  pg_source :: identity
  pg_status :: replay_status
  pg_events :: "event list"
  pg_oldest_available_sequence :: u64
  pg_latest_available_sequence :: u64
  pg_next_sequence :: u64

record event_continuity =
  cont_source :: identity
  cont_status :: replay_status
  cont_oldest_available_sequence :: u64
  cont_latest_available_sequence :: u64
  cont_next_sequence :: u64

definition EventContinuity_validate :: "event_continuity \<Rightarrow> contract_error + unit" where
  "EventContinuity_validate c =
     first_err
       [Identity_validate (cont_source c),
        ensure (\<not> cont_oldest_available_sequence c > cont_latest_available_sequence c)
          (contract_err ''EVENT_RANGE_INVALID'' ''event continuity range is inverted''),
        ensure ((cont_oldest_available_sequence c = 0) = (cont_latest_available_sequence c = 0))
          (contract_err ''EVENT_RANGE_INVALID''
             ''event continuity range must be wholly empty or wholly non-zero'')]"

definition EventPage_continuity :: "event_page \<Rightarrow> event_continuity" where
  "EventPage_continuity p =
     \<lparr>cont_source = pg_source p, cont_status = pg_status p,
      cont_oldest_available_sequence = pg_oldest_available_sequence p,
      cont_latest_available_sequence = pg_latest_available_sequence p,
      cont_next_sequence = pg_next_sequence p\<rparr>"

text \<open>The loop over the page's events; the result is the last sequence seen.\<close>

fun EventPage_scan :: "event_page \<Rightarrow> u64 option \<Rightarrow> event list \<Rightarrow> contract_error + u64 option" where
  "EventPage_scan p previous [] = Inr previous"
| "EventPage_scan p previous (e # es) =
     bind_res (Event_validate e) (\<lambda>_.
       if ev_source e \<noteq> pg_source p
          \<or> (case previous of None \<Rightarrow> False | Some s \<Rightarrow> ev_sequence e \<le> s)
          \<or> ev_sequence e < pg_oldest_available_sequence p
          \<or> ev_sequence e > pg_latest_available_sequence p
       then Inl (contract_err ''EVENT_ORDER_INVALID''
              ''event page sources must match and sequences must strictly increase'')
       else EventPage_scan p (Some (ev_sequence e)) es)"

definition EventPage_validate :: "event_page \<Rightarrow> contract_error + unit" where
  "EventPage_validate p =
     first_err
       [Identity_validate (pg_source p),
        ensure (length (pg_events p) \<le> MAX_EVENTS_PER_PAGE)
          (contract_err ''EVENT_PAGE_LIMIT_EXCEEDED''
             ''event page exceeds the semantic contract limit''),
        ensure (\<not> pg_oldest_available_sequence p > pg_latest_available_sequence p)
          (contract_err ''EVENT_RANGE_INVALID'' ''event replay range is inverted''),
        ensure ((pg_oldest_available_sequence p = 0) = (pg_latest_available_sequence p = 0))
          (contract_err ''EVENT_RANGE_INVALID''
             ''event replay range must be wholly empty or wholly non-zero''),
        ensure (pg_status p = ReplayCurrent \<or> pg_events p = [])
          (contract_err ''EVENT_RECONCILE_REQUIRED''
             ''gap and source-change pages cannot contain incremental events''),
        bind_res (EventPage_scan p None (pg_events p)) (\<lambda>previous.
          case previous of
            None \<Rightarrow> Inr ()
          | Some last_seq \<Rightarrow>
              ensure (pg_next_sequence p = last_seq)
                (contract_err ''EVENT_CURSOR_INVALID''
                   ''event page cursor must equal the last returned sequence''))]"

section \<open>snapshot.rs\<close>

record provider_snapshot =
  snap_provider :: identity
  snap_snapshot_generation :: u64
  snap_resources :: "resource list"
  snap_workers :: "worker list"
  snap_endpoints :: "endpoint list"
  snap_sampled_at_unix_ms :: u64
  snap_expires_at_unix_ms :: u64

definition ProviderSnapshot_validate :: "provider_snapshot \<Rightarrow> contract_error + unit" where
  "ProviderSnapshot_validate s =
     first_err
       [Identity_validate (snap_provider s),
        ensure (snap_snapshot_generation s \<noteq> 0)
          (contract_err ''SNAPSHOT_GENERATION_INVALID''
             ''provider snapshot generation must be non-zero''),
        ensure (\<not> snap_expires_at_unix_ms s \<le> snap_sampled_at_unix_ms s)
          (contract_err ''SNAPSHOT_EXPIRY_INVALID''
             ''provider snapshot expiry must be after sampling time''),
        validate_timestamp ''provider snapshot sample time'' (snap_sampled_at_unix_ms s),
        validate_timestamp ''provider snapshot expiry'' (snap_expires_at_unix_ms s),
        ensure (length (snap_resources s) \<le> MAX_RESOURCES_PER_SNAPSHOT)
          (contract_err ''RESOURCE_LIMIT_EXCEEDED'' ''provider snapshot has too many resources''),
        each_unique
          (\<lambda>r. first_err
             [Resource_validate r,
              ensure (res_provider r = snap_provider s)
                (contract_err ''RESOURCE_PROVIDER_MISMATCH''
                   ''resource provider does not match snapshot provider'')])
          (\<lambda>r. ident_id (res_identity r))
          (contract_err ''RESOURCE_IDENTITY_DUPLICATE''
             ''provider snapshot contains a duplicate resource identity'')
          [] (snap_resources s),
        ensure (length (snap_workers s) \<le> MAX_WORKERS_PER_SNAPSHOT)
          (contract_err ''WORKER_LIMIT_EXCEEDED'' ''provider snapshot has too many workers''),
        each_unique
          (\<lambda>w. first_err
             [Worker_validate w,
              ensure (wk_provider w = snap_provider s)
                (contract_err ''WORKER_PROVIDER_MISMATCH''
                   ''worker provider does not match snapshot provider'')])
          (\<lambda>w. ident_id (wk_identity w))
          (contract_err ''WORKER_IDENTITY_DUPLICATE''
             ''provider snapshot contains a duplicate worker identity'')
          [] (snap_workers s),
        ensure (length (snap_endpoints s) \<le> MAX_ENDPOINTS_PER_SNAPSHOT)
          (contract_err ''ENDPOINT_LIMIT_EXCEEDED'' ''provider snapshot has too many endpoints''),
        each_unique
          (\<lambda>e. first_err
             [Endpoint_validate e,
              ensure (ep_provider e = snap_provider s)
                (contract_err ''ENDPOINT_PROVIDER_MISMATCH''
                   ''endpoint provider does not match snapshot provider'')])
          (\<lambda>e. ident_id (ep_identity e))
          (contract_err ''ENDPOINT_IDENTITY_DUPLICATE''
             ''provider snapshot contains a duplicate endpoint identity'')
          [] (snap_endpoints s)]"

datatype semantic_action =
  Negotiate | RegisterProvider | PublishInventory | ReconcileProvider | AcquireLease | RenewLease
| ReleaseLease | StartWorker | ReportHeartbeat | StopWorker | CreateOperation | ReportOperation
| CancelOperation | PublishEndpoint | AuthorizeEndpoint | RevokeEndpoint | ReadEvents | WatchEvents

definition V1_ACTIONS :: "semantic_action list" where
  "V1_ACTIONS =
     [Negotiate, RegisterProvider, PublishInventory, ReconcileProvider, AcquireLease, RenewLease,
      ReleaseLease, StartWorker, ReportHeartbeat, StopWorker, CreateOperation, ReportOperation,
      CancelOperation, PublishEndpoint, AuthorizeEndpoint, RevokeEndpoint, ReadEvents, WatchEvents]"

section \<open>Ranks of the lifecycle enumerations\<close>

fun lease_rank :: "lease_state \<Rightarrow> nat" where
  "lease_rank LeaseActive = 0"
| "lease_rank LeaseReleasing = 1"
| "lease_rank _ = 2"

fun operation_rank :: "operation_state \<Rightarrow> nat" where
  "operation_rank OpCreated = 0"
| "operation_rank OpPending = 1"
| "operation_rank OpRunning = 2"
| "operation_rank OpCancelling = 3"
| "operation_rank _ = 4"

fun worker_rank :: "worker_state \<Rightarrow> nat" where
  "worker_rank WkRegistered = 0"
| "worker_rank WkStarting = 1"
| "worker_rank WkRunning = 2"
| "worker_rank WkDraining = 3"
| "worker_rank _ = 4"

interpretation lease_machine: forward_machine LeaseState_can_transition_to lease_rank
  by unfold_locales (auto split: lease_state.splits)

interpretation operation_machine: forward_machine OperationState_can_transition_to operation_rank
  by unfold_locales (auto split: operation_state.splits)

interpretation worker_machine: forward_machine WorkerState_can_transition_to worker_rank
  by unfold_locales (auto split: worker_state.splits)

lemma lease_rank_bound: "lease_rank s \<le> 2"
  by (cases s) auto

lemma operation_rank_bound: "operation_rank s \<le> 4"
  by (cases s) auto

lemma worker_rank_bound: "worker_rank s \<le> 4"
  by (cases s) auto

lemma LeaseState_terminal_iff:
  "(\<forall>t. LeaseState_can_transition_to s t \<longrightarrow> t = s) \<longleftrightarrow>
     s \<in> {LeaseReleased, LeaseExpired, LeaseRevoked, LeaseFailed}"
  by (cases s) auto

lemma OperationState_terminal_iff:
  "(\<forall>t. OperationState_can_transition_to s t \<longrightarrow> t = s) \<longleftrightarrow>
     s \<in> {OpSucceeded, OpFailed, OpCancelled, OpLost}"
  by (cases s) auto

lemma WorkerState_terminal_iff:
  "(\<forall>t. WorkerState_can_transition_to s t \<longrightarrow> t = s) \<longleftrightarrow> s \<in> {WkStopped, WkFailed, WkLost}"
  by (cases s) auto

section \<open>Characterisations\<close>

lemma Lease_validate_Inr:
  "Lease_validate l = Inr u \<longleftrightarrow>
     Identity_validate (lease_identity l) = Inr () \<and> Identity_validate (lease_holder l) = Inr () \<and>
     lease_resources l \<noteq> [] \<and> length (lease_resources l) \<le> MAX_RESOURCES_PER_LEASE \<and>
     (\<forall>r\<in>set (lease_resources l). Identity_validate r = Inr ()) \<and> distinct (lease_resources l) \<and>
     lease_fence_token l \<noteq> 0 \<and>
     (\<exists>e. lease_expires_at_unix_ms l = Some e \<and> 0 < e \<and> e \<le> MAX_TIMESTAMP_UNIX_MS)"
  by (auto simp: Lease_validate_def bind_res_Inr)

lemma Lease_renew_lease_Inr:
  "Lease_renew_lease l f e now = Inr l' \<longleftrightarrow>
     Lease_validate l = Inr () \<and> lease_state l = LeaseActive \<and> lease_fence_token l = f \<and>
     (\<exists>c. lease_expires_at_unix_ms l = Some c \<and> now < c \<and> c < e) \<and>
     e \<le> MAX_TIMESTAMP_UNIX_MS \<and> l' = l\<lparr>lease_expires_at_unix_ms := Some e\<rparr>"
  by (auto simp: Lease_renew_lease_def bind_res_Inr linorder_not_le intro: word_pos_of_less)

lemma Lease_validate_extend:
  "Lease_validate l = Inr () \<Longrightarrow> 0 < e \<Longrightarrow> e \<le> MAX_TIMESTAMP_UNIX_MS \<Longrightarrow>
     Lease_validate (l\<lparr>lease_expires_at_unix_ms := Some e\<rparr>) = Inr ()"
  by (simp add: Lease_validate_Inr)

lemma EventPage_scan_Inr:
  "EventPage_scan p prev es = Inr r \<longleftrightarrow>
     (\<forall>e\<in>set es. Event_validate e = Inr () \<and> ev_source e = pg_source p \<and>
        pg_oldest_available_sequence p \<le> ev_sequence e \<and>
        ev_sequence e \<le> pg_latest_available_sequence p) \<and>
     sorted_wrt (<) (map ev_sequence es) \<and>
     (case prev of None \<Rightarrow> True | Some s \<Rightarrow> \<forall>e\<in>set es. s < ev_sequence e) \<and>
     r = (if es = [] then prev else Some (ev_sequence (last es)))"
proof (induction es arbitrary: prev)
  case (Cons e es)
  show ?case
    by (auto simp: bind_res_Inr Cons.IH linorder_not_le linorder_not_less split: option.splits
        intro: order.strict_trans)
qed (auto split: option.splits)

lemma EventPage_validate_Inr:
  "EventPage_validate p = Inr u \<longleftrightarrow>
     Identity_validate (pg_source p) = Inr () \<and> length (pg_events p) \<le> MAX_EVENTS_PER_PAGE \<and>
     pg_oldest_available_sequence p \<le> pg_latest_available_sequence p \<and>
     (pg_oldest_available_sequence p = 0 \<longleftrightarrow> pg_latest_available_sequence p = 0) \<and>
     (pg_status p = ReplayCurrent \<or> pg_events p = []) \<and>
     (\<forall>e\<in>set (pg_events p). Event_validate e = Inr () \<and> ev_source e = pg_source p \<and>
        pg_oldest_available_sequence p \<le> ev_sequence e \<and>
        ev_sequence e \<le> pg_latest_available_sequence p) \<and>
     sorted_wrt (<) (map ev_sequence (pg_events p)) \<and>
     (pg_events p \<noteq> [] \<longrightarrow> pg_next_sequence p = ev_sequence (last (pg_events p)))"
  by (auto simp: EventPage_validate_def bind_res_Inr EventPage_scan_Inr linorder_not_less)

lemma ProviderSnapshot_validate_Inr:
  "ProviderSnapshot_validate s = Inr u \<longleftrightarrow>
     Identity_validate (snap_provider s) = Inr () \<and> snap_snapshot_generation s \<noteq> 0 \<and>
     0 < snap_sampled_at_unix_ms s \<and> snap_sampled_at_unix_ms s < snap_expires_at_unix_ms s \<and>
     snap_expires_at_unix_ms s \<le> MAX_TIMESTAMP_UNIX_MS \<and>
     length (snap_resources s) \<le> MAX_RESOURCES_PER_SNAPSHOT \<and>
     (\<forall>r\<in>set (snap_resources s). Resource_validate r = Inr () \<and> res_provider r = snap_provider s) \<and>
     distinct (map (\<lambda>r. ident_id (res_identity r)) (snap_resources s)) \<and>
     length (snap_workers s) \<le> MAX_WORKERS_PER_SNAPSHOT \<and>
     (\<forall>w\<in>set (snap_workers s). Worker_validate w = Inr () \<and> wk_provider w = snap_provider s) \<and>
     distinct (map (\<lambda>w. ident_id (wk_identity w)) (snap_workers s)) \<and>
     length (snap_endpoints s) \<le> MAX_ENDPOINTS_PER_SNAPSHOT \<and>
     (\<forall>e\<in>set (snap_endpoints s). Endpoint_validate e = Inr () \<and> ep_provider e = snap_provider s) \<and>
     distinct (map (\<lambda>e. ident_id (ep_identity e)) (snap_endpoints s))"
  by (simp add: ProviderSnapshot_validate_def linorder_not_le) (auto intro: order.strict_trans)

section \<open>Properties\<close>

text \<open>C37. The lease, operation and worker lifecycles only move forward: a state that can be
  reached and reached back is the same state, the states with no way out are exactly the
  documented terminal ones, and no history with real changes is longer than two transitions
  for a lease and four for an operation or a worker.\<close>

theorem lifecycles_forward_only:
  "(LeaseState_can_transition_to\<^sup>*\<^sup>* s t \<and> LeaseState_can_transition_to\<^sup>*\<^sup>* t s \<longrightarrow> s = t) \<and>
   (OperationState_can_transition_to\<^sup>*\<^sup>* os ot \<and> OperationState_can_transition_to\<^sup>*\<^sup>* ot os \<longrightarrow> os = ot) \<and>
   (WorkerState_can_transition_to\<^sup>*\<^sup>* ws wt \<and> WorkerState_can_transition_to\<^sup>*\<^sup>* wt ws \<longrightarrow> ws = wt) \<and>
   {s. \<forall>t. LeaseState_can_transition_to s t \<longrightarrow> t = s} =
     {LeaseReleased, LeaseExpired, LeaseRevoked, LeaseFailed} \<and>
   {s. \<forall>t. OperationState_can_transition_to s t \<longrightarrow> t = s} =
     {OpSucceeded, OpFailed, OpCancelled, OpLost} \<and>
   {s. \<forall>t. WorkerState_can_transition_to s t \<longrightarrow> t = s} = {WkStopped, WkFailed, WkLost} \<and>
   (successively (\<lambda>a b. LeaseState_can_transition_to a b \<and> a \<noteq> b) (s # run) \<longrightarrow> length run \<le> 2) \<and>
   (successively (\<lambda>a b. OperationState_can_transition_to a b \<and> a \<noteq> b) (os # orun) \<longrightarrow>
      length orun \<le> 4) \<and>
   (successively (\<lambda>a b. WorkerState_can_transition_to a b \<and> a \<noteq> b) (ws # wrun) \<longrightarrow>
      length wrun \<le> 4)"
  using lease_machine.reach_antisym operation_machine.reach_antisym worker_machine.reach_antisym
    lease_machine.strict_run_length [of s run] lease_rank_bound [of "last (s # run)"]
    operation_machine.strict_run_length [of os orun] operation_rank_bound [of "last (os # orun)"]
    worker_machine.strict_run_length [of ws wrun] worker_rank_bound [of "last (ws # wrun)"]
  unfolding LeaseState_terminal_iff OperationState_terminal_iff WorkerState_terminal_iff
  by (auto simp del: LeaseState_can_transition_to.simps OperationState_can_transition_to.simps
      WorkerState_can_transition_to.simps)

theorem lifecycles_forward_only_witness:
  "(successively (\<lambda>a b. LeaseState_can_transition_to a b \<and> a \<noteq> b) [LeaseActive, LeaseReleasing, LeaseReleased] \<and>
    length [LeaseReleasing, LeaseReleased] \<le> 2) \<and>
   (successively (\<lambda>a b. OperationState_can_transition_to a b \<and> a \<noteq> b)
      [OpCreated, OpPending, OpRunning, OpCancelling, OpCancelled] \<and>
    length [OpPending, OpRunning, OpCancelling, OpCancelled] \<le> 4) \<and>
   (successively (\<lambda>a b. WorkerState_can_transition_to a b \<and> a \<noteq> b)
      [WkRegistered, WkStarting, WkRunning, WkDraining, WkStopped] \<and>
    length [WkStarting, WkRunning, WkDraining, WkStopped] \<le> 4) \<and>
   LeaseState_can_transition_to\<^sup>*\<^sup>* LeaseActive LeaseReleased \<and>
   \<not> LeaseState_can_transition_to\<^sup>*\<^sup>* LeaseReleased LeaseActive \<and>
   OperationState_can_transition_to\<^sup>*\<^sup>* OpRunning OpCancelled \<and>
   \<not> OperationState_can_transition_to\<^sup>*\<^sup>* OpCancelled OpRunning \<and>
   WorkerState_can_transition_to\<^sup>*\<^sup>* WkRunning WkStopped \<and>
   \<not> WorkerState_can_transition_to\<^sup>*\<^sup>* WkStopped WkRunning"
proof -
  have runs: "successively (\<lambda>a b. LeaseState_can_transition_to a b \<and> a \<noteq> b) [LeaseActive, LeaseReleasing, LeaseReleased]"
    "successively (\<lambda>a b. OperationState_can_transition_to a b \<and> a \<noteq> b)
      [OpCreated, OpPending, OpRunning, OpCancelling, OpCancelled]"
    "successively (\<lambda>a b. WorkerState_can_transition_to a b \<and> a \<noteq> b)
      [WkRegistered, WkStarting, WkRunning, WkDraining, WkStopped]"
    by simp_all
  have l: "LeaseState_can_transition_to\<^sup>*\<^sup>* LeaseActive LeaseReleased"
    by (rule converse_rtranclp_into_rtranclp [of _ _ LeaseReleasing], simp, rule r_into_rtranclp, simp)
  have p: "OperationState_can_transition_to\<^sup>*\<^sup>* OpRunning OpCancelled"
    by (rule converse_rtranclp_into_rtranclp [of _ _ OpCancelling], simp, rule r_into_rtranclp, simp)
  have w: "WorkerState_can_transition_to\<^sup>*\<^sup>* WkRunning WkStopped"
    by (rule converse_rtranclp_into_rtranclp [of _ _ WkDraining], simp, rule r_into_rtranclp, simp)
  note forward = lifecycles_forward_only [of LeaseActive LeaseReleased OpRunning OpCancelled WkRunning WkStopped]
  note bound = lifecycles_forward_only [of LeaseActive LeaseActive OpCreated OpCreated WkRegistered WkRegistered
      "[LeaseReleasing, LeaseReleased]" "[OpPending, OpRunning, OpCancelling, OpCancelled]"
      "[WkStarting, WkRunning, WkDraining, WkStopped]"]
  have "\<not> LeaseState_can_transition_to\<^sup>*\<^sup>* LeaseReleased LeaseActive"
    "\<not> OperationState_can_transition_to\<^sup>*\<^sup>* OpCancelled OpRunning"
    "\<not> WorkerState_can_transition_to\<^sup>*\<^sup>* WkStopped WkRunning"
    using forward l p w by blast+
  moreover have "length [LeaseReleasing, LeaseReleased] \<le> 2"
    "length [OpPending, OpRunning, OpCancelling, OpCancelled] \<le> 4"
    "length [WkStarting, WkRunning, WkDraining, WkStopped] \<le> 4"
    using bound runs by blast+
  ultimately show ?thesis using runs l p w by blast
qed

text \<open>C35. Renewing a lease succeeds exactly for a valid, active, unexpired lease under its own
  fence token and a strictly later representable expiry; the renewed lease is valid, authorizes
  whatever the old one did, and authorizes its holder on its resources at every instant before
  the new expiry, under the unchanged fence token.\<close>

theorem renew_lease_extends_authority:
  "((\<exists>l'. Lease_renew_lease l f e now = Inr l') \<longleftrightarrow>
      Lease_validate l = Inr () \<and> lease_state l = LeaseActive \<and> lease_fence_token l = f \<and>
      (\<exists>c. lease_expires_at_unix_ms l = Some c \<and> now < c \<and> c < e) \<and> e \<le> MAX_TIMESTAMP_UNIX_MS) \<and>
   (Lease_renew_lease l f e now = Inr l' \<longrightarrow>
      Lease_validate l' = Inr () \<and> lease_expires_at_unix_ms l' = Some e \<and>
      (Lease_authorizes l h r g t \<longrightarrow> Lease_authorizes l' h r g t) \<and>
      (Lease_authorizes l' h r g t \<longleftrightarrow>
         h = lease_holder l \<and> r \<in> set (lease_resources l) \<and> g = f \<and> t < e))"
  by (auto simp: Lease_renew_lease_Inr Lease_authorizes_def is_ok_unit Lease_validate_extend
      word_pos_of_less intro: order.strict_trans split: option.splits)

theorem renew_lease_extends_authority_witness:
  "let l = \<lparr>lease_identity = Identity ''lease-1'' 1, lease_holder = Identity ''worker-1'' 1,
            lease_resources = [Identity ''gpu-0'' 1], lease_state = LeaseActive,
            lease_fence_token = 9, lease_expires_at_unix_ms = Some 100\<rparr>
   in Lease_renew_lease l 9 200 50 = Inr (l\<lparr>lease_expires_at_unix_ms := Some 200\<rparr>) \<and>
      Lease_authorizes (l\<lparr>lease_expires_at_unix_ms := Some 200\<rparr>) (Identity ''worker-1'' 1)
        (Identity ''gpu-0'' 1) 9 150"
proof -
  let ?l = "\<lparr>lease_identity = Identity ''lease-1'' 1, lease_holder = Identity ''worker-1'' 1,
            lease_resources = [Identity ''gpu-0'' 1], lease_state = LeaseActive,
            lease_fence_token = 9, lease_expires_at_unix_ms = Some 100\<rparr>"
  have r: "Lease_renew_lease ?l 9 200 50 = Inr (?l\<lparr>lease_expires_at_unix_ms := Some 200\<rparr>)"
    by (simp add: Lease_renew_lease_Inr Lease_validate_Inr Identity_validate_Inr contract_limits
        byte_def)
  show ?thesis
    using renew_lease_extends_authority
        [of ?l 9 200 50 _ "Identity ''worker-1'' 1" "Identity ''gpu-0'' 1" 9 150] r
    by (simp add: Let_def)
qed

text \<open>A page of events passes validation exactly when its range is coherent and its events
  are valid, of the page's own source, strictly increasing inside the advertised range, present
  only if the cursor is current, and the next cursor is the last sequence returned.\<close>

theorem EventPage_validate_exact:
  "EventPage_validate p = Inr () \<longleftrightarrow>
     EventContinuity_validate (EventPage_continuity p) = Inr () \<and>
     length (pg_events p) \<le> MAX_EVENTS_PER_PAGE \<and>
     (pg_events p \<noteq> [] \<longrightarrow> pg_status p = ReplayCurrent \<and>
        pg_next_sequence p = ev_sequence (last (pg_events p))) \<and>
     (\<forall>e\<in>set (pg_events p). Event_validate e = Inr () \<and> ev_source e = pg_source p \<and>
        ev_sequence e \<in> {pg_oldest_available_sequence p..pg_latest_available_sequence p}) \<and>
     sorted_wrt (<) (map ev_sequence (pg_events p))"
  by (auto simp: EventPage_validate_Inr EventContinuity_validate_def EventPage_continuity_def
      linorder_not_less)

theorem EventPage_validate_exact_witness:
  "let s = Identity ''kernel'' 1;
       e = (\<lambda>n. \<lparr>ev_sequence = n, ev_source = s, ev_subject = Identity ''w'' 1, ev_kind = ''worker.lost'',
                ev_observed_at_unix_ms = 5, ev_schema_id = ''cyrene.event'', ev_body = []\<rparr>)
   in EventPage_validate \<lparr>pg_source = s, pg_status = ReplayCurrent, pg_events = [e 3, e 4],
        pg_oldest_available_sequence = 2, pg_latest_available_sequence = 9,
        pg_next_sequence = 4\<rparr> = Inr ()"
  unfolding Let_def EventPage_validate_exact
  by (simp add: EventContinuity_validate_def EventPage_continuity_def Event_validate_def
      Identity_validate_Inr validate_namespaced_id_grammar namespaced_grammar_def ns_segment_def
      ns_rest_def is_separator_def is_ascii_lowercase_def contract_limits byte_def)

text \<open>A provider snapshot that passes validation speaks for one provider only and names
  every object once: all its resources, workers and endpoints are valid and belong to the
  snapshot's provider, and no two objects of a kind share an id, even at different
  generations.\<close>

theorem ProviderSnapshot_validate_sound:
  assumes "ProviderSnapshot_validate s = Inr ()"
  shows "(\<forall>r\<in>set (snap_resources s).
      Resource_validate r = Inr () \<and> res_provider r = snap_provider s) \<and>
    (\<forall>w\<in>set (snap_workers s). Worker_validate w = Inr () \<and> wk_provider w = snap_provider s) \<and>
    (\<forall>e\<in>set (snap_endpoints s). Endpoint_validate e = Inr () \<and> ep_provider e = snap_provider s) \<and>
    inj_on (\<lambda>r. ident_id (res_identity r)) (set (snap_resources s)) \<and>
    inj_on (\<lambda>w. ident_id (wk_identity w)) (set (snap_workers s)) \<and>
    inj_on (\<lambda>e. ident_id (ep_identity e)) (set (snap_endpoints s)) \<and>
    distinct (snap_resources s) \<and> distinct (snap_workers s) \<and> distinct (snap_endpoints s)"
  using assms by (simp_all add: ProviderSnapshot_validate_Inr distinct_map)

theorem ProviderSnapshot_validate_sound_witness:
  "let pr = Identity ''prov'' 1;
       r = \<lparr>res_identity = Identity ''gpu-0'' 1, res_provider = pr, res_class = ''gpu'',
            res_capabilities = [], res_capacity = [], res_attributes = [], res_state = ResourceReady,
            res_reason_code = ''ready'', res_summary = ''ok'', res_links = []\<rparr>;
       s = \<lparr>snap_provider = pr, snap_snapshot_generation = 1, snap_resources = [r], snap_workers = [],
            snap_endpoints = [], snap_sampled_at_unix_ms = 1, snap_expires_at_unix_ms = 2\<rparr>
   in ProviderSnapshot_validate s = Inr () \<and> res_provider r = snap_provider s"
proof -
  let ?pr = "Identity ''prov'' 1"
  let ?r = "\<lparr>res_identity = Identity ''gpu-0'' 1, res_provider = ?pr, res_class = ''gpu'',
            res_capabilities = [], res_capacity = [], res_attributes = [], res_state = ResourceReady,
            res_reason_code = ''ready'', res_summary = ''ok'', res_links = []\<rparr>"
  let ?s = "\<lparr>snap_provider = ?pr, snap_snapshot_generation = 1, snap_resources = [?r], snap_workers = [],
            snap_endpoints = [], snap_sampled_at_unix_ms = 1, snap_expires_at_unix_ms = 2\<rparr>"
  have v: "ProviderSnapshot_validate ?s = Inr ()"
    by (simp add: ProviderSnapshot_validate_Inr Resource_validate_def validate_capabilities_def
        validate_quantities_def validate_properties_def
        Identity_validate_Inr validate_namespaced_id_grammar namespaced_grammar_def ns_segment_def
        ns_rest_def is_separator_def is_ascii_lowercase_def contract_limits byte_def)
  show ?thesis
    using ProviderSnapshot_validate_sound [OF v] v by (simp add: Let_def)
qed

end
