(* ===== verification/Contract_Adapter.thy ===== *)
theory Contract_Adapter
  imports Contract_Model
begin

text \<open>
  The adapter port of the contract crate (\<open>adapter.rs\<close>): provider errors, inventory snapshots,
  and the device bindings whose environments are merged when a lease spans several resources.
  The merge loop is proved to fail closed: an exclusive variable keeps the one value every
  binding gave it, a joinable one lists exactly the union of the values, and nothing an adapter
  required is lost.
\<close>

section \<open>adapter.rs: facts\<close>

record provider_error =
  pe_adapter_id :: string
  pe_reason_code :: string
  pe_message :: string

definition provider_err :: "string \<Rightarrow> string \<Rightarrow> string \<Rightarrow> provider_error" where
  "provider_err adapter code msg =
     \<lparr>pe_adapter_id = adapter, pe_reason_code = code, pe_message = msg\<rparr>"

datatype enforcement_mode = Hard | Soft | VisibilityOnly | ObserveOnly | Unenforced

record capability_fact =
  fact_name :: string
  fact_available :: bool
  fact_required :: bool
  fact_detail :: string

record enforcement_report =
  er_resource_kind :: string
  er_mode :: enforcement_mode
  er_adapter_id :: string
  er_reason_code :: string

record node_capabilities =
  nc_ready :: bool
  nc_facts :: "capability_fact list"
  nc_enforcement :: "enforcement_report list"

record inventory_snapshot =
  inv_generation :: u64
  inv_resources :: "resource list"
  inv_capabilities :: node_capabilities

section \<open>adapter.rs: device bindings\<close>

text \<open>
  \<open>PathBuf\<close> equality compares components: repeated separators, trailing separators and
  \<open>.\<close> components other than a leading one are ignored.
\<close>

definition path_components :: "string \<Rightarrow> bool \<times> string list" where
  "path_components p =
     (let root = (case p of [] \<Rightarrow> False | c # _ \<Rightarrow> c = CHR ''/'');
          parts = split_on (CHR ''/'') p
      in (root, (if \<not> root \<and> hd parts = ''.'' then [''.''] else []) @
                filter (\<lambda>x. x \<noteq> [] \<and> x \<noteq> ''.'') parts))"

definition path_eq :: "string \<Rightarrow> string \<Rightarrow> bool" where
  "path_eq p q \<longleftrightarrow> path_components p = path_components q"

record device_node =
  node_path :: string
  node_major :: "u32 option"
  node_minor :: "u32 option"
  node_required :: bool

record device_binding =
  db_resource_id :: string
  db_nodes :: "device_node list"
  db_environment :: "(string, string) btree_map"
  db_joinable_environment_keys :: "string btree_set"
  db_required_gids :: "u32 list"
  db_enforcement :: enforcement_mode
  db_adapter_id :: string
  db_reason_code :: string

definition bm_extend :: "('k::linorder, 'v) btree_map \<Rightarrow> ('k, 'v) btree_map \<Rightarrow> ('k, 'v) btree_map" where
  "bm_extend m es = fold (\<lambda>e. bm_insert (fst e) (snd e)) es m"

definition merge_environment ::
    "device_binding \<Rightarrow> (string, string) btree_map \<Rightarrow> provider_error + (string, string) btree_map" where
  "merge_environment b requested =
     (if list_ex (\<lambda>key. bm_contains (db_environment b) key) (map fst requested)
      then Inl (provider_err (db_adapter_id b) ''RESERVED_ENVIRONMENT''
             ''plugin attempted to override an Adapter-owned device variable'')
      else Inr (bm_extend requested (db_environment b)))"

definition split_csv :: "string \<Rightarrow> string list" where
  "split_csv val = filter (\<lambda>part. part \<noteq> []) (map trim (split_on (CHR '','') val))"

definition ordered_unique :: "string list \<Rightarrow> string list" where
  "ordered_unique values = fold push_unique values []"

definition join_unique_csv :: "string option \<Rightarrow> string \<Rightarrow> string" where
  "join_unique_csv existing incoming =
     join_with '',''
       (fold push_unique (split_csv incoming)
          (case existing of None \<Rightarrow> [] | Some v \<Rightarrow> split_csv v))"

text \<open>The local variables of the merge loop.\<close>

record merge_state =
  ms_nodes :: "device_node list"
  ms_environment :: "(string, string) btree_map"
  ms_joinable :: "string btree_set"
  ms_required_gids :: "u32 list"
  ms_adapter_ids :: "string list"
  ms_resource_ids :: "string list"

definition merge_env_entry ::
    "string btree_set \<Rightarrow> (string, string) btree_map \<times> string btree_set \<Rightarrow> string \<times> string \<Rightarrow>
     provider_error + ((string, string) btree_map \<times> string btree_set)" where
  "merge_env_entry this_keys st entry =
     (let (environment, joinable) = st;
          (key, val) = entry;
          this_joinable = key \<in> set this_keys;
          already_joinable = key \<in> set joinable
      in if bm_contains environment key \<and> this_joinable \<noteq> already_joinable
         then Inl (provider_err ''kernel-daemon'' ''MIXED_ENVIRONMENT_MERGE'' key)
         else if this_joinable \<or> already_joinable
         then Inr (bm_insert key (join_unique_csv (map_of environment key) val) environment,
                   bs_insert key joinable)
         else (case map_of environment key of
                 Some existing \<Rightarrow>
                   if existing \<noteq> val
                   then Inl (provider_err ''kernel-daemon'' ''CONFLICTING_RESOURCE_ENVIRONMENT'' key)
                   else Inr (environment, joinable)
               | None \<Rightarrow> Inr (bm_insert key val environment, joinable)))"

definition merge_node :: "device_node \<Rightarrow> device_node list \<Rightarrow> device_node list" where
  "merge_node node nodes =
     (if list_ex (\<lambda>existing. path_eq (node_path existing) (node_path node)) nodes
      then nodes else nodes @ [node])"

definition merge_binding ::
    "enforcement_mode \<Rightarrow> merge_state \<Rightarrow> device_binding \<Rightarrow> provider_error + merge_state" where
  "merge_binding enforcement st b =
     (if db_enforcement b \<noteq> enforcement
      then Inl (provider_err ''kernel-daemon'' ''MIXED_RESOURCE_ENFORCEMENT''
             ''a multi-resource binding must use one enforcement mode'')
      else bind_res
        (fold_res (merge_env_entry (db_joinable_environment_keys b))
           (ms_environment st, ms_joinable st) (db_environment b))
        (\<lambda>(environment, joinable).
           Inr \<lparr>ms_nodes = fold merge_node (db_nodes b) (ms_nodes st),
                ms_environment = environment,
                ms_joinable = fold bs_insert (db_joinable_environment_keys b) joinable,
                ms_required_gids = fold push_unique (db_required_gids b) (ms_required_gids st),
                ms_adapter_ids = push_unique (db_adapter_id b) (ms_adapter_ids st),
                ms_resource_ids =
                  fold push_unique (split_csv (db_resource_id b)) (ms_resource_ids st)\<rparr>))"

definition merge_start :: "device_binding \<Rightarrow> merge_state" where
  "merge_start first =
     \<lparr>ms_nodes = db_nodes first, ms_environment = db_environment first,
      ms_joinable = db_joinable_environment_keys first,
      ms_required_gids = db_required_gids first, ms_adapter_ids = [db_adapter_id first],
      ms_resource_ids = ordered_unique (split_csv (db_resource_id first))\<rparr>"

definition merge_all :: "device_binding list \<Rightarrow> provider_error + device_binding" where
  "merge_all bindings =
     (case bindings of
        [] \<Rightarrow>
          Inr \<lparr>db_resource_id = ''none'', db_nodes = [], db_environment = [],
               db_joinable_environment_keys = [], db_required_gids = [],
               db_enforcement = Unenforced, db_adapter_id = ''kernel-daemon'',
               db_reason_code = ''NO_RESOURCE_BINDING''\<rparr>
      | first # rest \<Rightarrow>
          bind_res (fold_res (merge_binding (db_enforcement first)) (merge_start first) rest)
            (\<lambda>st. Inr
               \<lparr>db_resource_id = join_with '','' (ms_resource_ids st),
                db_nodes = ms_nodes st, db_environment = ms_environment st,
                db_joinable_environment_keys = ms_joinable st,
                db_required_gids = ms_required_gids st,
                db_enforcement = db_enforcement first,
                db_adapter_id = join_with '','' (sort (ms_adapter_ids st)),
                db_reason_code = ''RESOURCE_BINDING_CREATED_BY_UDS_ADAPTERS''\<rparr>))"

section \<open>Comma-separated values\<close>

lemma split_csv_parts:
  "p \<in> set (split_csv v) \<Longrightarrow> p \<noteq> [] \<and> trim p = p \<and> CHR '','' \<notin> set p"
  using set_trim split_on_parts by (fastforce simp: split_csv_def)

lemma split_csv_join:
  assumes "\<forall>x\<in>set xs. x \<noteq> [] \<and> trim x = x \<and> CHR '','' \<notin> set x"
  shows "split_csv (join_with '','' xs) = xs"
proof (cases "xs = []")
  case True
  have "trim [] = []" using set_trim [of "[]"] by simp
  then show ?thesis using True by (simp add: split_csv_def)
next
  case False
  then have "split_on (CHR '','') (join_with '','' xs) = xs"
    using assms by (simp add: split_on_join)
  moreover have "map trim xs = xs" "filter (\<lambda>p. p \<noteq> []) xs = xs"
    using assms by (auto intro: map_idI simp: filter_id_conv)
  ultimately show ?thesis by (simp add: split_csv_def)
qed

lemma split_csv_join_unique:
  "set (split_csv (join_unique_csv old v)) =
     (case old of None \<Rightarrow> {} | Some u \<Rightarrow> set (split_csv u)) \<union> set (split_csv v)"
proof -
  let ?xs = "fold push_unique (split_csv v) (case old of None \<Rightarrow> [] | Some u \<Rightarrow> split_csv u)"
  have "split_csv (join_with '','' ?xs) = ?xs"
    by (rule split_csv_join) (auto dest: split_csv_parts split: option.splits)
  then show ?thesis by (auto simp: join_unique_csv_def split: option.splits)
qed

lemma set_ordered_unique [simp]: "set (ordered_unique xs) = set xs"
  by (simp add: ordered_unique_def)

lemma set_fold_bs_insert [simp]: "set (fold bs_insert ks s) = set s \<union> set ks"
  by (induction ks arbitrary: s) auto

section \<open>The merge loop\<close>

text \<open>
  What the environment under construction owes to the entries contributed so far: it has a
  value for exactly the contributed keys, the value of a key outside \<open>J\<close> is the value of each
  of its contributions, and every value lists exactly the items of its contributions.
\<close>

definition env_agrees :: "string set \<Rightarrow> (string \<times> string) set \<Rightarrow> (string, string) btree_map \<Rightarrow> bool" where
  "env_agrees J P env \<longleftrightarrow>
     (\<forall>k. (\<exists>u. map_of env k = Some u) \<longleftrightarrow> (\<exists>v. (k, v) \<in> P)) \<and>
     (\<forall>k v. (k, v) \<in> P \<longrightarrow> k \<notin> J \<longrightarrow> map_of env k = Some v) \<and>
     (\<forall>k u x. map_of env k = Some u \<longrightarrow>
        (x \<in> set (split_csv u) \<longleftrightarrow> (\<exists>v. (k, v) \<in> P \<and> x \<in> set (split_csv v))))"

lemma env_agreesD:
  assumes "env_agrees J P env"
  shows "(\<exists>u. map_of env k = Some u) \<longleftrightarrow> (\<exists>v. (k, v) \<in> P)"
    and "(k, v) \<in> P \<Longrightarrow> k \<notin> J \<Longrightarrow> map_of env k = Some v"
    and "map_of env k = Some u \<Longrightarrow>
      x \<in> set (split_csv u) \<longleftrightarrow> (\<exists>v. (k, v) \<in> P \<and> x \<in> set (split_csv v))"
  using assms unfolding env_agrees_def by blast+

lemma env_agrees_mono: "env_agrees J P env \<Longrightarrow> J \<subseteq> J' \<Longrightarrow> env_agrees J' P env"
  unfolding env_agrees_def by blast

lemma env_agrees_start: "bm_ok env \<Longrightarrow> env_agrees J (set env) env"
  by (auto simp: env_agrees_def map_of_in_set)

lemma env_agrees_insert:
  assumes A: "env_agrees J P env" and "k \<in> J \<or> map_of env k = None \<and> w = v"
    and "set (split_csv w) =
      (case map_of env k of None \<Rightarrow> {} | Some u \<Rightarrow> set (split_csv u)) \<union> set (split_csv v)"
  shows "env_agrees J (insert (k, v) P) (bm_insert k w env)"
proof -
  have new: "x \<in> set (split_csv w) \<longleftrightarrow>
      (\<exists>v'. (k, v') \<in> insert (k, v) P \<and> x \<in> set (split_csv v'))" for x
    using assms(3) env_agreesD(1) [OF A, of k] env_agreesD(3) [OF A, of k _ x]
    by (cases "map_of env k") auto
  show ?thesis
    unfolding env_agrees_def
  proof (intro conjI allI impI)
    fix k' show "(\<exists>u. map_of (bm_insert k w env) k' = Some u) \<longleftrightarrow> (\<exists>v'. (k', v') \<in> insert (k, v) P)"
      using env_agreesD(1) [OF A, of k'] by auto
  next
    fix k' v' assume "(k', v') \<in> insert (k, v) P" "k' \<notin> J"
    then show "map_of (bm_insert k w env) k' = Some v'"
      using assms(2) env_agreesD(2) [OF A, of k' v'] by auto
  next
    fix k' u x assume "map_of (bm_insert k w env) k' = Some u"
    then show "x \<in> set (split_csv u) \<longleftrightarrow>
        (\<exists>v'. (k', v') \<in> insert (k, v) P \<and> x \<in> set (split_csv v'))"
      using new [of x] env_agreesD(3) [OF A, of k' u x] by (cases "k' = k") simp_all
  qed
qed

lemma env_agrees_same:
  assumes A: "env_agrees J P env" and "map_of env k = Some v"
  shows "env_agrees J (insert (k, v) P) env"
  unfolding env_agrees_def
proof (intro conjI allI impI)
  fix k' show "(\<exists>u. map_of env k' = Some u) \<longleftrightarrow> (\<exists>v'. (k', v') \<in> insert (k, v) P)"
    using env_agreesD(1) [OF A, of k'] assms(2) by auto
next
  fix k' v' assume "(k', v') \<in> insert (k, v) P" "k' \<notin> J"
  then show "map_of env k' = Some v'"
    using assms(2) env_agreesD(2) [OF A, of k' v'] by auto
next
  fix k' u x assume "map_of env k' = Some u"
  then show "x \<in> set (split_csv u) \<longleftrightarrow>
      (\<exists>v'. (k', v') \<in> insert (k, v) P \<and> x \<in> set (split_csv v'))"
    using assms(2) env_agreesD(3) [OF A, of k' u x] by auto
qed

lemma merge_env_entry_agrees:
  assumes "env_agrees J P env" and "set jo \<union> set T = J"
    and "merge_env_entry T (env, jo) (k, v) = Inr (env', jo')"
  shows "env_agrees J (insert (k, v) P) env' \<and> set jo' \<union> set T = J"
proof (cases "k \<in> J")
  case True
  then have "env' = bm_insert k (join_unique_csv (map_of env k) v) env" "jo' = bs_insert k jo"
    using assms(2,3) by (auto simp: merge_env_entry_def Let_def split: if_splits)
  then show ?thesis
    using assms(1,2) True env_agrees_insert [OF assms(1), of k _ v] split_csv_join_unique
    by auto
next
  case False
  then have "jo' = jo"
    "env' = bm_insert k v env \<and> map_of env k = None \<or> env' = env \<and> map_of env k = Some v"
    using assms(2,3) by (auto simp: merge_env_entry_def Let_def split: if_splits option.splits)
  then show ?thesis
    using assms(1,2) env_agrees_insert [OF assms(1), of k v v] env_agrees_same [OF assms(1), of k v]
    by auto
qed

lemma merge_env_fold_agrees:
  assumes "fold_res (merge_env_entry T) (env, jo) es = Inr (env', jo')"
    and "env_agrees J P env" and "set jo \<union> set T = J"
  shows "env_agrees J (P \<union> set es) env' \<and> set jo' \<union> set T = J"
proof -
  let ?I = "\<lambda>ys st. env_agrees J (P \<union> set ys) (fst st) \<and> set (snd st) \<union> set T = J"
  have "?I ([] @ es) (env', jo')"
  proof (rule fold_res_invariant [OF assms(1), where I = ?I])
    show "?I [] (env, jo)" using assms(2,3) by simp
    fix ys y st st' assume "?I ys st" "merge_env_entry T st y = Inr st'"
    then show "?I (ys @ [y]) st'"
      using merge_env_entry_agrees [of J "P \<union> set ys" "fst st" "snd st" T "fst y" "snd y"
          "fst st'" "snd st'"] by simp
  qed
  then show ?thesis by simp
qed

lemma path_eq_refl [simp]: "path_eq p p"
  by (simp add: path_eq_def)

lemma merge_nodes:
  "set (fold merge_node ns acc) \<subseteq> set acc \<union> set ns \<and> set acc \<subseteq> set (fold merge_node ns acc) \<and>
   (\<forall>n\<in>set ns. \<exists>m\<in>set (fold merge_node ns acc). path_eq (node_path m) (node_path n))"
proof (induction ns arbitrary: acc)
  case (Cons n ns)
  have step: "set (merge_node n acc) \<subseteq> insert n (set acc)" "set acc \<subseteq> set (merge_node n acc)"
    "\<exists>m\<in>set (merge_node n acc). path_eq (node_path m) (node_path n)"
    by (auto simp: merge_node_def list_ex_iff)
  have "\<exists>m\<in>set (fold merge_node ns (merge_node n acc)). path_eq (node_path m) (node_path n)"
    using Cons.IH [of "merge_node n acc"] step(3) by blast
  then show ?case
    using Cons.IH [of "merge_node n acc"] step(1,2) by (simp add: subset_iff) blast
qed simp

text \<open>What the loop state owes to the bindings merged so far.\<close>

definition merge_inv :: "enforcement_mode \<Rightarrow> device_binding list \<Rightarrow> merge_state \<Rightarrow> bool" where
  "merge_inv mode bs st \<longleftrightarrow>
     (\<forall>b\<in>set bs. db_enforcement b = mode) \<and>
     set (ms_joinable st) = (\<Union>b\<in>set bs. set (db_joinable_environment_keys b)) \<and>
     env_agrees (set (ms_joinable st)) (\<Union>b\<in>set bs. set (db_environment b)) (ms_environment st) \<and>
     set (ms_required_gids st) = (\<Union>b\<in>set bs. set (db_required_gids b)) \<and>
     set (ms_resource_ids st) = (\<Union>b\<in>set bs. set (split_csv (db_resource_id b))) \<and>
     set (ms_nodes st) \<subseteq> (\<Union>b\<in>set bs. set (db_nodes b)) \<and>
     (\<forall>b\<in>set bs. \<forall>n\<in>set (db_nodes b). \<exists>m\<in>set (ms_nodes st). path_eq (node_path m) (node_path n))"

lemma merge_inv_start:
  "bm_ok (db_environment b) \<Longrightarrow> merge_inv (db_enforcement b) [b] (merge_start b)"
  by (auto simp: merge_inv_def merge_start_def env_agrees_start intro: path_eq_refl)

lemma merge_binding_Inr:
  assumes "merge_binding mode st b = Inr st'"
  obtains env jo where "db_enforcement b = mode"
    and "fold_res (merge_env_entry (db_joinable_environment_keys b))
           (ms_environment st, ms_joinable st) (db_environment b) = Inr (env, jo)"
    and "ms_nodes st' = fold merge_node (db_nodes b) (ms_nodes st)"
    and "ms_environment st' = env"
    and "ms_joinable st' = fold bs_insert (db_joinable_environment_keys b) jo"
    and "ms_required_gids st' = fold push_unique (db_required_gids b) (ms_required_gids st)"
    and "ms_resource_ids st' = fold push_unique (split_csv (db_resource_id b)) (ms_resource_ids st)"
proof (cases "fold_res (merge_env_entry (db_joinable_environment_keys b))
    (ms_environment st, ms_joinable st) (db_environment b)")
  case (Inl e)
  then show thesis using assms by (simp add: merge_binding_def split: if_splits)
next
  case (Inr r)
  then show thesis
    using assms that [of "fst r" "snd r"]
    by (simp add: merge_binding_def case_prod_beta split: if_splits) (metis merge_state.select_convs)
qed

lemma merge_inv_step:
  assumes "merge_inv mode bs st" and "merge_binding mode st b = Inr st'"
  shows "merge_inv mode (bs @ [b]) st'"
proof -
  let ?J = "set (ms_joinable st) \<union> set (db_joinable_environment_keys b)"
  let ?P = "\<lambda>bs. \<Union>b\<in>set bs. set (db_environment b)"
  obtain env jo where mode: "db_enforcement b = mode"
    and f: "fold_res (merge_env_entry (db_joinable_environment_keys b))
          (ms_environment st, ms_joinable st) (db_environment b) = Inr (env, jo)"
    and st': "ms_nodes st' = fold merge_node (db_nodes b) (ms_nodes st)"
      "ms_environment st' = env"
      "ms_joinable st' = fold bs_insert (db_joinable_environment_keys b) jo"
      "ms_required_gids st' = fold push_unique (db_required_gids b) (ms_required_gids st)"
      "ms_resource_ids st' = fold push_unique (split_csv (db_resource_id b)) (ms_resource_ids st)"
    using assms(2) by (rule merge_binding_Inr)
  note inv = assms(1) [unfolded merge_inv_def]
  have "env_agrees ?J (?P bs) (ms_environment st)"
    using inv env_agrees_mono by (metis Un_upper1)
  from merge_env_fold_agrees [OF f this refl]
  have e: "env_agrees ?J (?P bs \<union> set (db_environment b)) env"
    and j: "set jo \<union> set (db_joinable_environment_keys b) = ?J" by blast+
  have un: "(\<Union>x\<in>set (bs @ [b]). g x) = (\<Union>x\<in>set bs. g x) \<union> g b" for g :: "device_binding \<Rightarrow> 'z set"
    by auto
  have J: "set (ms_joinable st') = ?J" unfolding st' set_fold_bs_insert by (rule j)
  note n = merge_nodes [of "db_nodes b" "ms_nodes st", folded st'(1)]
  have kept: "set (ms_nodes st) \<subseteq> (\<Union>b\<in>set bs. set (db_nodes b))"
    "\<forall>b\<in>set bs. \<forall>n\<in>set (db_nodes b). \<exists>m\<in>set (ms_nodes st). path_eq (node_path m) (node_path n)"
    using inv by simp_all
  show ?thesis
    unfolding merge_inv_def un J
  proof (intro conjI)
    show "\<forall>b'\<in>set (bs @ [b]). db_enforcement b' = mode" using inv mode by simp
    show "?J = (\<Union>b\<in>set bs. set (db_joinable_environment_keys b)) \<union>
        set (db_joinable_environment_keys b)"
      using inv by simp
    show "env_agrees ?J (?P bs \<union> set (db_environment b)) (ms_environment st')"
      unfolding st'(2) by (rule e)
    show "set (ms_required_gids st') = (\<Union>b\<in>set bs. set (db_required_gids b)) \<union> set (db_required_gids b)"
      unfolding st'(4) set_fold_push_unique using inv by simp
    show "set (ms_resource_ids st') =
        (\<Union>b\<in>set bs. set (split_csv (db_resource_id b))) \<union> set (split_csv (db_resource_id b))"
      unfolding st'(5) set_fold_push_unique using inv by simp
    show "set (ms_nodes st') \<subseteq> (\<Union>b\<in>set bs. set (db_nodes b)) \<union> set (db_nodes b)"
      using kept(1) n by fast
    show "\<forall>b\<in>set (bs @ [b]). \<forall>n\<in>set (db_nodes b).
        \<exists>m\<in>set (ms_nodes st'). path_eq (node_path m) (node_path n)"
      using kept(2) n by (simp only: set_append list.set ball_Un ball_simps) blast
  qed
qed

lemma merge_all_inv:
  assumes "merge_all (b # bs) = Inr m" and "bm_ok (db_environment b)"
  obtains st where "merge_inv (db_enforcement b) (b # bs) st"
    and "db_enforcement m = db_enforcement b" and "db_environment m = ms_environment st"
    and "db_joinable_environment_keys m = ms_joinable st"
    and "db_required_gids m = ms_required_gids st" and "db_nodes m = ms_nodes st"
    and "db_resource_id m = join_with '','' (ms_resource_ids st)"
proof -
  obtain st where st: "fold_res (merge_binding (db_enforcement b)) (merge_start b) bs = Inr st"
    and m: "db_enforcement m = db_enforcement b" "db_environment m = ms_environment st"
      "db_joinable_environment_keys m = ms_joinable st"
      "db_required_gids m = ms_required_gids st" "db_nodes m = ms_nodes st"
      "db_resource_id m = join_with '','' (ms_resource_ids st)"
    using assms(1) by (auto simp: merge_all_def bind_res_Inr)
  have "merge_inv (db_enforcement b) ([b] @ bs) st"
    using fold_res_invariant [OF st, where I = "merge_inv (db_enforcement b)" and ds = "[b]"]
      merge_inv_start [OF assms(2)] merge_inv_step by blast
  then show thesis using that m by simp
qed

section \<open>Properties\<close>

text \<open>Merging the bindings of a multi-resource lease fails closed. When it succeeds, all
  bindings had one enforcement mode and it is kept; the merged environment defines exactly the
  variables some binding defined; a variable no binding declared joinable has the one value every
  binding gave it; a joinable variable lists exactly the union of the listed values; the required
  group ids and the resource ids are the unions; every device node some binding required is
  present under an equal path, and no node is invented.\<close>

theorem merge_all_fails_closed:
  assumes "merge_all bs = Inr m" and "bs \<noteq> []" and "\<forall>b\<in>set bs. bm_ok (db_environment b)"
  shows "(\<forall>b\<in>set bs. db_enforcement b = db_enforcement m) \<and>
    (\<forall>k. bm_contains (db_environment m) k \<longleftrightarrow> (\<exists>b\<in>set bs. bm_contains (db_environment b) k)) \<and>
    (\<forall>b\<in>set bs. \<forall>(k, v)\<in>set (db_environment b).
       (\<forall>b'\<in>set bs. k \<notin> set (db_joinable_environment_keys b')) \<longrightarrow>
       map_of (db_environment m) k = Some v) \<and>
    (\<forall>k u. map_of (db_environment m) k = Some u \<longrightarrow>
       set (split_csv u) =
         {x. \<exists>b\<in>set bs. \<exists>v. (k, v) \<in> set (db_environment b) \<and> x \<in> set (split_csv v)}) \<and>
    set (db_required_gids m) = (\<Union>b\<in>set bs. set (db_required_gids b)) \<and>
    set (split_csv (db_resource_id m)) = (\<Union>b\<in>set bs. set (split_csv (db_resource_id b))) \<and>
    (\<forall>b\<in>set bs. \<forall>n\<in>set (db_nodes b). \<exists>n'\<in>set (db_nodes m). path_eq (node_path n') (node_path n)) \<and>
    set (db_nodes m) \<subseteq> (\<Union>b\<in>set bs. set (db_nodes b))"
proof -
  obtain b rest where bs: "bs = b # rest" using assms(2) by (cases bs) auto
  obtain st where I: "merge_inv (db_enforcement b) bs st"
    and m: "db_enforcement m = db_enforcement b" "db_environment m = ms_environment st"
      "db_joinable_environment_keys m = ms_joinable st"
      "db_required_gids m = ms_required_gids st" "db_nodes m = ms_nodes st"
      "db_resource_id m = join_with '','' (ms_resource_ids st)"
    using merge_all_inv assms unfolding bs by (metis list.set_intros(1))
  have e: "env_agrees (\<Union>b\<in>set bs. set (db_joinable_environment_keys b))
      (\<Union>b\<in>set bs. set (db_environment b)) (ms_environment st)"
    using I unfolding merge_inv_def by metis
  have ids: "split_csv (db_resource_id m) = ms_resource_ids st"
    unfolding m(6) using I by (intro split_csv_join) (auto simp: merge_inv_def dest: split_csv_parts)
  have dom: "bm_contains (db_environment m) k \<longleftrightarrow> (\<exists>b\<in>set bs. bm_contains (db_environment b) k)" for k
  proof -
    have "bm_contains (db_environment m) k \<longleftrightarrow> (\<exists>u. map_of (ms_environment st) k = Some u)"
      by (simp add: bm_contains_def m(2))
    also have "\<dots> \<longleftrightarrow> (\<exists>v. (k, v) \<in> (\<Union>b\<in>set bs. set (db_environment b)))"
      by (rule env_agreesD(1) [OF e])
    also have "\<dots> \<longleftrightarrow> (\<exists>b\<in>set bs. bm_contains (db_environment b) k)"
      by (auto simp: bm_contains_iff image_iff) (metis fst_conv, blast)
    finally show ?thesis .
  qed
  have exclusive: "map_of (db_environment m) k = Some v"
    if "b' \<in> set bs" "(k, v) \<in> set (db_environment b')"
      "\<forall>b'\<in>set bs. k \<notin> set (db_joinable_environment_keys b')" for b' k v
    using env_agreesD(2) [OF e, of k v] that unfolding m(2) by blast
  have joined: "set (split_csv u) =
      {x. \<exists>b\<in>set bs. \<exists>v. (k, v) \<in> set (db_environment b) \<and> x \<in> set (split_csv v)}"
    if "map_of (db_environment m) k = Some u" for k u
    using env_agreesD(3) [OF e, of k u] that unfolding m(2) by blast
  note inv = I [unfolded merge_inv_def]
  note facts = inv [THEN conjunct2, THEN conjunct2, THEN conjunct2]
  have allv: "\<forall>b\<in>set bs. \<forall>(k, v)\<in>set (db_environment b).
      (\<forall>b'\<in>set bs. k \<notin> set (db_joinable_environment_keys b')) \<longrightarrow>
      map_of (db_environment m) k = Some v"
    using exclusive by (intro ballI) auto
  show ?thesis
    unfolding m(1,4,5) ids
    by (intro conjI inv [THEN conjunct1] allI dom allv impI joined facts [THEN conjunct1]
        facts [THEN conjunct2, THEN conjunct1]
        facts [THEN conjunct2, THEN conjunct2, THEN conjunct1]
        facts [THEN conjunct2, THEN conjunct2, THEN conjunct2])
qed

lemma split_csv_example: "split_csv ''GPU-A'' = [''GPU-A'']" "split_csv ''GPU-C'' = [''GPU-C'']"
  by (simp_all add: split_csv_def trim_def trim_start_def trim_end_def white_space_def
      strip_front.simps)

theorem merge_all_fails_closed_witness:
  "let b = (\<lambda>r. \<lparr>db_resource_id = r, db_nodes = [], db_environment = [(''VISIBLE'', r)],
              db_joinable_environment_keys = [''VISIBLE''], db_required_gids = [44],
              db_enforcement = Hard, db_adapter_id = ''nvidia'', db_reason_code = ''TEST''\<rparr>)
   in \<exists>m. merge_all [b ''GPU-A'', b ''GPU-C''] = Inr m \<and>
          map_of (db_environment m) ''VISIBLE'' = Some ''GPU-A,GPU-C'' \<and>
          set (split_csv (db_resource_id m)) = {''GPU-A'', ''GPU-C''}"
proof -
  let ?b = "\<lambda>r. \<lparr>db_resource_id = r, db_nodes = [], db_environment = [(''VISIBLE'', r)],
              db_joinable_environment_keys = [''VISIBLE''], db_required_gids = [44],
              db_enforcement = Hard, db_adapter_id = ''nvidia'', db_reason_code = ''TEST''\<rparr>"
  let ?bs = "[?b ''GPU-A'', ?b ''GPU-C'']"
  have "case merge_all ?bs of Inl e \<Rightarrow> False
      | Inr m \<Rightarrow> map_of (db_environment m) ''VISIBLE'' = Some ''GPU-A,GPU-C''"
    by (simp add: merge_all_def merge_start_def merge_binding_def merge_env_entry_def Let_def
        bm_contains_def join_unique_csv_def push_unique_def split_csv_example)
  then obtain m where m: "merge_all ?bs = Inr m"
    and v: "map_of (db_environment m) ''VISIBLE'' = Some ''GPU-A,GPU-C''"
    by (cases "merge_all ?bs") simp_all
  have ok: "\<forall>b\<in>set ?bs. bm_ok (db_environment b)" by (simp add: bm_ok_def)
  have "set (split_csv (db_resource_id m)) = (\<Union>b\<in>set ?bs. set (split_csv (db_resource_id b)))"
    using merge_all_fails_closed [OF m list.discI [OF refl] ok] by (elim conjE)
  also have "\<dots> = {''GPU-A'', ''GPU-C''}"
    by (simp add: split_csv_example insert_commute)
  finally show ?thesis using m v unfolding Let_def by blast
qed

text \<open>A worker's requested environment is merged with an adapter's exactly when the two
  define no common variable; then every requested and every adapter-owned variable has its own
  value and nothing else is defined. Otherwise the request is refused and no environment is
  produced.\<close>

theorem merge_environment_reserved:
  assumes "bm_ok requested" and "bm_ok (db_environment b)"
  shows "(if dom (map_of requested) \<inter> dom (map_of (db_environment b)) = {}
    then \<exists>env. merge_environment b requested = Inr env \<and> bm_ok env \<and>
           map_of env = map_of requested ++ map_of (db_environment b) \<and>
           map_of env = map_of (db_environment b) ++ map_of requested
    else \<exists>e. merge_environment b requested = Inl e \<and> pe_reason_code e = ''RESERVED_ENVIRONMENT'')"
proof (cases "dom (map_of requested) \<inter> dom (map_of (db_environment b)) = {}")
  case True
  then have "\<not> list_ex (\<lambda>key. bm_contains (db_environment b) key) (map fst requested)"
    unfolding list_ex_iff bm_contains_iff dom_map_of_conv_image_fst by force
  then have "merge_environment b requested = Inr (bm_extend requested (db_environment b))"
    by (simp add: merge_environment_def)
  moreover have "map_of (bm_extend requested (db_environment b)) =
      map_of requested ++ map_of (db_environment b)"
    unfolding bm_extend_def btree.get_puts [OF assms(1)]
      map_of_rev_distinct [OF bm_ok_distinct [OF assms(2)]] ..
  moreover have "bm_ok (bm_extend requested (db_environment b))"
    unfolding bm_extend_def by (rule btree.invar_puts [OF assms(1)])
  ultimately show ?thesis
    using True map_add_comm [OF True] by metis
next
  case False
  then have "list_ex (\<lambda>key. bm_contains (db_environment b) key) (map fst requested)"
    unfolding list_ex_iff bm_contains_iff dom_map_of_conv_image_fst by force
  then have "merge_environment b requested =
      Inl (provider_err (db_adapter_id b) ''RESERVED_ENVIRONMENT''
             ''plugin attempted to override an Adapter-owned device variable'')"
    by (simp add: merge_environment_def)
  then show ?thesis
    using False by (simp add: provider_err_def)
qed

theorem merge_environment_reserved_witness:
  "let b = \<lparr>db_resource_id = ''r'', db_nodes = [], db_environment = [(''VISIBLE'', ''0'')],
            db_joinable_environment_keys = [], db_required_gids = [], db_enforcement = Hard,
            db_adapter_id = ''nvidia'', db_reason_code = ''TEST''\<rparr>
   in \<exists>e. merge_environment b [(''VISIBLE'', ''1'')] = Inl e \<and>
          pe_reason_code e = ''RESERVED_ENVIRONMENT''"
proof -
  let ?b = "\<lparr>db_resource_id = ''r'', db_nodes = [], db_environment = [(''VISIBLE'', ''0'')],
            db_joinable_environment_keys = [], db_required_gids = [], db_enforcement = Hard,
            db_adapter_id = ''nvidia'', db_reason_code = ''TEST''\<rparr>"
  have "bm_ok [(''VISIBLE'', ''1'')]" "bm_ok (db_environment ?b)" by (simp_all add: bm_ok_def)
  from merge_environment_reserved [OF this] show ?thesis by (simp add: Let_def)
qed

end
