(* ===== verification/Kernel_Api.thy ===== *)
theory Kernel_Api
  imports Contract_Adapter
begin

text \<open>
  The implementation-facing vocabulary of the kernel (\<open>kernel/crates/cy-kernel-api\<close>):
  namespaces, object references and call contexts (\<open>authority.rs\<close>), the ledger's lease and
  request types (\<open>lease.rs\<close>), journal records (\<open>journal.rs\<close>) and process evidence
  (\<open>runtime.rs\<close>).
\<close>

section \<open>authority.rs: namespaces and call contexts\<close>

datatype namespace_id = NamespaceId (ns_as_str: string)

definition DEFAULT_NAMESPACE :: string where
  "DEFAULT_NAMESPACE = ''default''"

definition NamespaceId_default :: namespace_id where
  "NamespaceId_default = NamespaceId DEFAULT_NAMESPACE"

definition NamespaceId_new :: "string \<Rightarrow> rejection + namespace_id" where
  "NamespaceId_new val =
     (if val = [] \<or> length val > 128 \<or>
         \<not> list_all (\<lambda>b. is_ascii_alphanumeric b \<or> b = CHR ''.'' \<or> b = CHR ''_'' \<or> b = CHR ''-'') val
      then Inl (rejection ''NAMESPACE_INVALID''
             ''namespace must contain 1..=128 ASCII alphanumeric, '.', '_' or '-' bytes'')
      else Inr (NamespaceId val))"

instantiation namespace_id :: linorder
begin

definition less_eq_namespace_id :: "namespace_id \<Rightarrow> namespace_id \<Rightarrow> bool" where
  "less_eq_namespace_id a b \<longleftrightarrow> ns_as_str a \<le> ns_as_str b"

definition less_namespace_id :: "namespace_id \<Rightarrow> namespace_id \<Rightarrow> bool" where
  "less_namespace_id a b \<longleftrightarrow> ns_as_str a < ns_as_str b"

instance
  by intro_classes
    (auto simp: less_eq_namespace_id_def less_namespace_id_def intro: namespace_id.expand)

end

datatype object_ref = ObjectRef (or_namespace: namespace_id) (or_identity: identity)

instantiation object_ref :: linorder
begin

definition less_eq_object_ref :: "object_ref \<Rightarrow> object_ref \<Rightarrow> bool" where
  "less_eq_object_ref a b \<longleftrightarrow> (or_namespace a, or_identity a) \<le> (or_namespace b, or_identity b)"

definition less_object_ref :: "object_ref \<Rightarrow> object_ref \<Rightarrow> bool" where
  "less_object_ref a b \<longleftrightarrow> (or_namespace a, or_identity a) < (or_namespace b, or_identity b)"

instance
  by intro_classes
    (auto simp: less_eq_object_ref_def less_object_ref_def less_le_not_le intro: object_ref.expand)

end

record authority_call_context =
  ctx_contract :: contract_revision
  ctx_namespace :: namespace_id
  ctx_request_id :: string
  ctx_idempotency_key :: string

definition AuthorityCallContext_validate_for ::
    "authority_call_context \<Rightarrow> contract_revision \<Rightarrow> rejection + unit" where
  "AuthorityCallContext_validate_for ctx local_rev =
     first_err
       [ensure (negotiate local_rev (ctx_contract ctx) = Some (ctx_contract ctx))
          (rejection ''CONTRACT_INCOMPATIBLE''
             ''authority call did not use a revision selected by this Kernel''),
        ensure (\<not> (ctx_request_id ctx = [] \<and> ctx_idempotency_key ctx = []))
          (rejection ''REQUEST_ID_REQUIRED''
             ''authority call requires request_id or idempotency_key''),
        bind_res (NamespaceId_new (ns_as_str (ctx_namespace ctx))) (\<lambda>_. Inr ())]"

definition AuthorityCallContext_object_ref :: "authority_call_context \<Rightarrow> identity \<Rightarrow> object_ref" where
  "AuthorityCallContext_object_ref ctx i = ObjectRef (ctx_namespace ctx) i"

definition effective_idempotency_key :: "authority_call_context \<Rightarrow> string" where
  "effective_idempotency_key ctx =
     (if ctx_idempotency_key ctx = [] then ctx_request_id ctx else ctx_idempotency_key ctx)"

datatype provider_reconcile_action =
  Noop
| RefreshResource identity
| MarkWorkerLost identity
| RevokeLease identity
| TerminateStaleWorker identity
| RestartWorker identity
| MarkOperationLost identity
| RevokeEndpointAction identity

record provider_reconcile_result =
  prr_provider :: identity
  prr_snapshot_generation :: u64
  prr_actions :: "provider_reconcile_action list"

record authority_snapshot =
  asn_source :: identity
  asn_cursor :: event_cursor
  asn_providers :: "provider list"
  asn_workers :: "worker list"
  asn_leases :: "lease list"
  asn_operations :: "operation list"
  asn_endpoints :: "endpoint list"
  asn_endpoint_grants :: "endpoint_grant list"

section \<open>lease.rs: the resource ledger's types\<close>

record cgroup_limits =
  cl_cpu_max_millicores :: "u32 option"
  cl_memory_max_bytes :: "u64 option"
  cl_cpuset_cpus :: "string option"

datatype ledger_state =
  LActive | LReleasing | LReleased | LExpired | LRevoked | LFailed | LQuarantined

record resource_request =
  rr_lease_name :: string
  rr_expected_inventory_generation :: u64
  rr_holder :: identity
  rr_query :: resource_query
  rr_expires_at_unix_ms :: "u64 option"
  rr_limits :: cgroup_limits

record resource_allocation =
  alloc_allocation_id :: string
  alloc_resource :: identity
  alloc_granted_capacity :: "(string, quantity) btree_map"
  alloc_enforcement :: enforcement_mode

record resource_lease =
  rl_name :: string
  rl_generation :: u64
  rl_state :: ledger_state
  rl_holder :: identity
  rl_allocations :: "resource_allocation list"
  rl_inventory_generation :: u64
  rl_fence_token :: u64
  rl_expires_at_unix_ms :: "u64 option"
  rl_limits :: cgroup_limits

section \<open>runtime.rs: process evidence\<close>

record process_handle =
  ph_pid :: u32
  ph_cgroup_path :: string
  ph_start_time_ticks :: "u64 option"
  ph_transport_socket :: "string option"

record runtime_process_evidence =
  rpe_cgroup_name :: string
  rpe_pid :: u32
  rpe_start_time_ticks :: u64

text \<open>\<open>Path::file_name\<close>: the last component, unless it is a root, \<open>.\<close> or \<open>..\<close>.\<close>

definition path_file_name :: "string \<Rightarrow> string option" where
  "path_file_name p =
     (case rev (snd (path_components p)) of
        [] \<Rightarrow> None
      | c # _ \<Rightarrow> if c = ''.'' \<or> c = ''..'' then None else Some c)"

definition recovery_evidence :: "process_handle \<Rightarrow> provider_error + runtime_process_evidence" where
  "recovery_evidence h =
     bind_res
       (ok_or (case path_file_name (ph_cgroup_path h) of
                 None \<Rightarrow> None
               | Some n \<Rightarrow> if n \<noteq> [] then Some n else None)
          (provider_err ''process-runtime'' ''RECOVERY_EVIDENCE_INVALID''
             ''process cgroup path has no safe final component''))
       (\<lambda>cgroup_name.
     bind_res
       (ok_or (ph_start_time_ticks h)
          (provider_err ''process-runtime'' ''RECOVERY_EVIDENCE_UNAVAILABLE''
             ''process start time is required to defend against PID reuse''))
       (\<lambda>ticks.
     if ph_pid h = 0
     then Inl (provider_err ''process-runtime'' ''RECOVERY_EVIDENCE_INVALID''
            ''process PID must be non-zero'')
     else Inr \<lparr>rpe_cgroup_name = cgroup_name, rpe_pid = ph_pid h, rpe_start_time_ticks = ticks\<rparr>))"

record process_condition =
  pc_reason_code :: string
  pc_summary :: string

record cleanup_report =
  cr_complete :: bool
  cr_exit_code :: "int option"
  cr_oom_killed :: bool
  cr_conditions :: "process_condition list"
  cr_reason_code :: string

section \<open>journal.rs\<close>

datatype runtime_journal_event =
  KernelStarted | LeaseAcquired | LeaseReleaseStarted | JLeaseReleased | JLeaseRevoked
| FenceAdvanced | InstanceLaunching | InstanceLaunched | InstanceTerminated
| InstanceCleanupFailed | WatchdogReaped | WorkerLost | OperationLost | EndpointRevoked

record runtime_journal_record =
  jr_event :: runtime_journal_event
  jr_node_id :: string
  jr_node_epoch :: u64
  jr_instance_name :: "string option"
  jr_lease_name :: "string option"
  jr_fence_token :: "u64 option"
  jr_reason_code :: string
  jr_runtime_evidence :: "runtime_process_evidence option"

record durable_event_record =
  de_namespace :: string
  de_event :: event

section \<open>The contract's view of a ledger lease\<close>

fun semantic_lease_state :: "ledger_state \<Rightarrow> lease_state" where
  "semantic_lease_state LActive = LeaseActive"
| "semantic_lease_state LReleasing = LeaseReleasing"
| "semantic_lease_state LReleased = LeaseReleased"
| "semantic_lease_state LExpired = LeaseExpired"
| "semantic_lease_state LRevoked = LeaseRevoked"
| "semantic_lease_state LFailed = LeaseFailed"
| "semantic_lease_state LQuarantined = LeaseFailed"

definition semantic_lease :: "object_ref \<Rightarrow> resource_lease \<Rightarrow> lease" where
  "semantic_lease obj l =
     \<lparr>lease_identity = or_identity obj, lease_holder = rl_holder l,
      lease_resources = map alloc_resource (rl_allocations l),
      lease_state = semantic_lease_state (rl_state l), lease_fence_token = rl_fence_token l,
      lease_expires_at_unix_ms = rl_expires_at_unix_ms l\<rparr>"

section \<open>Characterisations\<close>

lemma NamespaceId_new_Inr:
  "NamespaceId_new v = Inr n \<longleftrightarrow>
     n = NamespaceId v \<and> v \<noteq> [] \<and> length v \<le> 128 \<and>
     (\<forall>b\<in>set v. is_ascii_alphanumeric b \<or> b = CHR ''.'' \<or> b = CHR ''_'' \<or> b = CHR ''-'')"
  by (auto simp: NamespaceId_new_def list_all_iff)

lemma validate_for_Inr:
  "AuthorityCallContext_validate_for ctx r = Inr u \<longleftrightarrow>
     negotiate r (ctx_contract ctx) = Some (ctx_contract ctx) \<and>
     effective_idempotency_key ctx \<noteq> [] \<and>
     (\<exists>n. NamespaceId_new (ns_as_str (ctx_namespace ctx)) = Inr n)"
  by (auto simp: AuthorityCallContext_validate_for_def effective_idempotency_key_def bind_res_Inr)

end
