(* ===== verification/Runtime_Journal.thy ===== *)
theory Runtime_Journal
  imports Kernel_Api
begin

text \<open>
  The durable restart journal (\<open>runtime/cyrene-kernel/src/runtime_journal.rs\<close>): one JSON
  record per line, appended under a lock and re-read on startup. The file is its bytes, or
  nothing when it does not exist. JSON encoding belongs to another library and is a pair of
  parameters, \<open>print\<close> and \<open>parse\<close>; the operating system's answers to reads and writes and
  each reading of the clock are arguments. A write may stop after any prefix of its bytes.
\<close>

section \<open>Records\<close>

record runtime_process_record =
  rp_instance_name :: string
  rp_lease_name :: "string option"
  rp_fence_token :: "u64 option"
  rp_node_epoch :: u64
  rp_runtime_evidence :: "runtime_process_evidence option"

record recovery_state =
  rs_node_epoch :: u64
  rs_next_fence_token :: u64
  rs_runtime_processes :: "runtime_process_record list"

datatype recovery_classification = CValid | CStale | CUnknown | CForeign

record recovery_candidate =
  rc_classification :: recovery_classification
  rc_record :: "runtime_process_record option"
  rc_observed :: "runtime_process_evidence option"

record persisted_semantic_event =
  pse_namespace :: string
  pse_sequence :: u64
  pse_source_id :: string
  pse_source_generation :: u64
  pse_subject_id :: string
  pse_subject_generation :: u64
  pse_kind :: string
  pse_observed_at_unix_ms :: u64
  pse_schema_id :: string
  pse_body :: "u8 list"

record persisted_runtime_record =
  pr_observed_at_millis :: u64
  pr_event :: string
  pr_node_id :: string
  pr_node_epoch :: u64
  pr_instance_name :: "string option"
  pr_lease_name :: "string option"
  pr_fence_token :: "u64 option"
  pr_reason_code :: string
  pr_runtime_evidence :: "runtime_process_evidence option"
  pr_semantic_event :: "persisted_semantic_event option"

fun event_name :: "runtime_journal_event \<Rightarrow> string" where
  "event_name KernelStarted = ''KERNEL_STARTED''"
| "event_name LeaseAcquired = ''LEASE_ACQUIRED''"
| "event_name LeaseReleaseStarted = ''LEASE_RELEASE_STARTED''"
| "event_name JLeaseReleased = ''LEASE_RELEASED''"
| "event_name JLeaseRevoked = ''LEASE_REVOKED''"
| "event_name FenceAdvanced = ''FENCE_ADVANCED''"
| "event_name InstanceLaunching = ''INSTANCE_LAUNCHING''"
| "event_name InstanceLaunched = ''INSTANCE_LAUNCHED''"
| "event_name InstanceTerminated = ''INSTANCE_TERMINATED''"
| "event_name InstanceCleanupFailed = ''INSTANCE_CLEANUP_FAILED''"
| "event_name WatchdogReaped = ''WATCHDOG_REAPED''"
| "event_name WorkerLost = ''WORKER_LOST''"
| "event_name OperationLost = ''OPERATION_LOST''"
| "event_name EndpointRevoked = ''ENDPOINT_REVOKED''"

section \<open>The file\<close>

type_synonym journal_file = "string option"
type_synonym io_error = string

definition newline :: char where
  "newline = CHR 0x0A"

definition strip_cr :: "string \<Rightarrow> string" where
  "strip_cr line = (if line \<noteq> [] \<and> last line = CHR 0x0D then butlast line else line)"

text \<open>\<open>str::lines\<close>: a final piece without a newline is a line of its own unless it is empty.\<close>

definition str_lines :: "string \<Rightarrow> string list" where
  "str_lines s =
     (let parts = split_on newline s
      in map strip_cr (butlast parts) @ (if last parts = [] then [] else [last parts]))"

definition ends_with_newline :: "string \<Rightarrow> bool" where
  "ends_with_newline s \<longleftrightarrow> s \<noteq> [] \<and> last s = newline"

text \<open>
  \<open>read_to_string\<close> refuses bytes that are not well-formed UTF-8 (Unicode table 3-7), before
  any line is looked at.
\<close>

definition continuation :: "char \<Rightarrow> bool" where
  "continuation c \<longleftrightarrow> 0x80 \<le> byte c \<and> byte c \<le> 0xBF"

definition second_byte :: "char \<Rightarrow> char \<Rightarrow> bool" where
  "second_byte a b \<longleftrightarrow>
     (if byte a = 0xE0 then 0xA0 \<le> byte b \<and> byte b \<le> 0xBF
      else if byte a = 0xED then 0x80 \<le> byte b \<and> byte b \<le> 0x9F
      else if byte a = 0xF0 then 0x90 \<le> byte b \<and> byte b \<le> 0xBF
      else if byte a = 0xF4 then 0x80 \<le> byte b \<and> byte b \<le> 0x8F
      else continuation b)"

fun utf8_valid :: "string \<Rightarrow> bool" where
  "utf8_valid [] = True"
| "utf8_valid (a # s) =
     (if byte a < 0x80 then utf8_valid s
      else if 0xC2 \<le> byte a \<and> byte a \<le> 0xDF then
        (case s of b # s' \<Rightarrow> continuation b \<and> utf8_valid s' | _ \<Rightarrow> False)
      else if 0xE0 \<le> byte a \<and> byte a \<le> 0xEF then
        (case s of b # c # s' \<Rightarrow> second_byte a b \<and> continuation c \<and> utf8_valid s' | _ \<Rightarrow> False)
      else if 0xF0 \<le> byte a \<and> byte a \<le> 0xF4 then
        (case s of b # c # d # s' \<Rightarrow>
           second_byte a b \<and> continuation c \<and> continuation d \<and> utf8_valid s' | _ \<Rightarrow> False)
      else False)"

definition read_to_string :: "io_error option \<Rightarrow> string \<Rightarrow> io_error + string" where
  "read_to_string read_fault contents =
     (case read_fault of
        Some e \<Rightarrow> Inl e
      | None \<Rightarrow> if utf8_valid contents then Inr contents
                else Inl ''stream did not contain valid UTF-8'')"

text \<open>
  The loop over the lines of the journal: a line that does not parse ends the scan with an
  error, unless it is the last line and the file does not end in a newline.
\<close>

fun journal_scan ::
    "(string \<Rightarrow> string + persisted_runtime_record) \<Rightarrow> (string \<Rightarrow> 'e) \<Rightarrow>
     ('s \<Rightarrow> persisted_runtime_record \<Rightarrow> 'e + 's) \<Rightarrow> bool \<Rightarrow> 's \<Rightarrow> string list \<Rightarrow> 'e + 's" where
  "journal_scan parse corrupt step terminated st [] = Inr st"
| "journal_scan parse corrupt step terminated st (line # lines) =
     (case parse line of
        Inr r \<Rightarrow>
          (case step st r of
             Inl e \<Rightarrow> Inl e
           | Inr st' \<Rightarrow> journal_scan parse corrupt step terminated st' lines)
      | Inl e \<Rightarrow>
          if lines = [] \<and> \<not> terminated then Inr st
          else Inl (corrupt e))"

text \<open>What the operating system does with one append.\<close>

datatype write_outcome =
  Written
| OpenFails io_error
| WriteStops nat io_error

definition append_persisted ::
    "(persisted_runtime_record \<Rightarrow> string) \<Rightarrow> write_outcome \<Rightarrow> persisted_runtime_record \<Rightarrow>
     journal_file \<Rightarrow> (io_error + unit) \<times> journal_file" where
  "append_persisted print outcome r file =
     (let old = (case file of None \<Rightarrow> [] | Some s \<Rightarrow> s); new = print r @ [newline] in
      case outcome of
        Written \<Rightarrow> (Inr (), Some (old @ new))
      | OpenFails e \<Rightarrow> (Inl e, file)
      | WriteStops n e \<Rightarrow> (Inl e, Some (old @ take n new)))"

section \<open>Startup recovery\<close>

record recover_vars =
  rv_node_epoch :: u64
  rv_max_fence_token :: u64
  rv_runtime_processes :: "(string, runtime_process_record) btree_map"

definition launched_process :: "string \<Rightarrow> persisted_runtime_record \<Rightarrow> runtime_process_record" where
  "launched_process instance_name r =
     \<lparr>rp_instance_name = instance_name, rp_lease_name = pr_lease_name r,
      rp_fence_token = pr_fence_token r, rp_node_epoch = pr_node_epoch r,
      rp_runtime_evidence = pr_runtime_evidence r\<rparr>"

definition forget_process ::
    "string \<Rightarrow> persisted_runtime_record \<Rightarrow> (string, runtime_process_record) btree_map \<Rightarrow>
     (string, runtime_process_record) btree_map" where
  "forget_process instance_name r processes =
     (let rest = bm_remove instance_name processes in
      case (pr_lease_name r, pr_fence_token r) of
        (Some lease_name, Some fence_token) \<Rightarrow>
          bm_retain (\<lambda>_ p. rp_lease_name p \<noteq> Some lease_name \<or> rp_fence_token p \<noteq> Some fence_token) rest
      | _ \<Rightarrow> rest)"

definition recover_step :: "string \<Rightarrow> recover_vars \<Rightarrow> persisted_runtime_record \<Rightarrow> io_error + recover_vars" where
  "recover_step node_id v r =
     Inr (if pr_node_id r = node_id then
       \<lparr>rv_node_epoch = max (rv_node_epoch v) (pr_node_epoch r),
        rv_max_fence_token =
          max (rv_max_fence_token v) (case pr_fence_token r of None \<Rightarrow> 0 | Some f \<Rightarrow> f),
        rv_runtime_processes =
          (case pr_instance_name r of
             None \<Rightarrow> rv_runtime_processes v
           | Some instance_name \<Rightarrow>
               if pr_event r = ''INSTANCE_LAUNCHED''
               then bm_insert instance_name (launched_process instance_name r) (rv_runtime_processes v)
               else if pr_event r = ''INSTANCE_TERMINATED'' \<or> pr_event r = ''WATCHDOG_REAPED''
               then forget_process instance_name r (rv_runtime_processes v)
               else rv_runtime_processes v)\<rparr>
     else v)"

definition recover ::
    "(string \<Rightarrow> string + persisted_runtime_record) \<Rightarrow> io_error option \<Rightarrow> string \<Rightarrow> journal_file \<Rightarrow>
     io_error + recovery_state" where
  "recover parse read_fault node_id file =
     (case file of
        None \<Rightarrow> Inr \<lparr>rs_node_epoch = 0, rs_next_fence_token = 1, rs_runtime_processes = []\<rparr>
      | Some bytes \<Rightarrow>
          bind_res (read_to_string read_fault bytes) (\<lambda>contents.
          bind_res
            (journal_scan parse (\<lambda>e. ''invalid runtime journal record: '' @ e)
               (recover_step node_id) (ends_with_newline contents)
               \<lparr>rv_node_epoch = 0, rv_max_fence_token = 0, rv_runtime_processes = []\<rparr>
               (str_lines contents))
            (\<lambda>v. Inr \<lparr>rs_node_epoch = rv_node_epoch v,
                      rs_next_fence_token = max (saturating_add (rv_max_fence_token v) 1) 1,
                      rs_runtime_processes = bm_values (rv_runtime_processes v)\<rparr>)))"

definition epoch_record :: "u64 \<Rightarrow> string \<Rightarrow> u64 \<Rightarrow> persisted_runtime_record" where
  "epoch_record now node_id node_epoch =
     \<lparr>pr_observed_at_millis = now, pr_event = event_name KernelStarted, pr_node_id = node_id,
      pr_node_epoch = node_epoch, pr_instance_name = None, pr_lease_name = None,
      pr_fence_token = None, pr_reason_code = ''KERNEL_EPOCH_STARTED'',
      pr_runtime_evidence = None, pr_semantic_event = None\<rparr>"

definition begin_epoch ::
    "(string \<Rightarrow> string + persisted_runtime_record) \<Rightarrow> (persisted_runtime_record \<Rightarrow> string) \<Rightarrow>
     io_error option \<Rightarrow> write_outcome \<Rightarrow> u64 \<Rightarrow> u64 \<Rightarrow> string \<Rightarrow> journal_file \<Rightarrow>
     (io_error + recovery_state) \<times> journal_file" where
  "begin_epoch parse print read_fault outcome now now' node_id file =
     (case recover parse read_fault node_id file of
        Inl e \<Rightarrow> (Inl e, file)
      | Inr recovery \<Rightarrow>
          let node_epoch = max now (saturating_add (rs_node_epoch recovery) 1) in
          (case append_persisted print outcome (epoch_record now' node_id node_epoch) file of
             (Inl e, file') \<Rightarrow> (Inl e, file')
           | (Inr _, file') \<Rightarrow> (Inr (recovery\<lparr>rs_node_epoch := node_epoch\<rparr>), file')))"

section \<open>Appending records and events\<close>

definition journal_err :: "string \<Rightarrow> string \<Rightarrow> provider_error" where
  "journal_err code msg = provider_err ''runtime-journal'' code msg"

definition persisted_record :: "u64 \<Rightarrow> runtime_journal_record \<Rightarrow> persisted_runtime_record" where
  "persisted_record now r =
     \<lparr>pr_observed_at_millis = now, pr_event = event_name (jr_event r), pr_node_id = jr_node_id r,
      pr_node_epoch = jr_node_epoch r, pr_instance_name = jr_instance_name r,
      pr_lease_name = jr_lease_name r, pr_fence_token = jr_fence_token r,
      pr_reason_code = jr_reason_code r, pr_runtime_evidence = jr_runtime_evidence r,
      pr_semantic_event = None\<rparr>"

definition journal_append ::
    "(persisted_runtime_record \<Rightarrow> string) \<Rightarrow> write_outcome \<Rightarrow> u64 \<Rightarrow> runtime_journal_record \<Rightarrow>
     journal_file \<Rightarrow> (provider_error + unit) \<times> journal_file" where
  "journal_append print outcome now r file =
     (let (res, file') = append_persisted print outcome (persisted_record now r) file
      in (map_err (journal_err ''JOURNAL_WRITE_FAILED'') res, file'))"

definition persisted_event :: "u64 \<Rightarrow> durable_event_record \<Rightarrow> persisted_runtime_record" where
  "persisted_event now r =
     (let e = de_event r in
      \<lparr>pr_observed_at_millis = now, pr_event = ''SEMANTIC_EVENT'', pr_node_id = ident_id (ev_source e),
       pr_node_epoch = ident_generation (ev_source e), pr_instance_name = None,
       pr_lease_name = None, pr_fence_token = None, pr_reason_code = ''EVENT_PUBLISHED'',
       pr_runtime_evidence = None,
       pr_semantic_event = Some
         \<lparr>pse_namespace = de_namespace r, pse_sequence = ev_sequence e,
          pse_source_id = ident_id (ev_source e), pse_source_generation = ident_generation (ev_source e),
          pse_subject_id = ident_id (ev_subject e),
          pse_subject_generation = ident_generation (ev_subject e), pse_kind = ev_kind e,
          pse_observed_at_unix_ms = ev_observed_at_unix_ms e, pse_schema_id = ev_schema_id e,
          pse_body = ev_body e\<rparr>\<rparr>)"

definition append_event ::
    "(persisted_runtime_record \<Rightarrow> string) \<Rightarrow> write_outcome \<Rightarrow> u64 \<Rightarrow> durable_event_record \<Rightarrow>
     journal_file \<Rightarrow> (provider_error + unit) \<times> journal_file" where
  "append_event print outcome now r file =
     (case NamespaceId_new (de_namespace r) of
        Inl e \<Rightarrow> (Inl (journal_err ''EVENT_WRITE_INVALID'' (rej_message e)), file)
      | Inr _ \<Rightarrow>
          (case Event_validate (de_event r) of
             Inl e \<Rightarrow> (Inl (journal_err ''EVENT_WRITE_INVALID'' (ce_message e)), file)
           | Inr _ \<Rightarrow>
               let (res, file') = append_persisted print outcome (persisted_event now r) file
               in (map_err (journal_err ''EVENT_WRITE_FAILED'') res, file')))"

section \<open>Event replay\<close>

type_synonym event_key = "string \<times> string \<times> u64"

definition restored_event :: "persisted_semantic_event \<Rightarrow> durable_event_record" where
  "restored_event e =
     \<lparr>de_namespace = pse_namespace e,
      de_event =
        \<lparr>ev_sequence = pse_sequence e,
         ev_source = Identity (pse_source_id e) (pse_source_generation e),
         ev_subject = Identity (pse_subject_id e) (pse_subject_generation e),
         ev_kind = pse_kind e, ev_observed_at_unix_ms = pse_observed_at_unix_ms e,
         ev_schema_id = pse_schema_id e, ev_body = pse_body e\<rparr>\<rparr>"

definition replay_event ::
    "identity \<Rightarrow> string \<Rightarrow> durable_event_record list \<times> (event_key, u64) btree_map \<Rightarrow>
     persisted_runtime_record \<Rightarrow> persisted_semantic_event \<Rightarrow>
     provider_error + (durable_event_record list \<times> (event_key, u64) btree_map)" where
  "replay_event source namespace st r persisted =
     (let (events, previous) = st; event = restored_event persisted; e = de_event event;
          key = (de_namespace event, ident_id (ev_source e), ident_generation (ev_source e)) in
      bind_res (map_err (\<lambda>x. journal_err ''JOURNAL_CORRUPT'' (rej_message x))
        (NamespaceId_new (pse_namespace persisted))) (\<lambda>_.
      bind_res (map_err (\<lambda>x. journal_err ''JOURNAL_CORRUPT'' (ce_message x))
        (Event_validate e)) (\<lambda>_.
      if ident_id (ev_source e) \<noteq> pr_node_id r \<or> ident_generation (ev_source e) \<noteq> pr_node_epoch r
      then Inl (journal_err ''JOURNAL_CORRUPT''
             ''semantic event source does not match its journal record'')
      else if (case map_of previous key of None \<Rightarrow> False | Some p \<Rightarrow> ev_sequence e \<le> p)
      then Inl (journal_err ''JOURNAL_CORRUPT'' ''semantic event sequence is not strictly ordered'')
      else Inr (if de_namespace event = namespace \<and> ev_source e = source then events @ [event] else events,
                bm_insert key (ev_sequence e) previous))))"

definition replay_step ::
    "identity \<Rightarrow> string \<Rightarrow> durable_event_record list \<times> (event_key, u64) btree_map \<Rightarrow>
     persisted_runtime_record \<Rightarrow>
     provider_error + (durable_event_record list \<times> (event_key, u64) btree_map)" where
  "replay_step source namespace st r =
     (case (pr_event r = ''SEMANTIC_EVENT'', pr_semantic_event r) of
        (True, Some persisted) \<Rightarrow> replay_event source namespace st r persisted
      | (False, None) \<Rightarrow> Inr st
      | _ \<Rightarrow> Inl (journal_err ''JOURNAL_CORRUPT''
               ''semantic event record has inconsistent record fields''))"

definition semantic_events_for_source ::
    "(string \<Rightarrow> string + persisted_runtime_record) \<Rightarrow> io_error option \<Rightarrow> identity \<Rightarrow> string \<Rightarrow>
     journal_file \<Rightarrow> provider_error + durable_event_record list" where
  "semantic_events_for_source parse read_fault source namespace file =
     (case file of
        None \<Rightarrow> Inr []
      | Some bytes \<Rightarrow>
          bind_res (map_err (journal_err ''JOURNAL_READ_FAILED'') (read_to_string read_fault bytes))
            (\<lambda>contents.
          bind_res
            (journal_scan parse (journal_err ''JOURNAL_CORRUPT'') (replay_step source namespace)
               (ends_with_newline contents) ([], []) (str_lines contents))
            (\<lambda>st. Inr (fst st))))"

definition events_for_source ::
    "(string \<Rightarrow> string + persisted_runtime_record) \<Rightarrow> io_error option \<Rightarrow> identity \<Rightarrow> string \<Rightarrow>
     journal_file \<Rightarrow> provider_error + durable_event_record list option" where
  "events_for_source parse read_fault source namespace file =
     bind_res (semantic_events_for_source parse read_fault source namespace file)
       (\<lambda>events. Inr (Some events))"

section \<open>Classification and cleanup of surviving processes\<close>

definition find_unmatched ::
    "runtime_process_record list \<Rightarrow> bool list \<Rightarrow> runtime_process_evidence \<Rightarrow> nat option" where
  "find_unmatched records matched current =
     find (\<lambda>i. \<not> matched ! i \<and> rp_runtime_evidence (records ! i) = Some current) [0..<length records]"

fun classify_observed ::
    "u64 \<Rightarrow> runtime_process_record list \<Rightarrow> bool list \<Rightarrow> runtime_process_evidence list \<Rightarrow>
     recovery_candidate list \<times> bool list" where
  "classify_observed epoch records matched [] = ([], matched)"
| "classify_observed epoch records matched (current # observed) =
     (case find_unmatched records matched current of
        Some i \<Rightarrow>
          let (cs, m) = classify_observed epoch records (matched[i := True]) observed
          in (\<lparr>rc_classification = (if rp_node_epoch (records ! i) < epoch then CStale else CValid),
               rc_record = Some (records ! i), rc_observed = Some current\<rparr> # cs, m)
      | None \<Rightarrow>
          let (cs, m) = classify_observed epoch records matched observed
          in (\<lparr>rc_classification = CForeign, rc_record = None, rc_observed = Some current\<rparr> # cs, m))"

definition classify_recovery ::
    "recovery_state \<Rightarrow> runtime_process_evidence list \<Rightarrow> recovery_candidate list" where
  "classify_recovery recovery observed =
     (let records = rs_runtime_processes recovery;
          (cs, m) = classify_observed (rs_node_epoch recovery) records
                      (replicate (length records) False) observed
      in cs @ map (\<lambda>i. \<lparr>rc_classification = CUnknown, rc_record = Some (records ! i),
                        rc_observed = None\<rparr>)
                (filter (\<lambda>i. \<not> m ! i) [0..<length records]))"

text \<open>
  The sandbox is the parameter \<open>cleanup\<close>; \<open>os\<close> gives the clock and the write outcome of the
  next append. The loop has two \<open>expect\<close> calls, so a run either panics or returns.
\<close>

definition cleanup_record ::
    "string \<Rightarrow> u64 \<Rightarrow> runtime_process_record \<Rightarrow> cleanup_report \<Rightarrow> runtime_journal_record" where
  "cleanup_record node_id epoch r report =
     \<lparr>jr_event = (if cr_complete report then InstanceTerminated else InstanceCleanupFailed),
      jr_node_id = node_id, jr_node_epoch = epoch,
      jr_instance_name = Some (rp_instance_name r), jr_lease_name = rp_lease_name r,
      jr_fence_token = rp_fence_token r, jr_reason_code = cr_reason_code report,
      jr_runtime_evidence = None\<rparr>"

definition clean_stale ::
    "(persisted_runtime_record \<Rightarrow> string) \<Rightarrow>
     (runtime_process_evidence \<Rightarrow> provider_error + cleanup_report) \<Rightarrow> u64 \<times> write_outcome \<Rightarrow>
     string \<Rightarrow> u64 \<Rightarrow> recovery_candidate \<Rightarrow> journal_file \<Rightarrow>
     (provider_error + unit) run \<times> journal_file" where
  "clean_stale print cleanup now_outcome node_id epoch c file =
     (case rc_record c of
        None \<Rightarrow> (Panic ''stale candidate has journal record'', file)
      | Some r \<Rightarrow>
          (case rc_observed c of
             None \<Rightarrow> (Panic ''stale candidate has verified sandbox evidence'', file)
           | Some evidence \<Rightarrow>
               (case cleanup evidence of
                  Inl e \<Rightarrow> (Return (Inl e), file)
                | Inr report \<Rightarrow>
                    (case journal_append print (snd now_outcome) (fst now_outcome)
                            (cleanup_record node_id epoch r report) file of
                       (Inl e, file') \<Rightarrow> (Return (Inl e), file')
                     | (Inr _, file') \<Rightarrow>
                         (Return (if cr_complete report then Inr ()
                            else Inl (journal_err ''RECOVERY_CLEANUP_INCOMPLETE''
                                   (cr_reason_code report))), file')))))"

fun recover_candidates ::
    "(persisted_runtime_record \<Rightarrow> string) \<Rightarrow>
     (runtime_process_evidence \<Rightarrow> provider_error + cleanup_report) \<Rightarrow>
     (nat \<Rightarrow> u64 \<times> write_outcome) \<Rightarrow> string \<Rightarrow> u64 \<Rightarrow> nat \<Rightarrow> string option \<Rightarrow>
     recovery_candidate list \<Rightarrow> journal_file \<Rightarrow>
     (provider_error + string option) run \<times> journal_file" where
  "recover_candidates print cleanup os node_id epoch k blocked [] file = (Return (Inr blocked), file)"
| "recover_candidates print cleanup os node_id epoch k blocked (c # cs) file =
     (case rc_classification c of
        CStale \<Rightarrow>
          (case clean_stale print cleanup (os k) node_id epoch c file of
             (Panic msg, file') \<Rightarrow> (Panic msg, file')
           | (Return (Inl e), file') \<Rightarrow> (Return (Inl e), file')
           | (Return (Inr _), file') \<Rightarrow>
               recover_candidates print cleanup os node_id epoch (Suc k) blocked cs file')
      | CValid \<Rightarrow>
          recover_candidates print cleanup os node_id epoch k
            (Some ''RECOVERY_VALID_PROCESS_UNADOPTED'') cs file
      | CUnknown \<Rightarrow>
          recover_candidates print cleanup os node_id epoch k
            (Some ''RECOVERY_UNKNOWN_PROCESS'') cs file
      | CForeign \<Rightarrow>
          recover_candidates print cleanup os node_id epoch k
            (Some ''RECOVERY_FOREIGN_PROCESS'') cs file)"

definition recover_before_listeners ::
    "(persisted_runtime_record \<Rightarrow> string) \<Rightarrow> provider_error + runtime_process_evidence list \<Rightarrow>
     (runtime_process_evidence \<Rightarrow> provider_error + cleanup_report) \<Rightarrow>
     (nat \<Rightarrow> u64 \<times> write_outcome) \<Rightarrow> string \<Rightarrow> recovery_state \<Rightarrow> journal_file \<Rightarrow>
     (provider_error + unit) run \<times> journal_file" where
  "recover_before_listeners print discovered cleanup os node_id recovery file =
     (case discovered of
        Inl e \<Rightarrow> (Return (Inl e), file)
      | Inr observed \<Rightarrow>
          (case recover_candidates print cleanup os node_id (rs_node_epoch recovery) 0 None
                  (classify_recovery recovery observed) file of
             (Panic msg, file') \<Rightarrow> (Panic msg, file')
           | (Return (Inl e), file') \<Rightarrow> (Return (Inl e), file')
           | (Return (Inr (Some reason_code)), file') \<Rightarrow>
               (Return (Inl (journal_err reason_code
                  ''restart recovery refuses to adopt or terminate unverified runtime state'')), file')
           | (Return (Inr None), file') \<Rightarrow> (Return (Inr ()), file')))"

section \<open>Written journals\<close>

text \<open>
  What the journal relies on of the JSON library, for the records \<open>rs\<close> it writes: an encoding
  decodes to the record, is non-empty well-formed UTF-8 and stays on one line.
\<close>

definition codec_ok ::
    "(string \<Rightarrow> string + persisted_runtime_record) \<Rightarrow> (persisted_runtime_record \<Rightarrow> string) \<Rightarrow>
     persisted_runtime_record list \<Rightarrow> bool" where
  "codec_ok parse print rs \<longleftrightarrow>
     (\<forall>r\<in>set rs. parse (print r) = Inr r \<and> print r \<noteq> [] \<and> newline \<notin> set (print r) \<and>
        last (print r) \<noteq> CHR 0x0D \<and> utf8_valid (print r))"

definition journal_of :: "(persisted_runtime_record \<Rightarrow> string) \<Rightarrow> persisted_runtime_record list \<Rightarrow> string" where
  "journal_of print rs = concat (map (\<lambda>r. print r @ [newline]) rs)"

text \<open>What an interrupted write may leave at the end of the file.\<close>

definition torn_tail :: "(string \<Rightarrow> string + persisted_runtime_record) \<Rightarrow> string \<Rightarrow> bool" where
  "torn_tail parse tail \<longleftrightarrow>
     newline \<notin> set tail \<and> utf8_valid tail \<and> (tail \<noteq> [] \<longrightarrow> (\<exists>e. parse tail = Inl e))"

lemma journal_of_Nil [simp]: "journal_of print [] = []"
  by (simp add: journal_of_def)

lemma journal_of_append: "journal_of print (rs @ rs') = journal_of print rs @ journal_of print rs'"
  by (simp add: journal_of_def)

lemma journal_of_Cons: "journal_of print (r # rs) = print r @ newline # journal_of print rs"
  by (simp add: journal_of_def)

lemma codec_ok_Cons:
  "codec_ok parse print (r # rs) \<longleftrightarrow> codec_ok parse print [r] \<and> codec_ok parse print rs"
  by (auto simp: codec_ok_def)

lemma codec_ok_append:
  "codec_ok parse print (rs @ rs') \<longleftrightarrow> codec_ok parse print rs \<and> codec_ok parse print rs'"
  by (auto simp: codec_ok_def)

lemma torn_tail_Nil [simp]: "torn_tail parse []"
  by (simp add: torn_tail_def)

lemma utf8_valid_append: "utf8_valid a \<Longrightarrow> utf8_valid (a @ b) = utf8_valid b"
  by (induction a rule: utf8_valid.induct) (auto split: if_splits list.splits)

lemma byte_newline: "byte newline < 0x80"
  by (simp add: newline_def byte_def)

lemma utf8_valid_newline: "utf8_valid (newline # s) = utf8_valid s"
  using byte_newline by simp

lemma utf8_valid_journal:
  "codec_ok parse print rs \<Longrightarrow> utf8_valid (journal_of print rs @ tail) = utf8_valid tail"
  by (induction rs)
    (simp_all add: journal_of_Cons codec_ok_def utf8_valid_append utf8_valid_newline del: utf8_valid.simps)

lemma split_on_journal:
  assumes "codec_ok parse print rs" and "newline \<notin> set tail"
  shows "split_on newline (journal_of print rs @ tail) = map print rs @ [tail]"
  using assms(1)
  by (induction rs) (simp_all add: journal_of_Cons codec_ok_def split_on_append split_on_fresh assms(2))

lemma strip_cr_print: "codec_ok parse print [r] \<Longrightarrow> strip_cr (print r) = print r"
  by (simp add: codec_ok_def strip_cr_def)

lemma str_lines_journal:
  assumes "codec_ok parse print rs" and "newline \<notin> set tail"
  shows "str_lines (journal_of print rs @ tail) = map print rs @ (if tail = [] then [] else [tail])"
proof -
  have "map strip_cr (map print rs) = map print rs"
    using assms(1) by (auto simp: codec_ok_def strip_cr_def)
  then show ?thesis by (simp add: str_lines_def split_on_journal [OF assms] del: map_map)
qed

lemma ends_with_newline_tail:
  "newline \<notin> set tail \<Longrightarrow> tail \<noteq> [] \<Longrightarrow> \<not> ends_with_newline (s @ tail)"
  by (auto simp: ends_with_newline_def dest: last_in_set)

lemma journal_scan_append:
  assumes "codec_ok parse print rs"
  shows "journal_scan parse corrupt step term st (map print rs @ ls) =
    bind_res (fold_res step st rs) (\<lambda>s. journal_scan parse corrupt step term s ls)"
  using assms
  by (induction rs arbitrary: st) (auto simp: codec_ok_def bind_res_def split: sum.splits)

text \<open>A scan of a written journal folds its records and ignores a torn tail.\<close>

lemma journal_scan_journal:
  assumes "codec_ok parse print rs" and "torn_tail parse tail"
  shows "journal_scan parse corrupt step (ends_with_newline (journal_of print rs @ tail)) st
           (str_lines (journal_of print rs @ tail)) = fold_res step st rs"
proof -
  have nl: "newline \<notin> set tail" using assms(2) by (simp add: torn_tail_def)
  have lines: "str_lines (journal_of print rs @ tail) = map print rs @ (if tail = [] then [] else [tail])"
    by (rule str_lines_journal [OF assms(1) nl])
  show ?thesis
  proof (cases "tail = []")
    case True
    then show ?thesis unfolding lines journal_scan_append [OF assms(1)]
      by (cases "fold_res step st rs") (simp_all add: bind_res_def)
  next
    case False
    then obtain e where "parse tail = Inl e" using assms(2) by (auto simp: torn_tail_def)
    then show ?thesis unfolding lines journal_scan_append [OF assms(1)]
      using False ends_with_newline_tail [OF nl False, of "journal_of print rs"]
      by (simp add: bind_res_def split: sum.splits)
  qed
qed

lemma read_journal:
  assumes "codec_ok parse print rs" and "torn_tail parse tail"
  shows "read_to_string None (journal_of print rs @ tail) = Inr (journal_of print rs @ tail)"
  using assms by (simp add: read_to_string_def utf8_valid_journal torn_tail_def)

end
