(* ===== verification/Journal_Properties.thy ===== *)
theory Journal_Properties
  imports Runtime_Journal "HOL-Library.Multiset"
begin

text \<open>
  What the restart journal guarantees: recovery of a written journal against a declarative
  reading of its records, the effect of torn writes, the classification of surviving
  processes, the startup boundary and the replay of semantic events.
\<close>

section \<open>Reading a journal declaratively\<close>

definition fence_of :: "persisted_runtime_record \<Rightarrow> u64" where
  "fence_of r = (case pr_fence_token r of None \<Rightarrow> 0 | Some f \<Rightarrow> f)"

definition launches :: "string \<Rightarrow> persisted_runtime_record \<Rightarrow> runtime_process_record \<Rightarrow> bool" where
  "launches node r p \<longleftrightarrow>
     pr_node_id r = node \<and> pr_event r = ''INSTANCE_LAUNCHED'' \<and>
     pr_instance_name r = Some (rp_instance_name p) \<and> p = launched_process (rp_instance_name p) r"

definition ends :: "persisted_runtime_record \<Rightarrow> bool" where
  "ends r \<longleftrightarrow> pr_event r = ''INSTANCE_TERMINATED'' \<or> pr_event r = ''WATCHDOG_REAPED''"

definition closes :: "string \<Rightarrow> persisted_runtime_record \<Rightarrow> runtime_process_record \<Rightarrow> bool" where
  "closes node r p \<longleftrightarrow>
     pr_node_id r = node \<and> pr_instance_name r \<noteq> None \<and>
     (pr_event r = ''INSTANCE_LAUNCHED'' \<and> pr_instance_name r = Some (rp_instance_name p) \<or>
      ends r \<and>
      (pr_instance_name r = Some (rp_instance_name p) \<or>
       pr_lease_name r \<noteq> None \<and> pr_fence_token r \<noteq> None \<and>
       rp_lease_name p = pr_lease_name r \<and> rp_fence_token p = pr_fence_token r))"

definition live :: "string \<Rightarrow> persisted_runtime_record list \<Rightarrow> runtime_process_record \<Rightarrow> bool" where
  "live node rs p \<longleftrightarrow>
     (\<exists>xs r ys. rs = xs @ r # ys \<and> launches node r p \<and> (\<forall>y\<in>set ys. \<not> closes node y p))"

lemma live_Nil [simp]: "\<not> live node [] p"
  by (simp add: live_def)

lemma live_snoc:
  "live node (rs @ [r]) p \<longleftrightarrow> launches node r p \<or> live node rs p \<and> \<not> closes node r p"
proof
  assume "live node (rs @ [r]) p"
  then obtain xs s ys where d: "rs @ [r] = xs @ s # ys" "launches node s p" "\<forall>y\<in>set ys. \<not> closes node y p"
    by (auto simp: live_def)
  show "launches node r p \<or> live node rs p \<and> \<not> closes node r p"
  proof (cases ys rule: rev_cases)
    case Nil
    then show ?thesis using d by simp
  next
    case (snoc zs z)
    then have "rs = xs @ s # zs" "z = r" using d(1) by simp_all
    then show ?thesis using d snoc by (auto simp: live_def)
  qed
next
  assume "launches node r p \<or> live node rs p \<and> \<not> closes node r p"
  then show "live node (rs @ [r]) p"
  proof
    assume "launches node r p"
    then have "rs @ [r] = rs @ r # [] \<and> launches node r p \<and> (\<forall>y\<in>set []. \<not> closes node y p)"
      by simp
    then show ?thesis unfolding live_def by blast
  next
    assume "live node rs p \<and> \<not> closes node r p"
    then obtain xs s ys where "rs = xs @ s # ys" "launches node s p"
      "\<forall>y\<in>set ys. \<not> closes node y p" "\<not> closes node r p" by (auto simp: live_def)
    then have "rs @ [r] = xs @ s # (ys @ [r]) \<and> launches node s p \<and>
        (\<forall>y\<in>set (ys @ [r]). \<not> closes node y p)" by auto
    then show ?thesis unfolding live_def by blast
  qed
qed

section \<open>The recovery loop\<close>

definition initial_vars :: recover_vars where
  "initial_vars = \<lparr>rv_node_epoch = 0, rv_max_fence_token = 0, rv_runtime_processes = []\<rparr>"

definition vars_ok :: "string \<Rightarrow> persisted_runtime_record list \<Rightarrow> recover_vars \<Rightarrow> bool" where
  "vars_ok node rs v \<longleftrightarrow>
     bm_ok (rv_runtime_processes v) \<and>
     (\<forall>k p. map_of (rv_runtime_processes v) k = Some p \<longleftrightarrow> live node rs p \<and> rp_instance_name p = k) \<and>
     rv_max_fence_token v = fold max (map fence_of (filter (\<lambda>r. pr_node_id r = node) rs)) 0 \<and>
     rv_node_epoch v = fold max (map pr_node_epoch (filter (\<lambda>r. pr_node_id r = node) rs)) 0"

lemma recover_step_foreign: "pr_node_id r \<noteq> node \<Longrightarrow> recover_step node v r = Inr v"
  by (simp add: recover_step_def)

lemma map_of_forget_process:
  assumes "bm_ok m"
  shows "map_of (forget_process n r m) k = Some p \<longleftrightarrow>
    map_of m k = Some p \<and> k \<noteq> n \<and>
    \<not> (pr_lease_name r \<noteq> None \<and> pr_fence_token r \<noteq> None \<and>
       rp_lease_name p = pr_lease_name r \<and> rp_fence_token p = pr_fence_token r)"
  using assms
  by (auto simp: forget_process_def Let_def map_of_bm_retain split: option.splits if_splits)

lemma bm_ok_forget_process: "bm_ok m \<Longrightarrow> bm_ok (forget_process n r m)"
  by (simp add: forget_process_def Let_def split: option.splits)

lemma launches_name: "launches node r p \<Longrightarrow> pr_instance_name r = Some (rp_instance_name p)"
  by (simp add: launches_def)

lemma recover_step_ok:
  assumes "vars_ok node rs v"
  obtains v' where "recover_step node v r = Inr v'" and "vars_ok node (rs @ [r]) v'"
proof (cases "pr_node_id r = node")
  case False
  then have "vars_ok node (rs @ [r]) v"
    using assms by (simp add: vars_ok_def live_snoc launches_def closes_def)
  then show thesis using that recover_step_foreign [OF False] by blast
next
  case own: True
  let ?m = "rv_runtime_processes v"
  obtain v' where v': "recover_step node v r = Inr v'" by (simp add: recover_step_def)
  have ok: "bm_ok ?m" and old: "\<And>k p. map_of ?m k = Some p \<longleftrightarrow> live node rs p \<and> rp_instance_name p = k"
    using assms by (simp_all add: vars_ok_def)
  have procs: "bm_ok (rv_runtime_processes v') \<and>
      (\<forall>k p. map_of (rv_runtime_processes v') k = Some p \<longleftrightarrow>
         live node (rs @ [r]) p \<and> rp_instance_name p = k)"
  proof (cases "pr_instance_name r")
    case None
    then show ?thesis using v' own ok old
      by (auto simp: recover_step_def live_snoc launches_def closes_def)
  next
    case (Some n)
    consider (launch) "pr_event r = ''INSTANCE_LAUNCHED''" | (stop) "pr_event r \<noteq> ''INSTANCE_LAUNCHED''" "ends r"
      | (other) "pr_event r \<noteq> ''INSTANCE_LAUNCHED''" "\<not> ends r" by blast
    then show ?thesis
    proof cases
      case launch
      have "rv_runtime_processes v' = bm_insert n (launched_process n r) ?m"
        using v' own Some launch by (auto simp: recover_step_def)
      moreover have "launches node r p \<longleftrightarrow> p = launched_process n r" for p
        using own Some launch by (auto simp: launches_def launched_process_def)
      moreover have "closes node r p \<longleftrightarrow> rp_instance_name p = n" for p
        using own Some launch by (auto simp: closes_def ends_def)
      ultimately show ?thesis using ok old
        by (auto simp: live_snoc launched_process_def)
    next
      case stop
      then have "rv_runtime_processes v' = forget_process n r ?m"
        using v' own Some by (auto simp: recover_step_def ends_def)
      then show ?thesis using ok old own Some stop
        by (auto simp: live_snoc map_of_forget_process bm_ok_forget_process launches_def closes_def)
    next
      case other
      then have "rv_runtime_processes v' = ?m"
        using v' own Some by (auto simp: recover_step_def ends_def)
      then show ?thesis using ok old other
        by (auto simp: live_snoc launches_def closes_def)
    qed
  qed
  have "vars_ok node (rs @ [r]) v'"
    using procs v' own assms
    by (auto simp: vars_ok_def recover_step_def fence_of_def max.commute)
  then show thesis using that v' by blast
qed

lemma recover_fold:
  obtains v where "fold_res (recover_step node) initial_vars rs = Inr v" and "vars_ok node rs v"
proof (induction rs arbitrary: thesis rule: rev_induct)
  case Nil
  then show ?case by (simp add: vars_ok_def initial_vars_def)
next
  case (snoc r rs)
  obtain v where v: "fold_res (recover_step node) initial_vars rs = Inr v" "vars_ok node rs v"
    by (rule snoc.IH)
  obtain v' where "recover_step node v r = Inr v'" "vars_ok node (rs @ [r]) v'"
    by (rule recover_step_ok [OF v(2)])
  then show ?case using snoc.prems v by (simp add: fold_res_snoc bind_res_def)
qed

lemma fold_max_start: "(a :: u64) \<le> fold max xs a"
  by (induction xs arbitrary: a) (auto intro: order.trans [OF max.cobounded2])

lemma fold_max_ge: "x \<in> set xs \<Longrightarrow> (x :: u64) \<le> fold max xs a"
proof (induction xs arbitrary: a)
  case (Cons y ys)
  have "y \<le> fold max ys (max y a)"
    by (rule order.trans [OF max.cobounded1 fold_max_start])
  then show ?case using Cons by auto
qed simp

definition recorded_epoch :: "string \<Rightarrow> persisted_runtime_record list \<Rightarrow> u64" where
  "recorded_epoch node rs = fold max (map pr_node_epoch (filter (\<lambda>r. pr_node_id r = node) rs)) 0"

definition recorded_fence :: "string \<Rightarrow> persisted_runtime_record list \<Rightarrow> u64" where
  "recorded_fence node rs = fold max (map fence_of (filter (\<lambda>r. pr_node_id r = node) rs)) 0"

lemma recorded_epoch_ge: "r \<in> set rs \<Longrightarrow> pr_node_id r = node \<Longrightarrow> pr_node_epoch r \<le> recorded_epoch node rs"
  by (simp add: recorded_epoch_def fold_max_ge)

lemma recorded_fence_ge:
  "r \<in> set rs \<Longrightarrow> pr_node_id r = node \<Longrightarrow> pr_fence_token r = Some f \<Longrightarrow> f \<le> recorded_fence node rs"
  unfolding recorded_fence_def by (rule fold_max_ge) (force simp: fence_of_def)

lemma vars_ok_names:
  assumes "vars_ok node rs v"
  shows "map rp_instance_name (bm_values (rv_runtime_processes v)) = map fst (rv_runtime_processes v)"
proof -
  have "rp_instance_name p = k" if "(k, p) \<in> set (rv_runtime_processes v)" for k p
    using that assms map_of_in_set [of "rv_runtime_processes v" k p] by (simp add: vars_ok_def)
  then show ?thesis by (auto simp: bm_values_def)
qed

text \<open>Recovery of a written journal, torn or not.\<close>

lemma recover_journal:
  assumes "codec_ok parse print rs" and "torn_tail parse tail"
  obtains st where "recover parse None node (Some (journal_of print rs @ tail)) = Inr st"
    and "rs_node_epoch st = recorded_epoch node rs"
    and "rs_next_fence_token st = max (saturating_add (recorded_fence node rs) 1) 1"
    and "set (rs_runtime_processes st) = {p. live node rs p}"
    and "distinct (map rp_instance_name (rs_runtime_processes st))"
proof -
  obtain v where v: "fold_res (recover_step node) initial_vars rs = Inr v" "vars_ok node rs v"
    by (rule recover_fold)
  have scan: "journal_scan parse corrupt (recover_step node)
      (ends_with_newline (journal_of print rs @ tail)) initial_vars
      (str_lines (journal_of print rs @ tail)) = Inr v" for corrupt
    by (simp add: journal_scan_journal [OF assms] v)
  have ok: "bm_ok (rv_runtime_processes v)" using v(2) by (simp add: vars_ok_def)
  have "set (bm_values (rv_runtime_processes v)) = {p. live node rs p}"
    using v(2) by (auto simp: in_bm_values [OF ok] vars_ok_def)
  moreover have "distinct (map rp_instance_name (bm_values (rv_runtime_processes v)))"
    unfolding vars_ok_names [OF v(2)] by (rule bm_ok_distinct [OF ok])
  moreover have "rv_node_epoch v = recorded_epoch node rs" "rv_max_fence_token v = recorded_fence node rs"
    using v(2) by (simp_all add: vars_ok_def recorded_epoch_def recorded_fence_def)
  ultimately show thesis
    using that scan
    by (simp add: recover_def read_journal [OF assms] bind_res_def initial_vars_def)
qed

lemma next_fence_above:
  assumes "r \<in> set rs" "pr_node_id r = node" "pr_fence_token r = Some f" "f \<noteq> - 1"
  shows "f < max (saturating_add (recorded_fence node rs) 1) 1"
proof -
  have "f < saturating_add f 1" by (rule saturating_add_one_gt [OF assms(4)])
  also have "\<dots> \<le> saturating_add (recorded_fence node rs) 1"
    by (rule saturating_add_mono [OF recorded_fence_ge [OF assms(1-3)]])
  finally show ?thesis by (simp add: less_max_iff_disj)
qed

section \<open>Epochs\<close>

definition restart_epoch :: "u64 \<Rightarrow> string \<Rightarrow> persisted_runtime_record list \<Rightarrow> u64" where
  "restart_epoch now node rs = max now (saturating_add (recorded_epoch node rs) 1)"

lemma restart_epoch_above:
  assumes "r \<in> set rs" "pr_node_id r = node" "pr_node_epoch r \<noteq> - 1"
  shows "pr_node_epoch r < restart_epoch now node rs"
proof -
  have "pr_node_epoch r < saturating_add (pr_node_epoch r) 1" by (rule saturating_add_one_gt [OF assms(3)])
  also have "\<dots> \<le> saturating_add (recorded_epoch node rs) 1"
    by (rule saturating_add_mono [OF recorded_epoch_ge [OF assms(1,2)]])
  finally show ?thesis by (simp add: restart_epoch_def less_max_iff_disj)
qed

lemma begin_epoch_journal:
  assumes "codec_ok parse print rs" and "torn_tail parse tail"
  obtains st where
    "begin_epoch parse print None Written now now' node (Some (journal_of print rs @ tail)) =
       (Inr st, Some (journal_of print rs @ tail @
          print (epoch_record now' node (restart_epoch now node rs)) @ [newline]))"
    and "rs_node_epoch st = restart_epoch now node rs"
    and "rs_next_fence_token st = max (saturating_add (recorded_fence node rs) 1) 1"
    and "set (rs_runtime_processes st) = {p. live node rs p}"
proof -
  obtain st where st: "recover parse None node (Some (journal_of print rs @ tail)) = Inr st"
    "rs_node_epoch st = recorded_epoch node rs"
    "rs_next_fence_token st = max (saturating_add (recorded_fence node rs) 1) 1"
    "set (rs_runtime_processes st) = {p. live node rs p}"
    using recover_journal [OF assms] by blast
  have "begin_epoch parse print None Written now now' node (Some (journal_of print rs @ tail)) =
       (Inr (st\<lparr>rs_node_epoch := restart_epoch now node rs\<rparr>), Some (journal_of print rs @ tail @
          print (epoch_record now' node (restart_epoch now node rs)) @ [newline]))"
    by (simp add: begin_epoch_def st(1,2) restart_epoch_def Let_def append_persisted_def)
  then show thesis using that st(3,4) by simp
qed

text \<open>A complete line that does not parse makes recovery fail, whatever follows it.\<close>

lemma corrupt_line:
  assumes "codec_ok parse print rs" and "newline \<notin> set line" and "line \<noteq> []"
    and "last line \<noteq> CHR 0x0D" and "parse line = Inl e" and "utf8_valid line" and "utf8_valid later"
  shows "recover parse None node (Some (journal_of print rs @ line @ newline # later)) =
    Inl (''invalid runtime journal record: '' @ e)"
proof -
  let ?s = "journal_of print rs @ line @ newline # later"
  have parts: "split_on newline ?s = map print rs @ line # split_on newline later"
    using assms(1,2)
    by (induction rs) (simp_all add: journal_of_Cons codec_ok_def split_on_append split_on_fresh)
  have "map strip_cr (map print rs) = map print rs"
    using assms(1) by (auto simp: codec_ok_def strip_cr_def)
  moreover have ne: "split_on newline xs \<noteq> []" for xs by (induction xs) (auto split: list.split)
  ultimately have lines: "str_lines ?s = map print rs @ line # str_lines later"
    using assms(4) by (simp add: str_lines_def parts butlast_append strip_cr_def Let_def del: map_map)
  have rest: "\<not> (str_lines later = [] \<and> \<not> ends_with_newline ?s)"
  proof (cases "later = []")
    case False
    then have "str_lines later \<noteq> []"
      by (cases later) (auto simp: str_lines_def Let_def ne split: list.splits if_splits)
    then show ?thesis by simp
  qed (simp add: ends_with_newline_def)
  have "utf8_valid ?s"
    using assms(1,6,7) by (simp only: utf8_valid_journal utf8_valid_append utf8_valid_newline)
  moreover obtain v where "fold_res (recover_step node) initial_vars rs = Inr v" by (rule recover_fold)
  ultimately show ?thesis
    using assms(5) rest
    by (auto simp: recover_def read_to_string_def bind_res_def lines journal_scan_append [OF assms(1)]
        initial_vars_def)
qed

section \<open>Classification\<close>

definition unmatched :: "bool list \<Rightarrow> nat list" where
  "unmatched m = filter (\<lambda>i. \<not> m ! i) [0..<length m]"

definition stale_or_valid :: "recovery_state \<Rightarrow> recovery_candidate \<Rightarrow> bool" where
  "stale_or_valid st c \<longleftrightarrow>
     (\<exists>r e. rc_record c = Some r \<and> rc_observed c = Some e \<and> rp_runtime_evidence r = Some e \<and>
        rc_classification c = (if rp_node_epoch r < rs_node_epoch st then CStale else CValid))"

definition foreign :: "recovery_candidate \<Rightarrow> bool" where
  "foreign c \<longleftrightarrow> rc_classification c = CForeign \<and> rc_record c = None \<and> rc_observed c \<noteq> None"

definition unknown :: "recovery_candidate \<Rightarrow> bool" where
  "unknown c \<longleftrightarrow> rc_classification c = CUnknown \<and> rc_record c \<noteq> None \<and> rc_observed c = None"

lemma find_unmatched_Some:
  assumes "find_unmatched recs m e = Some i" and "length m = length recs"
  shows "i < length m" and "\<not> m ! i" and "rp_runtime_evidence (recs ! i) = Some e"
  using assms by (auto simp: find_unmatched_def find_Some_iff)

lemma find_unmatched_None:
  assumes "find_unmatched recs m e = None" and "length m = length recs" and "i \<in> set (unmatched m)"
  shows "rp_runtime_evidence (recs ! i) \<noteq> Some e"
  using assms by (auto simp: find_unmatched_def find_None_iff unmatched_def)

lemma unmatched_update:
  assumes "i < length m" and "\<not> m ! i"
  shows "mset (unmatched m) = add_mset i (mset (unmatched (m[i := True])))"
proof -
  have "mset (unmatched m) = mset_set {j. j < length m \<and> \<not> m ! j}"
    by (simp add: unmatched_def mset_filter mset_upt filter_mset_mset_set atLeast0LessThan lessThan_def
        flip: Collect_conj_eq)
  moreover have "mset (unmatched (m[i := True])) = mset_set {j. j < length m \<and> \<not> (m[i := True]) ! j}"
    by (simp add: unmatched_def mset_filter mset_upt filter_mset_mset_set atLeast0LessThan lessThan_def
        flip: Collect_conj_eq)
  moreover have "{j. j < length m \<and> \<not> m ! j} = insert i {j. j < length m \<and> \<not> (m[i := True]) ! j}"
    using assms by (auto simp: nth_list_update)
  moreover have "i \<notin> {j. j < length m \<and> \<not> (m[i := True]) ! j}" using assms by simp
  ultimately show ?thesis by simp
qed

lemma classify_observed_spec:
  assumes "classify_observed (rs_node_epoch st) recs m obs = (cs, m')" and "length m = length recs"
  shows "length m' = length recs \<and> set (unmatched m') \<subseteq> set (unmatched m) \<and>
    map rc_observed cs = map Some obs \<and>
    (\<forall>c\<in>set cs. stale_or_valid st c \<or> foreign c) \<and>
    mset (List.map_filter rc_record cs) + image_mset ((!) recs) (mset (unmatched m')) =
      image_mset ((!) recs) (mset (unmatched m)) \<and>
    (\<forall>c\<in>set cs. foreign c \<longrightarrow>
       (\<forall>i\<in>set (unmatched m'). rp_runtime_evidence (recs ! i) \<noteq> rc_observed c))"
  using assms
proof (induction obs arbitrary: m cs m')
  case Nil
  then show ?case by (simp add: List.map_filter_def)
next
  case (Cons e obs)
  show ?case
  proof (cases "find_unmatched recs m e")
    case None
    obtain ds where ds: "classify_observed (rs_node_epoch st) recs m obs = (ds, m')"
      and cs: "cs = \<lparr>rc_classification = CForeign, rc_record = None, rc_observed = Some e\<rparr> # ds"
      using Cons.prems(1) None by (auto split: prod.splits)
    note ih = Cons.IH [OF ds Cons.prems(2)]
    have "rp_runtime_evidence (recs ! i) \<noteq> Some e" if "i \<in> set (unmatched m')" for i
      using find_unmatched_None [OF None Cons.prems(2)] ih that by blast
    then show ?thesis using ih by (simp add: cs foreign_def map_filter_simps)
  next
    case (Some i)
    note i = find_unmatched_Some [OF Some Cons.prems(2)]
    let ?c = "\<lparr>rc_classification = (if rp_node_epoch (recs ! i) < rs_node_epoch st then CStale else CValid),
        rc_record = Some (recs ! i), rc_observed = Some e\<rparr>"
    obtain ds where ds: "classify_observed (rs_node_epoch st) recs (m[i := True]) obs = (ds, m')"
      and cs: "cs = ?c # ds"
      using Cons.prems(1) Some by (auto split: prod.splits)
    note ih = Cons.IH [OF ds, simplified, OF Cons.prems(2)]
    note upd = unmatched_update [OF i(1,2)]
    have "set (unmatched (m[i := True])) \<subseteq> set (unmatched m)"
      using arg_cong [OF upd, of set_mset] by auto
    moreover have "stale_or_valid st ?c" "\<not> foreign ?c" using i(3) by (simp_all add: stale_or_valid_def foreign_def)
    ultimately show ?thesis using ih by (auto simp: cs map_filter_simps upd)
  qed
qed

lemma classify_recovery_spec:
  fixes st :: recovery_state and obs :: "runtime_process_evidence list"
  defines "cs \<equiv> classify_recovery st obs"
  shows "(\<forall>c\<in>set cs. stale_or_valid st c \<or> foreign c \<or> unknown c) \<and>
    mset (List.map_filter rc_record cs) = mset (rs_runtime_processes st) \<and>
    List.map_filter rc_observed cs = obs \<and>
    (\<forall>c\<in>set cs. \<forall>d\<in>set cs. foreign c \<longrightarrow> unknown d \<longrightarrow>
       rp_runtime_evidence (the (rc_record d)) \<noteq> rc_observed c)"
proof -
  let ?recs = "rs_runtime_processes st"
  let ?unk = "\<lambda>i. \<lparr>rc_classification = CUnknown, rc_record = Some (?recs ! i), rc_observed = None\<rparr>"
  obtain ds m where ds: "classify_observed (rs_node_epoch st) ?recs (replicate (length ?recs) False) obs = (ds, m)"
    by (meson surj_pair)
  note spec = classify_observed_spec [OF ds, simplified]
  have len: "length m = length ?recs" using spec by blast
  have cs: "cs = ds @ map ?unk (unmatched m)"
    by (simp add: cs_def classify_recovery_def ds Let_def unmatched_def len)
  have "mset (unmatched (replicate (length ?recs) False)) = mset [0..<length ?recs]"
    by (simp add: unmatched_def mset_filter filter_mset_eq_conv cong: filter_mset_cong)
  then have "image_mset ((!) ?recs) (mset (unmatched (replicate (length ?recs) False))) =
      mset (map ((!) ?recs) [0..<length ?recs])" by simp
  then have all: "image_mset ((!) ?recs) (mset (unmatched (replicate (length ?recs) False))) = mset ?recs"
    by (simp only: map_nth)
  have unk_recs: "List.map_filter rc_record (map ?unk js) = map ((!) ?recs) js" for js
    by (induction js) (simp_all add: map_filter_simps)
  have unk_obs: "List.map_filter rc_observed (map ?unk js) = []" for js
    by (induction js) (simp_all add: map_filter_simps)
  have app: "List.map_filter f (xs @ ys) = List.map_filter f xs @ List.map_filter f ys" for f :: "recovery_candidate \<Rightarrow> 'z option" and xs ys
    by (simp add: List.map_filter_def)
  have obs: "List.map_filter rc_observed ds = obs"
  proof -
    have "map rc_observed ds = map Some obs" using spec by blast
    then show ?thesis
      by (induction ds arbitrary: obs) (auto simp: map_filter_simps)
  qed
  have f_unk: "\<not> foreign (?unk i)" and u_unk: "unknown (?unk i)" for i
    by (simp_all add: foreign_def unknown_def)
  have n_unk: "\<not> unknown d" if "d \<in> set ds" for d
    using spec that by (auto simp: stale_or_valid_def foreign_def unknown_def)
  show ?thesis
  proof (intro conjI)
    show "\<forall>c\<in>set cs. stale_or_valid st c \<or> foreign c \<or> unknown c"
      using spec u_unk by (auto simp: cs)
    show "mset (List.map_filter rc_record cs) = mset ?recs"
      using spec all by (simp add: cs app unk_recs)
    show "List.map_filter rc_observed cs = obs" by (simp add: cs app unk_obs obs)
    show "\<forall>c\<in>set cs. \<forall>d\<in>set cs. foreign c \<longrightarrow> unknown d \<longrightarrow>
       rp_runtime_evidence (the (rc_record d)) \<noteq> rc_observed c"
      using spec f_unk n_unk by (auto simp: cs)
  qed
qed

section \<open>The startup boundary\<close>

definition candidate_ok :: "recovery_candidate \<Rightarrow> bool" where
  "candidate_ok c \<longleftrightarrow> (rc_classification c = CStale \<longrightarrow> rc_record c \<noteq> None \<and> rc_observed c \<noteq> None)"

lemma classified_candidate_ok: "c \<in> set (classify_recovery st obs) \<Longrightarrow> candidate_ok c"
  using classify_recovery_spec [of st obs]
  by (auto simp: candidate_ok_def stale_or_valid_def foreign_def unknown_def split: if_splits)

lemma append_persisted_Inr:
  assumes "append_persisted print outcome r fl = (Inr (), fl')"
  shows "fl' = Some ((case fl of None \<Rightarrow> [] | Some s \<Rightarrow> s) @ journal_of print [r])"
  using assms
  by (auto simp: append_persisted_def Let_def journal_of_def split: write_outcome.splits option.splits)

lemma clean_stale_cases:
  assumes "candidate_ok c" and "rc_classification c = CStale"
  obtains (failed) e fl' where "clean_stale print cleanup nw node epoch c fl = (Return (Inl e), fl')"
  | (cleaned) r ev report where "rc_record c = Some r" and "rc_observed c = Some ev"
      and "cleanup ev = Inr report" and "cr_complete report"
      and "clean_stale print cleanup nw node epoch c fl = (Return (Inr ()),
        Some ((case fl of None \<Rightarrow> [] | Some s \<Rightarrow> s) @
          journal_of print [persisted_record (fst nw) (cleanup_record node epoch r report)]))"
proof -
  obtain r ev where c: "rc_record c = Some r" "rc_observed c = Some ev"
    using assms by (auto simp: candidate_ok_def)
  show thesis
  proof (cases "cleanup ev")
    case (Inl e)
    then show ?thesis using failed c by (simp add: clean_stale_def)
  next
    case (Inr report)
    obtain res fl' where a: "append_persisted print (snd nw)
        (persisted_record (fst nw) (cleanup_record node epoch r report)) fl = (res, fl')"
      by (meson surj_pair)
    show ?thesis
    proof (cases res)
      case (Inl e)
      then show ?thesis using failed c Inr a by (simp add: clean_stale_def journal_append_def map_err_def)
    next
      case ok: (Inr u)
      show ?thesis
      proof (cases "cr_complete report")
        case True
        have "append_persisted print (snd nw)
            (persisted_record (fst nw) (cleanup_record node epoch r report)) fl = (Inr (), fl')"
          using a ok by simp
        note written = append_persisted_Inr [OF this]
        show ?thesis
          by (rule cleaned [OF c Inr True])
            (simp add: clean_stale_def journal_append_def map_err_def c Inr True a ok flip: written)
      next
        case False
        then show ?thesis using failed c Inr a ok
          by (simp add: clean_stale_def journal_append_def map_err_def)
      qed
    qed
  qed
qed

definition terminates :: "string \<Rightarrow> persisted_runtime_record \<Rightarrow> runtime_process_record \<Rightarrow> bool" where
  "terminates node w r \<longleftrightarrow>
     pr_node_id w = node \<and> pr_event w = ''INSTANCE_TERMINATED'' \<and>
     pr_instance_name w = Some (rp_instance_name r) \<and>
     pr_lease_name w = rp_lease_name r \<and> pr_fence_token w = rp_fence_token r"

lemma cleanup_record_terminates:
  "cr_complete report \<Longrightarrow> terminates node (persisted_record now (cleanup_record node epoch r report)) r"
  by (simp add: terminates_def persisted_record_def cleanup_record_def)

lemma recover_candidates_no_panic:
  "(\<forall>c\<in>set cs. candidate_ok c) \<Longrightarrow>
     fst (recover_candidates print cleanup os node epoch k blocked cs fl) \<noteq> Panic msg"
proof (induction cs arbitrary: k blocked fl)
  case (Cons c cs)
  show ?case
  proof (cases "rc_classification c = CStale")
    case True
    have "candidate_ok c" using Cons.prems by simp
    then show ?thesis
      by (rule clean_stale_cases [OF _ True, of print cleanup "os k" node epoch fl])
        (use Cons True in simp_all)
  next
    case False
    then show ?thesis using Cons by (cases "rc_classification c") simp_all
  qed
qed simp

lemma recover_candidates_blocked:
  "fst (recover_candidates print cleanup os node epoch k (Some b) cs fl) \<noteq> Return (Inr None)"
proof (induction cs arbitrary: k b fl)
  case (Cons c cs)
  then show ?case
    by (auto split: recovery_classification.splits prod.splits run.splits sum.splits simp del: not_None_eq)
qed simp

text \<open>A run that is not blocked cleaned every candidate and recorded its termination, one record each.\<close>

fun boundary_records ::
    "(runtime_process_evidence \<Rightarrow> provider_error + cleanup_report) \<Rightarrow> (nat \<Rightarrow> u64 \<times> write_outcome) \<Rightarrow>
     string \<Rightarrow> u64 \<Rightarrow> nat \<Rightarrow> recovery_candidate list \<Rightarrow> persisted_runtime_record list" where
  "boundary_records cleanup os node epoch k [] = []"
| "boundary_records cleanup os node epoch k (c # cs) =
     (case rc_record c of
        None \<Rightarrow> []
      | Some r \<Rightarrow>
          (case rc_observed c of
             None \<Rightarrow> []
           | Some ev \<Rightarrow>
               (case cleanup ev of
                  Inl _ \<Rightarrow> []
                | Inr report \<Rightarrow> [persisted_record (fst (os k)) (cleanup_record node epoch r report)]))) @
     boundary_records cleanup os node epoch (Suc k) cs"

lemma recover_candidates_unblocked:
  assumes "recover_candidates print cleanup os node epoch k None cs (Some fl) = (Return (Inr None), fl')"
    and "\<forall>c\<in>set cs. candidate_ok c"
  shows "fl' = Some (fl @ journal_of print (boundary_records cleanup os node epoch k cs)) \<and>
    list_all2 (\<lambda>c w. rc_classification c = CStale \<and>
      (\<exists>r ev report. rc_record c = Some r \<and> rc_observed c = Some ev \<and> cleanup ev = Inr report \<and>
         cr_complete report \<and> terminates node w r)) cs (boundary_records cleanup os node epoch k cs)"
  using assms
proof (induction cs arbitrary: k fl)
  case (Cons c cs)
  have stale: "rc_classification c = CStale"
    using Cons.prems(1) recover_candidates_blocked [of print cleanup os node epoch k _ cs "Some fl"]
    by (cases "rc_classification c") (auto simp: prod_eq_iff)
  have "candidate_ok c" using Cons.prems(2) by simp
  then show ?case
  proof (rule clean_stale_cases [OF _ stale, of print cleanup "os k" node epoch "Some fl"])
    fix e g
    assume "clean_stale print cleanup (os k) node epoch c (Some fl) = (Return (Inl e), g)"
    then show ?thesis using Cons.prems(1) stale by simp
  next
    fix r ev report
    let ?w = "persisted_record (fst (os k)) (cleanup_record node epoch r report)"
    assume c: "rc_record c = Some r" "rc_observed c = Some ev" "cleanup ev = Inr report"
      "cr_complete report"
      and run: "clean_stale print cleanup (os k) node epoch c (Some fl) = (Return (Inr ()),
        Some ((case Some fl of None \<Rightarrow> [] | Some s \<Rightarrow> s) @ journal_of print [?w]))"
    have "recover_candidates print cleanup os node epoch (Suc k) None cs
        (Some (fl @ journal_of print [?w])) = (Return (Inr None), fl')"
      using Cons.prems(1) stale run by simp
    note ih = Cons.IH [OF this]
    have "terminates node ?w r" by (rule cleanup_record_terminates [OF c(4)])
    then show ?thesis using ih Cons.prems(2) c stale by (auto simp: journal_of_def)
  qed
qed simp

lemma live_append:
  assumes "\<forall>w\<in>set ws. pr_event w \<noteq> ''INSTANCE_LAUNCHED''"
  shows "live node (rs @ ws) p \<longleftrightarrow> live node rs p \<and> (\<forall>w\<in>set ws. \<not> closes node w p)"
  using assms
proof (induction ws rule: rev_induct)
  case (snoc w ws)
  have "\<not> launches node w p" using snoc.prems by (simp add: launches_def)
  then show ?case using snoc live_snoc [of node "rs @ ws" w p] by auto
qed simp

lemma terminates_closes: "terminates node w p \<Longrightarrow> closes node w p"
  by (simp add: terminates_def closes_def ends_def)

section \<open>Event replay\<close>

type_synonym journal_item = "u64 \<times> (runtime_journal_record + durable_event_record)"

definition item_record :: "journal_item \<Rightarrow> persisted_runtime_record" where
  "item_record item =
     (case snd item of Inl r \<Rightarrow> persisted_record (fst item) r | Inr d \<Rightarrow> persisted_event (fst item) d)"

definition item_events :: "journal_item list \<Rightarrow> durable_event_record list" where
  "item_events items =
     List.map_filter (\<lambda>item. case snd item of Inl _ \<Rightarrow> None | Inr d \<Rightarrow> Some d) items"

definition write_item ::
    "(persisted_runtime_record \<Rightarrow> string) \<Rightarrow> journal_item \<Rightarrow> journal_file \<Rightarrow> journal_file" where
  "write_item print item file =
     (case snd item of
        Inl r \<Rightarrow> snd (journal_append print Written (fst item) r file)
      | Inr d \<Rightarrow> snd (append_event print Written (fst item) d file))"

definition event_valid :: "durable_event_record \<Rightarrow> bool" where
  "event_valid d \<longleftrightarrow> is_ok (NamespaceId_new (de_namespace d)) \<and> Event_validate (de_event d) = Inr ()"

definition event_key_of :: "durable_event_record \<Rightarrow> event_key" where
  "event_key_of d =
     (de_namespace d, ident_id (ev_source (de_event d)), ident_generation (ev_source (de_event d)))"

definition events_ordered :: "durable_event_record list \<Rightarrow> bool" where
  "events_ordered ds \<longleftrightarrow>
     sorted_wrt (\<lambda>a b. event_key_of a = event_key_of b \<longrightarrow>
       ev_sequence (de_event a) < ev_sequence (de_event b)) ds"

definition from_source :: "identity \<Rightarrow> string \<Rightarrow> durable_event_record \<Rightarrow> bool" where
  "from_source source namespace d \<longleftrightarrow> de_namespace d = namespace \<and> ev_source (de_event d) = source"

lemma event_name_not_semantic: "event_name e \<noteq> ''SEMANTIC_EVENT''"
  by (cases e) simp_all

lemma restored_persisted:
  "pr_semantic_event (persisted_event now d) = Some s \<Longrightarrow> restored_event s = d"
  by (auto simp: persisted_event_def restored_event_def Let_def)

lemma replay_step_record: "replay_step source ns st (persisted_record now r) = Inr st"
  by (simp add: replay_step_def persisted_record_def event_name_not_semantic)

lemma replay_step_event:
  assumes "event_valid d"
    and "\<And>s. map_of previous (event_key_of d) = Some s \<Longrightarrow> s < ev_sequence (de_event d)"
  shows "replay_step source ns (events, previous) (persisted_event now d) =
    Inr (if from_source source ns d then events @ [d] else events,
         bm_insert (event_key_of d) (ev_sequence (de_event d)) previous)"
proof -
  obtain s where s: "pr_semantic_event (persisted_event now d) = Some s" "pse_namespace s = de_namespace d"
    by (simp add: persisted_event_def Let_def)
  have node: "pr_node_id (persisted_event now d) = ident_id (ev_source (de_event d))"
    "pr_node_epoch (persisted_event now d) = ident_generation (ev_source (de_event d))"
    "pr_event (persisted_event now d) = ''SEMANTIC_EVENT''"
    by (simp_all add: persisted_event_def Let_def)
  have "\<exists>n. NamespaceId_new (de_namespace d) = Inr n" "Event_validate (de_event d) = Inr ()"
    using assms(1) by (auto simp: event_valid_def is_ok_def split: sum.splits)
  then show ?thesis
    using assms(2)
    by (auto simp: replay_step_def replay_event_def s node restored_persisted [OF s(1)] Let_def
        bind_res_def map_err_def event_key_of_def from_source_def split: option.splits)
qed

lemma item_events_snoc:
  "item_events (items @ [item]) =
     item_events items @ (case snd item of Inl _ \<Rightarrow> [] | Inr d \<Rightarrow> [d])"
  by (simp add: item_events_def List.map_filter_def split: sum.splits)

lemma replay_fold:
  assumes "\<forall>d\<in>set (item_events items). event_valid d" and "events_ordered (item_events items)"
  shows "\<exists>previous. fold_res (replay_step source ns) ([], []) (map item_record items) =
      Inr (filter (from_source source ns) (item_events items), previous) \<and>
    (\<forall>k s. map_of previous k = Some s \<longrightarrow>
       (\<exists>d\<in>set (item_events items). event_key_of d = k \<and> ev_sequence (de_event d) = s))"
  using assms
proof (induction items rule: rev_induct)
  case Nil
  then show ?case by (simp add: item_events_def List.map_filter_def)
next
  case (snoc item items)
  have "\<forall>d\<in>set (item_events items). event_valid d" "events_ordered (item_events items)"
    using snoc.prems by (auto simp: item_events_snoc events_ordered_def sorted_wrt_append)
  from snoc.IH [OF this] obtain previous where
    fold: "fold_res (replay_step source ns) ([], []) (map item_record items) =
      Inr (filter (from_source source ns) (item_events items), previous)"
    and prev: "\<And>k s. map_of previous k = Some s \<Longrightarrow>
      \<exists>d\<in>set (item_events items). event_key_of d = k \<and> ev_sequence (de_event d) = s"
    by blast
  show ?case
  proof (cases "snd item")
    case (Inl r)
    then have "item_record item = persisted_record (fst item) r" by (simp add: item_record_def)
    then show ?thesis using fold prev Inl
      by (simp add: fold_res_snoc bind_res_def replay_step_record item_events_snoc)
  next
    case (Inr d)
    have rec: "item_record item = persisted_event (fst item) d" using Inr by (simp add: item_record_def)
    have valid: "event_valid d" using snoc.prems(1) Inr by (simp add: item_events_snoc)
    have fresh: "s < ev_sequence (de_event d)" if "map_of previous (event_key_of d) = Some s" for s
      using prev [OF that] snoc.prems(2) Inr
      by (auto simp: item_events_snoc events_ordered_def sorted_wrt_append)
    note step = replay_step_event [OF valid fresh]
    have "\<exists>e\<in>set (item_events items @ [d]). event_key_of e = k \<and> ev_sequence (de_event e) = s"
      if "map_of (bm_insert (event_key_of d) (ev_sequence (de_event d)) previous) k = Some s" for k s
      using that prev by (cases "k = event_key_of d") auto
    then show ?thesis using fold Inr
      by (auto simp: fold_res_snoc bind_res_def rec step item_events_snoc)
  qed
qed

lemma write_item_valid:
  assumes "\<forall>d\<in>set (item_events [item]). event_valid d"
  shows "write_item print item f =
    Some ((case f of None \<Rightarrow> [] | Some s \<Rightarrow> s) @ journal_of print [item_record item])"
proof (cases "snd item")
  case (Inl r)
  then show ?thesis
    by (simp add: write_item_def item_record_def journal_append_def append_persisted_def Let_def
        journal_of_def split: prod.splits)
next
  case (Inr d)
  then have "event_valid d" using assms by (simp add: item_events_def List.map_filter_def)
  then obtain n where "NamespaceId_new (de_namespace d) = Inr n" "Event_validate (de_event d) = Inr ()"
    by (auto simp: event_valid_def is_ok_def split: sum.splits)
  then show ?thesis using Inr
    by (simp add: write_item_def item_record_def append_event_def append_persisted_def Let_def
        journal_of_def)
qed

lemma write_items_valid:
  assumes "\<forall>d\<in>set (item_events items). event_valid d" and "items \<noteq> []"
  shows "fold (write_item print) items None = Some (journal_of print (map item_record items))"
  using assms
proof (induction items rule: rev_induct)
  case (snoc item items)
  have v: "\<forall>d\<in>set (item_events [item]). event_valid d"
    and vs: "\<forall>d\<in>set (item_events items). event_valid d"
    using snoc.prems(1) by (auto simp: item_events_def List.map_filter_def split: sum.splits)
  show ?case
    using snoc.IH [OF vs] by (cases "items = []") (simp_all add: write_item_valid [OF v] journal_of_append)
qed simp

section \<open>Properties\<close>

text \<open>A small journal and codec for the examples.\<close>

definition jx_evidence :: runtime_process_evidence where
  "jx_evidence = \<lparr>rpe_cgroup_name = ''cg'', rpe_pid = 7, rpe_start_time_ticks = 9\<rparr>"

definition jx_launched :: persisted_runtime_record where
  "jx_launched =
     \<lparr>pr_observed_at_millis = 1, pr_event = ''INSTANCE_LAUNCHED'', pr_node_id = ''n'', pr_node_epoch = 5,
      pr_instance_name = Some ''w'', pr_lease_name = Some ''l'', pr_fence_token = Some 3,
      pr_reason_code = ''OK'', pr_runtime_evidence = Some jx_evidence, pr_semantic_event = None\<rparr>"

definition jx_started :: persisted_runtime_record where
  "jx_started = epoch_record 8 ''n'' 8"

definition jx_report :: cleanup_report where
  "jx_report = \<lparr>cr_complete = True, cr_exit_code = None, cr_oom_killed = False, cr_conditions = [],
                cr_reason_code = ''DONE''\<rparr>"

definition jx_terminated :: persisted_runtime_record where
  "jx_terminated = persisted_record 9 (cleanup_record ''n'' 8 (launched_process ''w'' jx_launched) jx_report)"

definition jx_event :: durable_event_record where
  "jx_event = \<lparr>de_namespace = ''default'',
     de_event = \<lparr>ev_sequence = 1, ev_source = Identity ''n'' 8, ev_subject = Identity ''w'' 1,
       ev_kind = ''cyrene.worker.started'', ev_observed_at_unix_ms = 10, ev_schema_id = ''cyrene.event'',
       ev_body = [1, 2]\<rparr>\<rparr>"

definition jx_print :: "persisted_runtime_record \<Rightarrow> string" where
  "jx_print r =
     (if pr_event r = ''INSTANCE_LAUNCHED'' then ''L''
      else if pr_event r = ''INSTANCE_TERMINATED'' then ''T''
      else if pr_event r = ''SEMANTIC_EVENT'' then ''E'' else ''K'')"

definition jx_parse :: "string \<Rightarrow> string + persisted_runtime_record" where
  "jx_parse s =
     (if s = ''L'' then Inr jx_launched else if s = ''T'' then Inr jx_terminated
      else if s = ''K'' then Inr jx_started
      else if s = ''E'' then Inr (persisted_event 10 jx_event) else Inl ''EOF'')"

lemmas jx_defs = jx_evidence_def jx_launched_def jx_started_def jx_report_def jx_terminated_def
  jx_event_def jx_print_def jx_parse_def epoch_record_def persisted_record_def cleanup_record_def
  launched_process_def persisted_event_def

lemma jx_codec_ok: "codec_ok jx_parse jx_print [jx_launched, jx_started, jx_terminated, persisted_event 10 jx_event]"
  by (simp add: codec_ok_def jx_defs newline_def byte_def Let_def)

lemma jx_codec_sub: "set rs \<subseteq> set [jx_launched, jx_started, jx_terminated, persisted_event 10 jx_event] \<Longrightarrow>
    codec_ok jx_parse jx_print rs"
  using jx_codec_ok unfolding codec_ok_def by blast

lemma jx_torn: "torn_tail jx_parse ''{''"
  by (simp add: torn_tail_def jx_parse_def newline_def byte_def)

text \<open>C21. Startup recovery of a journal made of complete records, possibly followed by the
  fragment of an interrupted write, returns exactly the processes that the records of this
  node launch and no later record replaces, terminates or reaps, each name once; the node's
  largest recorded epoch; and a fence token above every fence the node ever recorded.\<close>

theorem recover_exact:
  assumes "codec_ok parse print rs" and "torn_tail parse tail"
  shows "\<exists>st. recover parse None node (Some (journal_of print rs @ tail)) = Inr st \<and>
    set (rs_runtime_processes st) = {p. live node rs p} \<and>
    distinct (map rp_instance_name (rs_runtime_processes st)) \<and>
    rs_node_epoch st = recorded_epoch node rs \<and> 0 < rs_next_fence_token st \<and>
    (\<forall>r\<in>set rs. \<forall>f. pr_node_id r = node \<longrightarrow> pr_fence_token r = Some f \<longrightarrow> f \<noteq> - 1 \<longrightarrow>
       f < rs_next_fence_token st)"
proof -
  obtain st where st: "recover parse None node (Some (journal_of print rs @ tail)) = Inr st"
    "rs_node_epoch st = recorded_epoch node rs"
    "rs_next_fence_token st = max (saturating_add (recorded_fence node rs) 1) 1"
    "set (rs_runtime_processes st) = {p. live node rs p}"
    "distinct (map rp_instance_name (rs_runtime_processes st))"
    by (rule recover_journal [OF assms])
  have "0 < rs_next_fence_token st"
    unfolding st(3) by (simp add: less_max_iff_disj saturating_add_one_pos)
  then show ?thesis using st next_fence_above by auto
qed

theorem recover_exact_witness:
  "\<exists>st. recover jx_parse None ''n'' (Some (journal_of jx_print [jx_launched, jx_started] @ ''{'')) = Inr st \<and>
     launched_process ''w'' jx_launched \<in> set (rs_runtime_processes st) \<and> 3 < rs_next_fence_token st"
proof -
  have codec: "codec_ok jx_parse jx_print [jx_launched, jx_started]" by (rule jx_codec_sub) simp
  have "live ''n'' ([] @ jx_launched # [jx_started]) (launched_process ''w'' jx_launched)"
    unfolding live_def
    by (intro exI conjI, rule refl) (simp_all add: launches_def closes_def jx_defs)
  then have "live ''n'' [jx_launched, jx_started] (launched_process ''w'' jx_launched)" by simp
  moreover have "jx_launched \<in> set [jx_launched, jx_started]" "pr_node_id jx_launched = ''n''"
    "pr_fence_token jx_launched = Some 3" "(3 :: u64) \<noteq> - 1" by (simp_all add: jx_defs)
  ultimately show ?thesis using recover_exact [OF codec jx_torn, of "''n''"] by blast
qed

text \<open>C23. Starting a new epoch on an intact journal records an epoch that is at least the
  clock and strictly above every epoch this node recorded before, and the next recovery
  reads that epoch back.\<close>

theorem restart_epoch_increases:
  assumes "codec_ok parse print (rs @ [epoch_record now' node (restart_epoch now node rs)])"
  shows "\<exists>st fl. begin_epoch parse print None Written now now' node (Some (journal_of print rs)) =
      (Inr st, Some fl) \<and> now \<le> rs_node_epoch st \<and>
    (\<forall>r\<in>set rs. pr_node_id r = node \<longrightarrow> pr_node_epoch r \<noteq> - 1 \<longrightarrow> pr_node_epoch r < rs_node_epoch st) \<and>
    (\<exists>st'. recover parse None node (Some fl) = Inr st' \<and> rs_node_epoch st' = rs_node_epoch st)"
proof -
  let ?e = "epoch_record now' node (restart_epoch now node rs)"
  have codec: "codec_ok parse print rs" using assms by (simp add: codec_ok_append)
  obtain st where st: "begin_epoch parse print None Written now now' node (Some (journal_of print rs @ [])) =
      (Inr st, Some (journal_of print rs @ [] @ print ?e @ [newline]))"
    "rs_node_epoch st = restart_epoch now node rs"
    by (rule begin_epoch_journal [OF codec torn_tail_Nil])
  obtain st' where st': "recover parse None node (Some (journal_of print (rs @ [?e]) @ [])) = Inr st'"
    "rs_node_epoch st' = recorded_epoch node (rs @ [?e])"
    by (rule recover_journal [OF assms torn_tail_Nil])
  have "recorded_epoch node rs \<le> restart_epoch now node rs"
    by (simp add: restart_epoch_def saturating_add_ge le_max_iff_disj)
  then have "recorded_epoch node (rs @ [?e]) = restart_epoch now node rs"
    by (simp add: recorded_epoch_def epoch_record_def max_absorb1)
  moreover have "now \<le> rs_node_epoch st" by (simp add: st(2) restart_epoch_def)
  ultimately show ?thesis
    using st st' restart_epoch_above [of _ rs node now] by (auto simp: journal_of_append journal_of_Cons)
qed

theorem restart_epoch_increases_witness:
  "\<exists>st fl. begin_epoch jx_parse jx_print None Written 8 8 ''n'' (Some (journal_of jx_print [jx_launched])) =
     (Inr st, Some fl) \<and> 8 \<le> rs_node_epoch st"
proof -
  have "restart_epoch 8 ''n'' [jx_launched] = 8"
    by (simp add: restart_epoch_def recorded_epoch_def jx_launched_def saturating_add_def word_le_nat_alt max_def)
  then have "codec_ok jx_parse jx_print ([jx_launched] @ [epoch_record 8 ''n'' (restart_epoch 8 ''n'' [jx_launched])])"
    by (simp add: jx_codec_sub flip: jx_started_def)
  from restart_epoch_increases [OF this] show ?thesis by blast
qed

text \<open>C24. An interrupted write is tolerated once and then makes the journal unreadable for good. The
  restart that ignores the fragment succeeds and appends its own record to the same line. From then
  on, whatever bytes are appended to the file and whichever node reads it, recovery fails and no
  epoch begins; read without fault and as UTF-8, the error is that of the merged line. The hypothesis
  on the codec says that the fragment followed by a record is not a record.\<close>

theorem torn_write_blocks_restart:
  assumes "codec_ok parse print rs" and "torn_tail parse tail"
    and "codec_ok parse print [epoch_record now' node (restart_epoch now node rs)]"
    and "parse (tail @ print (epoch_record now' node (restart_epoch now node rs))) = Inl e"
  shows "\<exists>st fl. begin_epoch parse print None Written now now' node
      (Some (journal_of print rs @ tail)) = (Inr st, Some fl) \<and>
    (\<forall>later node2 fault outc t t'. \<exists>err. recover parse fault node2 (Some (fl @ later)) = Inl err \<and>
       begin_epoch parse print fault outc t t' node2 (Some (fl @ later)) = (Inl err, Some (fl @ later)) \<and>
       (fault = None \<and> utf8_valid later \<longrightarrow> err = ''invalid runtime journal record: '' @ e))"
proof -
  let ?r = "print (epoch_record now' node (restart_epoch now node rs))"
  let ?fl = "journal_of print rs @ tail @ ?r @ [newline]"
  obtain st where st: "begin_epoch parse print None Written now now' node (Some (journal_of print rs @ tail)) =
      (Inr st, Some ?fl)"
    by (rule begin_epoch_journal [OF assms(1,2)])
  have line: "newline \<notin> set (tail @ ?r)" "tail @ ?r \<noteq> []" "last (tail @ ?r) \<noteq> CHR 0x0D" "utf8_valid (tail @ ?r)"
    using assms(2,3) by (auto simp: torn_tail_def codec_ok_def utf8_valid_append)
  have bad: "recover parse None node2 (Some (?fl @ later)) = Inl (''invalid runtime journal record: '' @ e)"
    if "utf8_valid later" for node2 later
    using corrupt_line [OF assms(1) line(1-3) assms(4) line(4) that, of node2] by simp
  have utf8: "utf8_valid (?fl @ later) = utf8_valid later" for later
    using utf8_valid_journal [OF assms(1), of "(tail @ ?r) @ newline # later"]
      utf8_valid_append [OF line(4), of "newline # later"] utf8_valid_newline [of later] by simp
  have fails: "\<exists>err. recover parse fault node2 (Some (?fl @ later)) = Inl err \<and>
      (fault = None \<and> utf8_valid later \<longrightarrow> err = ''invalid runtime journal record: '' @ e)" for fault node2 later
  proof (cases fault)
    case (Some x)
    then show ?thesis by (simp add: recover_def read_to_string_def bind_res_def)
  next
    case None
    show ?thesis
    proof (cases "utf8_valid later")
      case True
      then show ?thesis using bad None by blast
    next
      case False
      then have "\<not> utf8_valid (?fl @ later)" using utf8 by blast
      then have "recover parse None node2 (Some (?fl @ later)) = Inl ''stream did not contain valid UTF-8''"
        unfolding recover_def read_to_string_def by (simp only: option.case if_False bind_res_simps)
      then show ?thesis using None False by blast
    qed
  qed
  have "\<exists>err. recover parse fault node2 (Some (?fl @ later)) = Inl err \<and>
       begin_epoch parse print fault outc t t' node2 (Some (?fl @ later)) = (Inl err, Some (?fl @ later)) \<and>
       (fault = None \<and> utf8_valid later \<longrightarrow> err = ''invalid runtime journal record: '' @ e)"
    for later node2 fault outc t t'
  proof -
    obtain err where r: "recover parse fault node2 (Some (?fl @ later)) = Inl err"
      "fault = None \<and> utf8_valid later \<longrightarrow> err = ''invalid runtime journal record: '' @ e"
      using fails by blast
    moreover have "begin_epoch parse print fault outc t t' node2 (Some (?fl @ later)) = (Inl err, Some (?fl @ later))"
      unfolding begin_epoch_def r(1) by (simp only: sum.case)
    ultimately show ?thesis by blast
  qed
  then show ?thesis using st by blast
qed

theorem torn_write_blocks_restart_witness:
  "\<exists>st fl. begin_epoch jx_parse jx_print None Written 8 8 ''n''
      (Some (journal_of jx_print [jx_launched] @ ''{'')) = (Inr st, Some fl) \<and>
    recover jx_parse None ''m'' (Some (fl @ journal_of jx_print [jx_terminated])) =
      Inl (''invalid runtime journal record: '' @ ''EOF'')"
proof -
  have e: "restart_epoch 8 ''n'' [jx_launched] = 8"
    by (simp add: restart_epoch_def recorded_epoch_def jx_launched_def saturating_add_def word_le_nat_alt max_def)
  have 1: "codec_ok jx_parse jx_print [jx_launched]" by (rule jx_codec_sub) simp
  have 2: "codec_ok jx_parse jx_print [epoch_record 8 ''n'' (restart_epoch 8 ''n'' [jx_launched])]"
    unfolding e jx_started_def [symmetric] by (rule jx_codec_sub) simp
  have 3: "jx_parse (''{'' @ jx_print (epoch_record 8 ''n'' (restart_epoch 8 ''n'' [jx_launched]))) = Inl ''EOF''"
    unfolding e by (simp add: jx_parse_def jx_print_def epoch_record_def)
  have "codec_ok jx_parse jx_print [jx_terminated]" by (rule jx_codec_sub) simp
  then have u: "utf8_valid (journal_of jx_print [jx_terminated])"
    using utf8_valid_journal [of jx_parse jx_print "[jx_terminated]" "[]"] by simp
  obtain st fl where fl: "begin_epoch jx_parse jx_print None Written 8 8 ''n''
      (Some (journal_of jx_print [jx_launched] @ ''{'')) = (Inr st, Some fl)"
    and all: "\<forall>later node2 fault outc t t'. \<exists>err. recover jx_parse fault node2 (Some (fl @ later)) = Inl err \<and>
       begin_epoch jx_parse jx_print fault outc t t' node2 (Some (fl @ later)) = (Inl err, Some (fl @ later)) \<and>
       (fault = None \<and> utf8_valid later \<longrightarrow> err = ''invalid runtime journal record: '' @ ''EOF'')"
    using torn_write_blocks_restart [OF 1 jx_torn 2 3] by blast
  from all u have "recover jx_parse None ''m'' (Some (fl @ journal_of jx_print [jx_terminated])) =
      Inl (''invalid runtime journal record: '' @ ''EOF'')" by blast
  with fl show ?thesis by blast
qed

text \<open>A write interrupted inside a multi-byte character is not tolerated: the fragment is
  not UTF-8, so reading the file fails before the rule for an incomplete last line applies.\<close>

theorem torn_character_blocks_restart:
  assumes "codec_ok parse print rs" and "\<not> utf8_valid tail"
  shows "recover parse None node (Some (journal_of print rs @ tail)) =
    Inl ''stream did not contain valid UTF-8''"
  using assms by (simp add: recover_def read_to_string_def utf8_valid_journal bind_res_def)

theorem torn_character_blocks_restart_witness:
  "recover jx_parse None ''n'' (Some (journal_of jx_print [jx_launched] @ [CHR 0x7B, CHR 0xE4])) =
     Inl ''stream did not contain valid UTF-8''"
  by (rule torn_character_blocks_restart)
    (rule jx_codec_sub, simp, simp add: byte_def)

text \<open>Classification loses and invents nothing: the candidates' observations are the
  observed processes in order, their records are the recorded processes as a multiset; a
  candidate with both is a recorded process seen with exactly its evidence, stale when its
  epoch is older than the new one and valid otherwise; and no process that stays unknown has
  the evidence of an observation judged foreign.\<close>

theorem classification_partitions:
  "(\<forall>c\<in>set (classify_recovery st obs). stale_or_valid st c \<or> foreign c \<or> unknown c) \<and>
   mset (List.map_filter rc_record (classify_recovery st obs)) = mset (rs_runtime_processes st) \<and>
   List.map_filter rc_observed (classify_recovery st obs) = obs \<and>
   (\<forall>c\<in>set (classify_recovery st obs). \<forall>d\<in>set (classify_recovery st obs).
      foreign c \<longrightarrow> unknown d \<longrightarrow> rp_runtime_evidence (the (rc_record d)) \<noteq> rc_observed c)"
  by (rule classify_recovery_spec)

theorem classification_partitions_witness:
  "mset (List.map_filter rc_record (classify_recovery
      \<lparr>rs_node_epoch = 8, rs_next_fence_token = 4, rs_runtime_processes = [launched_process ''w'' jx_launched]\<rparr>
      [jx_evidence])) = {#launched_process ''w'' jx_launched#}"
  using classification_partitions
    [of "\<lparr>rs_node_epoch = 8, rs_next_fence_token = 4, rs_runtime_processes = [launched_process ''w'' jx_launched]\<rparr>"
      "[jx_evidence]"] by simp

text \<open>The startup boundary never panics: whatever is recovered and observed, and however
  cleanup and writes turn out, both \<open>expect\<close> calls succeed.\<close>

theorem startup_never_panics:
  "fst (recover_before_listeners print discovered cleanup os node st fl) \<noteq> Panic msg"
proof (cases discovered)
  case (Inr obs)
  obtain res fl' where run: "recover_candidates print cleanup os node (rs_node_epoch st) 0 None
      (classify_recovery st obs) fl = (res, fl')" by (meson surj_pair)
  have "res \<noteq> Panic m" for m
    using recover_candidates_no_panic [of "classify_recovery st obs" print cleanup os node
        "rs_node_epoch st" 0 None fl m] run classified_candidate_ok by auto
  then show ?thesis
    by (auto simp: recover_before_listeners_def Inr run split: run.splits sum.splits option.splits)
qed (simp add: recover_before_listeners_def)

lemma recover_before_listeners_Inr:
  assumes "recover_before_listeners print discovered cleanup os node st (Some fl) = (Return (Inr ()), fl')"
  obtains obs ws where "discovered = Inr obs"
    and "ws = boundary_records cleanup os node (rs_node_epoch st) 0 (classify_recovery st obs)"
    and "fl' = Some (fl @ journal_of print ws)"
    and "list_all2 (\<lambda>c w. rc_classification c = CStale \<and>
      (\<exists>r ev report. rc_record c = Some r \<and> rc_observed c = Some ev \<and> cleanup ev = Inr report \<and>
         cr_complete report \<and> terminates node w r)) (classify_recovery st obs) ws"
proof -
  obtain obs where obs: "discovered = Inr obs"
    using assms by (cases discovered) (simp_all add: recover_before_listeners_def)
  have "recover_candidates print cleanup os node (rs_node_epoch st) 0 None (classify_recovery st obs)
      (Some fl) = (Return (Inr None), fl')"
    using assms
    by (auto simp: recover_before_listeners_def obs split: prod.splits run.splits sum.splits option.splits)
  from recover_candidates_unblocked [OF this] classified_candidate_ok show thesis
    using that obs by blast
qed

lemma stale_candidate_of_process:
  assumes "p \<in> set (rs_runtime_processes st)"
  obtains c where "c \<in> set (classify_recovery st obs)" and "rc_record c = Some p"
proof -
  have "p \<in># mset (List.map_filter rc_record (classify_recovery st obs))"
    using assms classify_recovery_spec [of st obs] by simp
  then show thesis using that by (auto simp: List.map_filter_def)
qed

lemma stale_candidate_evidence:
  assumes "c \<in> set (classify_recovery st obs)" "rc_classification c = CStale" "rc_record c = Some p"
    "rc_observed c = Some ev"
  shows "rp_runtime_evidence p = Some ev" and "rp_node_epoch p < rs_node_epoch st"
  using assms classify_recovery_spec [of st obs]
  by (auto simp: stale_or_valid_def foreign_def unknown_def split: if_splits)

lemma map_filter_total: "\<forall>x\<in>set xs. f x \<noteq> None \<Longrightarrow> length (List.map_filter f xs) = length xs"
  by (induction xs) (auto simp: map_filter_simps)

lemma candidate_observed:
  assumes "c \<in> set (classify_recovery st obs)" and "rc_observed c = Some ev"
  shows "ev \<in> set obs"
proof -
  have "ev \<in> set (List.map_filter rc_observed (classify_recovery st obs))"
    using assms by (force simp: List.map_filter_def)
  then show ?thesis using classify_recovery_spec [of st obs] by simp
qed

text \<open>C19. The listeners open only over a clean slate. If a new epoch begins on an intact journal and the
  startup boundary succeeds, then the sandbox listed its processes, and every process the journal left
  running is among them with exactly its recorded evidence, belongs to an older epoch and was cleaned
  completely. The boundary appends to the epoch record exactly one termination record for each listed
  process; and as the codec reads these records back, the journal it leaves recovers to no running
  process.\<close>

theorem startup_clears_processes:
  assumes "codec_ok parse print rs"
    and "begin_epoch parse print None Written now now' node (Some (journal_of print rs)) = (Inr st, fl)"
    and "recover_before_listeners print discovered cleanup os node st fl = (Return (Inr ()), fl')"
    and "\<And>obs. discovered = Inr obs \<Longrightarrow> codec_ok parse print
      (epoch_record now' node (restart_epoch now node rs) #
        boundary_records cleanup os node (rs_node_epoch st) 0 (classify_recovery st obs))"
  shows "\<exists>obs ws. discovered = Inr obs \<and>
    ws = boundary_records cleanup os node (rs_node_epoch st) 0 (classify_recovery st obs) \<and>
    (\<forall>p. live node rs p \<longrightarrow> rp_node_epoch p < rs_node_epoch st \<and>
      (\<exists>ev\<in>set obs. rp_runtime_evidence p = Some ev \<and>
         (\<exists>report. cleanup ev = Inr report \<and> cr_complete report))) \<and>
    fl' = Some (journal_of print (rs @ epoch_record now' node (restart_epoch now node rs) # ws)) \<and>
    length ws = length obs \<and> (\<forall>w\<in>set ws. pr_event w = ''INSTANCE_TERMINATED'') \<and>
    (\<exists>st'. recover parse None node fl' = Inr st' \<and> rs_runtime_processes st' = [])"
proof -
  let ?e = "epoch_record now' node (restart_epoch now node rs)"
  obtain st0 where "begin_epoch parse print None Written now now' node (Some (journal_of print rs @ [])) =
      (Inr st0, Some (journal_of print rs @ [] @ print ?e @ [newline]))"
    and "set (rs_runtime_processes st0) = {p. live node rs p}"
    by (rule begin_epoch_journal [OF assms(1) torn_tail_Nil])
  then have fl: "fl = Some (journal_of print (rs @ [?e]))"
    and procs: "set (rs_runtime_processes st) = {p. live node rs p}"
    using assms(2) by (simp_all add: journal_of_append journal_of_Cons)
  obtain obs ws where obs: "discovered = Inr obs"
    and ws: "ws = boundary_records cleanup os node (rs_node_epoch st) 0 (classify_recovery st obs)"
    and fl': "fl' = Some (journal_of print (rs @ [?e]) @ journal_of print ws)"
    and run: "list_all2 (\<lambda>c w. rc_classification c = CStale \<and>
      (\<exists>r ev report. rc_record c = Some r \<and> rc_observed c = Some ev \<and> cleanup ev = Inr report \<and>
         cr_complete report \<and> terminates node w r)) (classify_recovery st obs) ws"
    using assms(3) unfolding fl by (rule recover_before_listeners_Inr)
  have cleaned: "rp_node_epoch p < rs_node_epoch st \<and>
      (\<exists>ev\<in>set obs. rp_runtime_evidence p = Some ev \<and> (\<exists>report. cleanup ev = Inr report \<and> cr_complete report)) \<and>
      (\<exists>w\<in>set ws. terminates node w p)" if "live node rs p" for p
  proof -
    have "p \<in> set (rs_runtime_processes st)" using that procs by simp
    then obtain c where c: "c \<in> set (classify_recovery st obs)" "rc_record c = Some p"
      by (rule stale_candidate_of_process)
    then obtain w ev report where w: "w \<in> set ws" "rc_classification c = CStale" "rc_observed c = Some ev"
      "cleanup ev = Inr report" "cr_complete report" "terminates node w p"
      using run by (fastforce simp: list_all2_conv_all_nth in_set_conv_nth)
    then show ?thesis
      using stale_candidate_evidence [OF c(1) w(2) c(2) w(3)] candidate_observed [OF c(1) w(3)] by blast
  qed
  have events: "\<forall>w\<in>set ws. pr_event w = ''INSTANCE_TERMINATED''"
    using run by (fastforce simp: list_all2_conv_all_nth in_set_conv_nth terminates_def)
  then have "\<forall>w\<in>set (?e # ws). pr_event w \<noteq> ''INSTANCE_LAUNCHED''"
    by (simp add: epoch_record_def)
  from live_append [OF this] have none: "\<not> live node (rs @ ?e # ws) p" for p
    using cleaned [of p] terminates_closes by fastforce
  have filed: "fl' = Some (journal_of print (rs @ ?e # ws))"
    by (simp add: fl' journal_of_append journal_of_Cons)
  have "codec_ok parse print (rs @ ?e # ws)"
    using assms(1) assms(4) [OF obs] by (simp add: codec_ok_append ws)
  from recover_journal [OF this torn_tail_Nil, of node] obtain st' where
    "recover parse None node (Some (journal_of print (rs @ ?e # ws) @ [])) = Inr st'"
    "set (rs_runtime_processes st') = {p. live node (rs @ ?e # ws) p}" by blast
  then have recovered: "\<exists>st'. recover parse None node fl' = Inr st' \<and> rs_runtime_processes st' = []"
    using none filed by simp
  have "\<forall>c\<in>set (classify_recovery st obs). rc_observed c \<noteq> None"
    using run by (fastforce simp: list_all2_conv_all_nth in_set_conv_nth)
  then have "length obs = length (classify_recovery st obs)"
    using map_filter_total [of "classify_recovery st obs" rc_observed] classify_recovery_spec [of st obs] by simp
  then have "length ws = length obs" using list_all2_lengthD [OF run] by simp
  with obs ws cleaned filed events recovered show ?thesis by blast
qed

lemma jx_begin:
  "begin_epoch jx_parse jx_print None Written 8 8 ''n'' (Some (journal_of jx_print [jx_launched])) =
    (Inr \<lparr>rs_node_epoch = 8, rs_next_fence_token = 4,
      rs_runtime_processes = [launched_process ''w'' jx_launched]\<rparr>,
     Some (journal_of jx_print [jx_launched, jx_started]))"
  by (simp add: begin_epoch_def recover_def read_to_string_def bind_res_def str_lines_def strip_cr_def
      ends_with_newline_def recover_step_def bm_values_def append_persisted_def journal_of_def jx_defs
      newline_def byte_def Let_def saturating_add_def word_le_nat_alt max_def)

lemma jx_clean:
  "recover_before_listeners jx_print (Inr [jx_evidence]) (\<lambda>_. Inr jx_report) (\<lambda>_. (9, Written)) ''n''
     \<lparr>rs_node_epoch = 8, rs_next_fence_token = 4,
      rs_runtime_processes = [launched_process ''w'' jx_launched]\<rparr>
     (Some (journal_of jx_print [jx_launched, jx_started])) =
   (Return (Inr ()), Some (journal_of jx_print [jx_launched, jx_started, jx_terminated]))"
  by (simp add: recover_before_listeners_def classify_recovery_def find_unmatched_def clean_stale_def
      journal_append_def append_persisted_def map_err_def journal_of_def jx_defs Let_def word_less_nat_alt)

theorem startup_clears_processes_witness:
  "\<exists>st fl fl' st'. begin_epoch jx_parse jx_print None Written 8 8 ''n'' (Some (journal_of jx_print [jx_launched])) = (Inr st, fl) \<and>
     recover_before_listeners jx_print (Inr [jx_evidence]) (\<lambda>_. Inr jx_report) (\<lambda>_. (9, Written)) ''n'' st fl = (Return (Inr ()), fl') \<and>
     live ''n'' [jx_launched] (launched_process ''w'' jx_launched) \<and>
     rp_runtime_evidence (launched_process ''w'' jx_launched) = Some jx_evidence \<and>
     recover jx_parse None ''n'' fl' = Inr st' \<and> rs_runtime_processes st' = []"
proof -
  let ?st = "\<lparr>rs_node_epoch = 8, rs_next_fence_token = 4, rs_runtime_processes = [launched_process ''w'' jx_launched]\<rparr>"
  have e: "restart_epoch 8 ''n'' [jx_launched] = 8"
    by (simp add: restart_epoch_def recorded_epoch_def jx_launched_def saturating_add_def word_le_nat_alt max_def)
  have ws: "boundary_records (\<lambda>_. Inr jx_report) (\<lambda>_. (9, Written)) ''n'' (rs_node_epoch ?st) 0
      (classify_recovery ?st [jx_evidence]) = [jx_terminated]"
    by (simp add: classify_recovery_def find_unmatched_def jx_defs Let_def word_less_nat_alt)
  have codec: "codec_ok jx_parse jx_print (epoch_record 8 ''n'' (restart_epoch 8 ''n'' [jx_launched]) #
      boundary_records (\<lambda>_. Inr jx_report) (\<lambda>_. (9, Written)) ''n'' (rs_node_epoch ?st) 0 (classify_recovery ?st obs))"
    if "(Inr [jx_evidence] :: provider_error + _) = Inr obs" for obs
  proof -
    have "obs = [jx_evidence]" using that by simp
    then show ?thesis unfolding e jx_started_def [symmetric] by (simp only: ws) (rule jx_codec_sub, simp)
  qed
  have "codec_ok jx_parse jx_print [jx_launched]" by (rule jx_codec_sub) simp
  from startup_clears_processes [OF this jx_begin jx_clean codec]
  obtain st' where "recover jx_parse None ''n'' (Some (journal_of jx_print [jx_launched, jx_started, jx_terminated])) = Inr st'"
    "rs_runtime_processes st' = []" by blast
  moreover have "live ''n'' ([] @ jx_launched # []) (launched_process ''w'' jx_launched)"
    unfolding live_def by (intro exI conjI, rule refl) (simp_all add: launches_def closes_def jx_defs)
  moreover have "rp_runtime_evidence (launched_process ''w'' jx_launched) = Some jx_evidence" by (simp add: jx_defs)
  ultimately show ?thesis using jx_begin jx_clean by fastforce
qed

text \<open>C22. What is appended is replayed. Write any mixture of runtime records and valid semantic
  events, with the sequences of each namespace and source increasing, to a fresh journal;
  replaying a source returns exactly its events of that namespace, in order and unchanged.\<close>

theorem event_replay_roundtrip:
  assumes "codec_ok parse print (map item_record items)"
    and "\<forall>d\<in>set (item_events items). event_valid d" and "events_ordered (item_events items)"
  shows "events_for_source parse None source ns (fold (write_item print) items None) =
    Inr (Some (filter (from_source source ns) (item_events items)))"
proof (cases "items = []")
  case True
  then show ?thesis
    by (simp add: events_for_source_def semantic_events_for_source_def bind_res_def item_events_def
        List.map_filter_def)
next
  case False
  have written: "fold (write_item print) items None = Some (journal_of print (map item_record items) @ [])"
    using write_items_valid [OF assms(2) False] by simp
  obtain previous where "fold_res (replay_step source ns) ([], []) (map item_record items) =
      Inr (filter (from_source source ns) (item_events items), previous)"
    using replay_fold [OF assms(2,3)] by blast
  then show ?thesis unfolding written
    by (simp add: events_for_source_def semantic_events_for_source_def bind_res_def map_err_def
        journal_scan_journal [OF assms(1) torn_tail_Nil, simplified]
        read_journal [OF assms(1) torn_tail_Nil, simplified])
qed

theorem event_replay_roundtrip_witness:
  "events_for_source jx_parse None (Identity ''n'' 8) ''default''
     (fold (write_item jx_print) [(10, Inr jx_event)] None) = Inr (Some [jx_event])"
proof -
  have items: "item_events [(10, Inr jx_event)] = [jx_event]"
    by (simp add: item_events_def map_filter_simps)
  have "codec_ok jx_parse jx_print (map item_record [(10, Inr jx_event)])"
    by (rule jx_codec_sub) (simp add: item_record_def)
  moreover have "event_valid jx_event"
    by (simp add: event_valid_def is_ok_def jx_event_def NamespaceId_new_def is_ascii_alphanumeric_def
        Event_validate_def Identity_validate_Inr validate_namespaced_id_grammar namespaced_grammar_def
        ns_segment_def ns_rest_def is_separator_def is_ascii_lowercase_def is_ascii_uppercase_def
        is_ascii_digit_def contract_limits byte_def)
  ultimately show ?thesis
    using event_replay_roundtrip [of jx_parse jx_print "[(10, Inr jx_event)]" "Identity ''n'' 8" "''default''"]
    unfolding items by (simp add: events_ordered_def from_source_def jx_event_def)
qed

end
