(* ===== verification/Resource_Manager.thy ===== *)
theory Resource_Manager
  imports Kernel_Api
begin

text \<open>
  The in-memory resource ledger (\<open>kernel/crates/cy-resource-manager/src/lib.rs\<close>). Every public
  method takes the state mutex for its whole body, so it is one atomic function from the state
  to a result and a state; each reading of the clock is a parameter. The theory proves the
  ledger's promises over every interleaving of its operations: exclusive allocation, unique and
  advancing fence tokens, and the functional behaviour of each operation.
\<close>

section \<open>State\<close>

record rm_state =
  rm_generation :: u64
  rm_resources :: "(string, resource) btree_map"
  rm_allocated :: "string btree_set"
  rm_quarantined :: "string btree_set"
  rm_leases :: "(string, resource_lease) btree_map"
  rm_next_fence_token :: u64

definition rm_err :: "string \<Rightarrow> string \<Rightarrow> provider_error" where
  "rm_err code msg = provider_err ''resource-manager'' code msg"

definition index_resources :: "resource list \<Rightarrow> (string, resource) btree_map" where
  "index_resources rs = bm_collect (map (\<lambda>r. (ident_id (res_identity r), r)) rs)"

definition with_next_fence_token :: "resource list \<Rightarrow> u64 \<Rightarrow> rm_state" where
  "with_next_fence_token resources next_fence_token =
     \<lparr>rm_generation = 1, rm_resources = index_resources resources, rm_allocated = [],
      rm_quarantined = [], rm_leases = [], rm_next_fence_token = max next_fence_token 1\<rparr>"

definition rm_new :: "resource list \<Rightarrow> rm_state" where
  "rm_new resources = with_next_fence_token resources 1"

section \<open>Inventory\<close>

definition retained_resource :: "resource \<Rightarrow> resource" where
  "retained_resource previous =
     previous\<lparr>res_state := ResourceUnavailable,
              res_reason_code := ''resource-missing-from-provider'',
              res_summary := ''retained only until the active lease is released''\<rparr>"

text \<open>One round of the loop over the allocated ids in \<open>refresh_inventory\<close>.\<close>

definition retain_allocated ::
    "(string, resource) btree_map \<Rightarrow> string \<Rightarrow>
     (string, resource) btree_map \<times> string btree_set \<Rightarrow>
     (string, resource) btree_map \<times> string btree_set" where
  "retain_allocated previous_resources resource_id st =
     (let (resources, quarantined) = st in
      case map_of resources resource_id of
        Some r \<Rightarrow>
          (resources,
           if res_state r \<noteq> ResourceReady then bs_insert resource_id quarantined else quarantined)
      | None \<Rightarrow>
          (case map_of previous_resources resource_id of
             None \<Rightarrow> (resources, quarantined)
           | Some previous \<Rightarrow>
               (bm_insert resource_id (retained_resource previous) resources,
                bs_insert resource_id quarantined)))"

definition refresh_inventory ::
    "inventory_snapshot \<Rightarrow> rm_state \<Rightarrow> (provider_error + unit) \<times> rm_state" where
  "refresh_inventory snapshot s =
     (if inv_generation snapshot = 0
      then (Inl (rm_err ''INVENTORY_GENERATION_INVALID''
                   ''adapter inventory generation must be non-zero''), s)
      else if inv_generation snapshot < rm_generation s
      then (Inl (rm_err ''INVENTORY_GENERATION_REGRESSION''
                   (''incoming='' @ show_u64 (inv_generation snapshot) @
                    '', current='' @ show_u64 (rm_generation s))), s)
      else
        let resources = index_resources (inv_resources snapshot) in
        if inv_generation snapshot = rm_generation s \<and> rm_resources s \<noteq> [] \<and>
           rm_resources s \<noteq> resources
        then (Inl (rm_err ''INVENTORY_GENERATION_CONFLICT''
                     ''adapter changed inventory without advancing generation''), s)
        else
          let (resources, quarantined) =
                fold (retain_allocated (rm_resources s)) (rm_allocated s)
                  (resources, rm_quarantined s);
              quarantined =
                fold (\<lambda>(resource_id, r) q.
                        if res_state r \<noteq> ResourceReady then bs_insert resource_id q else q)
                  resources quarantined
          in (Inr (), s\<lparr>rm_quarantined := filter (bm_contains resources) quarantined,
                        rm_generation := inv_generation snapshot,
                        rm_resources := resources\<rparr>))"

definition to_ascii_lowercase :: "string \<Rightarrow> string" where
  "to_ascii_lowercase s = map (\<lambda>c. if is_ascii_uppercase c then char_of (byte c + 32) else c) s"

definition quarantine :: "string \<Rightarrow> string \<Rightarrow> rm_state \<Rightarrow> (provider_error + unit) \<times> rm_state" where
  "quarantine resource_id reason_code s =
     (case map_of (rm_resources s) resource_id of
        None \<Rightarrow> (Inl (rm_err ''RESOURCE_NOT_FOUND'' resource_id), s)
      | Some r \<Rightarrow>
          (Inr (),
           s\<lparr>rm_resources := bm_update resource_id (\<lambda>r.
               r\<lparr>res_state := ResourceUnavailable,
                 res_reason_code :=
                   map (\<lambda>c. if c = CHR ''_'' then CHR ''-'' else c) (to_ascii_lowercase reason_code),
                 res_summary := ''resource was quarantined by the Kernel authority''\<rparr>)
               (rm_resources s),
             rm_quarantined := bs_insert resource_id (rm_quarantined s)\<rparr>))"

definition resource_is_allocated :: "string \<Rightarrow> rm_state \<Rightarrow> bool" where
  "resource_is_allocated resource_id s \<longleftrightarrow> resource_id \<in> set (rm_allocated s)"

definition inventory :: "rm_state \<Rightarrow> inventory_snapshot" where
  "inventory s =
     \<lparr>inv_generation = rm_generation s, inv_resources = bm_values (rm_resources s),
      inv_capabilities =
        \<lparr>nc_ready = (rm_quarantined s = []), nc_facts = [], nc_enforcement = []\<rparr>\<rparr>"

section \<open>Leases\<close>

definition expire_lease :: "u64 \<Rightarrow> resource_lease \<Rightarrow> resource_lease" where
  "expire_lease now_unix_ms l =
     (if rl_state l = LActive \<and>
         (case rl_expires_at_unix_ms l of None \<Rightarrow> False | Some e \<Rightarrow> e \<le> now_unix_ms)
      then l\<lparr>rl_state := LExpired\<rparr> else l)"

definition expire_due_leases :: "u64 \<Rightarrow> rm_state \<Rightarrow> rm_state" where
  "expire_due_leases now_unix_ms s =
     s\<lparr>rm_leases := map (\<lambda>(name, l). (name, expire_lease now_unix_ms l)) (rm_leases s)\<rparr>"

definition lease_candidates :: "resource_query \<Rightarrow> rm_state \<Rightarrow> resource list" where
  "lease_candidates query s =
     take (unat (rq_count query))
       (filter (\<lambda>r. ident_id (res_identity r) \<notin> set (rm_allocated s) \<and>
                    ident_id (res_identity r) \<notin> set (rm_quarantined s) \<and>
                    res_state r = ResourceReady \<and> ResourceQuery_matches query r)
          (bm_values (rm_resources s)))"

definition new_allocation :: "string \<Rightarrow> resource \<Rightarrow> resource_allocation" where
  "new_allocation lease_name r =
     \<lparr>alloc_allocation_id = lease_name @ '':'' @ ident_id (res_identity r),
      alloc_resource = res_identity r, alloc_granted_capacity = res_capacity r,
      alloc_enforcement = ObserveOnly\<rparr>"

definition granted_lease :: "resource_request \<Rightarrow> resource list \<Rightarrow> rm_state \<Rightarrow> resource_lease" where
  "granted_lease request candidates s =
     \<lparr>rl_name = rr_lease_name request, rl_generation = 1, rl_state = LActive,
      rl_holder = rr_holder request,
      rl_allocations = map (new_allocation (rr_lease_name request)) candidates,
      rl_inventory_generation = rm_generation s, rl_fence_token = rm_next_fence_token s,
      rl_expires_at_unix_ms = rr_expires_at_unix_ms request, rl_limits = rr_limits request\<rparr>"

definition grant_state :: "string \<Rightarrow> resource_lease \<Rightarrow> resource list \<Rightarrow> rm_state \<Rightarrow> rm_state" where
  "grant_state name l candidates s =
     s\<lparr>rm_next_fence_token := saturating_add (rm_next_fence_token s) 1,
       rm_allocated :=
         fold (\<lambda>r. bs_insert (ident_id (res_identity r))) candidates (rm_allocated s),
       rm_leases := bm_insert name l (rm_leases s)\<rparr>"

definition acquire_lease ::
    "u64 \<Rightarrow> u64 \<Rightarrow> resource_request \<Rightarrow> rm_state \<Rightarrow> (provider_error + resource_lease) \<times> rm_state" where
  "acquire_lease now now' request s0 =
     (let s = expire_due_leases now s0; query = rr_query request; name = rr_lease_name request in
      if rr_expected_inventory_generation request \<noteq> rm_generation s
      then (Inl (rm_err ''STALE_INVENTORY_GENERATION''
                   (''request='' @ show_u64 (rr_expected_inventory_generation request) @
                    '', current='' @ show_u64 (rm_generation s))), s)
      else if bm_contains (rm_leases s) name
      then (Inl (rm_err ''LEASE_ALREADY_EXISTS'' name), s)
      else case ResourceQuery_validate query of
        Inl e \<Rightarrow> (Inl (rm_err (ce_reason_code e) (ce_message e)), s)
      | Inr _ \<Rightarrow>
          if (case rr_expires_at_unix_ms request of None \<Rightarrow> False | Some e \<Rightarrow> e \<le> now')
          then (Inl (rm_err ''LEASE_EXPIRY_INVALID'' ''lease expiry must be in the future''), s)
          else
            let candidates = lease_candidates query s in
            if length candidates \<noteq> unat (rq_count query)
            then (Inl (rm_err ''INSUFFICIENT_RESOURCES''
                         ''no atomic allocation satisfies the request''), s)
            else let l = granted_lease request candidates s
                 in (Inr l, grant_state name l candidates s))"

definition get_lease :: "u64 \<Rightarrow> string \<Rightarrow> rm_state \<Rightarrow> (provider_error + resource_lease) \<times> rm_state" where
  "get_lease now name s0 =
     (let s = expire_due_leases now s0
      in (ok_or (map_of (rm_leases s) name) (rm_err ''LEASE_NOT_FOUND'' name), s))"

text \<open>The lookup and fence check that open every mutation of an existing lease.\<close>

definition fenced_lookup :: "rm_state \<Rightarrow> string \<Rightarrow> u64 \<Rightarrow> provider_error + resource_lease" where
  "fenced_lookup s name fence_token =
     bind_res (ok_or (map_of (rm_leases s) name) (rm_err ''LEASE_NOT_FOUND'' name)) (\<lambda>l.
       if rl_fence_token l \<noteq> fence_token then Inl (rm_err ''STALE_FENCE_TOKEN'' name) else Inr l)"

definition store_lease :: "string \<Rightarrow> resource_lease \<Rightarrow> rm_state \<Rightarrow> rm_state" where
  "store_lease name l s = s\<lparr>rm_leases := bm_update name (\<lambda>_. l) (rm_leases s)\<rparr>"

definition free_allocations :: "resource_lease \<Rightarrow> rm_state \<Rightarrow> rm_state" where
  "free_allocations l s =
     s\<lparr>rm_allocated :=
         fold (\<lambda>a. bs_remove (ident_id (alloc_resource a))) (rl_allocations l) (rm_allocated s)\<rparr>"

definition renew_lease ::
    "u64 \<Rightarrow> string \<Rightarrow> u64 \<Rightarrow> u64 \<Rightarrow> rm_state \<Rightarrow> (provider_error + resource_lease) \<times> rm_state" where
  "renew_lease now name fence_token expires_at_unix_ms s0 =
     (let s = expire_due_leases now s0 in
      if expires_at_unix_ms \<le> now
      then (Inl (rm_err ''LEASE_EXPIRY_INVALID'' ''lease renewal expiry must be in the future''), s)
      else case fenced_lookup s name fence_token of
        Inl e \<Rightarrow> (Inl e, s)
      | Inr l \<Rightarrow>
          if rl_state l \<noteq> LActive then (Inl (rm_err ''LEASE_NOT_ACTIVE'' name), s)
          else if (case rl_expires_at_unix_ms l of None \<Rightarrow> False
                   | Some current \<Rightarrow> expires_at_unix_ms \<le> current)
          then (Inl (rm_err ''LEASE_EXPIRY_REGRESSION''
                       ''lease renewal expiry must extend the current expiry''), s)
          else let l' = l\<lparr>rl_expires_at_unix_ms := Some expires_at_unix_ms\<rparr>
               in (Inr l', store_lease name l' s))"

definition begin_release ::
    "u64 \<Rightarrow> string \<Rightarrow> u64 \<Rightarrow> rm_state \<Rightarrow> (provider_error + resource_lease) \<times> rm_state" where
  "begin_release now name fence_token s0 =
     (let s = expire_due_leases now s0 in
      case fenced_lookup s name fence_token of
        Inl e \<Rightarrow> (Inl e, s)
      | Inr l \<Rightarrow>
          if rl_state l \<in> {LActive, LFailed}
          then let l' = l\<lparr>rl_state := LReleasing\<rparr> in (Inr l', store_lease name l' s)
          else if rl_state l \<in> {LReleasing, LReleased} then (Inr l, s)
          else (Inl (rm_err ''LEASE_NOT_ACTIVE'' name), s))"

definition complete_release ::
    "string \<Rightarrow> u64 \<Rightarrow> rm_state \<Rightarrow> (provider_error + resource_lease) \<times> rm_state" where
  "complete_release name fence_token s =
     (case fenced_lookup s name fence_token of
        Inl e \<Rightarrow> (Inl e, s)
      | Inr l \<Rightarrow>
          if rl_state l = LReleased then (Inr l, s)
          else if rl_state l \<noteq> LReleasing then (Inl (rm_err ''LEASE_NOT_RELEASING'' name), s)
          else let l' = l\<lparr>rl_state := LReleased\<rparr>
               in (Inr l', store_lease name l' (free_allocations l s)))"

definition fail_release ::
    "string \<Rightarrow> u64 \<Rightarrow> rm_state \<Rightarrow> (provider_error + resource_lease) \<times> rm_state" where
  "fail_release name fence_token s =
     (case fenced_lookup s name fence_token of
        Inl e \<Rightarrow> (Inl e, s)
      | Inr l \<Rightarrow>
          if rl_state l \<noteq> LReleasing \<and> rl_state l \<noteq> LFailed
          then (Inl (rm_err ''LEASE_NOT_RELEASING'' name), s)
          else let l' = l\<lparr>rl_state := LFailed\<rparr> in (Inr l', store_lease name l' s))"

definition revoke ::
    "u64 \<Rightarrow> string \<Rightarrow> u64 \<Rightarrow> rm_state \<Rightarrow> (provider_error + resource_lease) \<times> rm_state" where
  "revoke now name fence_token s0 =
     (let s = expire_due_leases now s0 in
      case fenced_lookup s name fence_token of
        Inl e \<Rightarrow> (Inl e, s)
      | Inr l \<Rightarrow>
          if rl_state l \<notin> {LActive, LReleasing, LExpired}
          then (Inl (rm_err ''LEASE_NOT_ACTIVE'' name), s)
          else
            let revoked_fence =
                  max (rm_next_fence_token s) (saturating_add (rl_fence_token l) 1);
                l' = l\<lparr>rl_fence_token := revoked_fence, rl_state := LRevoked\<rparr>
            in (Inr l',
                store_lease name l'
                  (s\<lparr>rm_next_fence_token := saturating_add revoked_fence 1\<rparr>)))"

definition complete_revocation ::
    "string \<Rightarrow> u64 \<Rightarrow> rm_state \<Rightarrow> (provider_error + resource_lease) \<times> rm_state" where
  "complete_revocation name fence_token s =
     (case fenced_lookup s name fence_token of
        Inl e \<Rightarrow> (Inl e, s)
      | Inr l \<Rightarrow>
          if rl_state l \<noteq> LRevoked then (Inl (rm_err ''LEASE_NOT_REVOKED'' name), s)
          else (Inr l, free_allocations l s))"

definition leases :: "u64 \<Rightarrow> rm_state \<Rightarrow> resource_lease list \<times> rm_state" where
  "leases now s0 = (let s = expire_due_leases now s0 in (bm_values (rm_leases s), s))"

definition lease_is_allocated :: "string \<Rightarrow> rm_state \<Rightarrow> bool" where
  "lease_is_allocated name s \<longleftrightarrow>
     (case map_of (rm_leases s) name of
        None \<Rightarrow> False
      | Some l \<Rightarrow>
          list_ex (\<lambda>a. ident_id (alloc_resource a) \<in> set (rm_allocated s)) (rl_allocations l))"

section \<open>Interleavings\<close>

text \<open>One call of the manager's interface, and the state it leaves.\<close>

datatype rm_call =
  CRefresh inventory_snapshot
| CQuarantine string string
| CAcquire u64 u64 resource_request
| CGet u64 string
| CRenew u64 string u64 u64
| CBeginRelease u64 string u64
| CCompleteRelease string u64
| CFailRelease string u64
| CRevoke u64 string u64
| CCompleteRevocation string u64
| CLeases u64

fun rm_exec :: "rm_call \<Rightarrow> rm_state \<Rightarrow> rm_state" where
  "rm_exec (CRefresh snapshot) s = snd (refresh_inventory snapshot s)"
| "rm_exec (CQuarantine i r) s = snd (quarantine i r s)"
| "rm_exec (CAcquire now now' request) s = snd (acquire_lease now now' request s)"
| "rm_exec (CGet now name) s = snd (get_lease now name s)"
| "rm_exec (CRenew now name f e) s = snd (renew_lease now name f e s)"
| "rm_exec (CBeginRelease now name f) s = snd (begin_release now name f s)"
| "rm_exec (CCompleteRelease name f) s = snd (complete_release name f s)"
| "rm_exec (CFailRelease name f) s = snd (fail_release name f s)"
| "rm_exec (CRevoke now name f) s = snd (revoke now name f s)"
| "rm_exec (CCompleteRevocation name f) s = snd (complete_revocation name f s)"
| "rm_exec (CLeases now) s = snd (leases now s)"

text \<open>
  Reachable states. The second component is the set of revoked leases whose cleanup has been
  reported: \<open>complete_revocation\<close> does not record that it ran, so the guard says that the
  caller reports the cleanup of one lease once.
\<close>

definition reaped_after :: "rm_call \<Rightarrow> rm_state \<Rightarrow> string set \<Rightarrow> string set" where
  "reaped_after c s R =
     (case c of
        CCompleteRevocation name f \<Rightarrow>
          (if is_ok (fst (complete_revocation name f s)) then insert name R else R)
      | _ \<Rightarrow> R)"

fun reports_once :: "rm_call \<Rightarrow> string set \<Rightarrow> bool" where
  "reports_once (CCompleteRevocation name f) R = (name \<notin> R)"
| "reports_once _ R = True"

inductive rm_reach :: "rm_state \<Rightarrow> string set \<Rightarrow> bool" where
  rm_init: "rm_reach (with_next_fence_token resources n) {}"
| rm_step: "rm_reach s R \<Longrightarrow> reports_once c R \<Longrightarrow> rm_reach (rm_exec c s) (reaped_after c s R)"

section \<open>The ledger invariant\<close>

definition lease_ids :: "resource_lease \<Rightarrow> string list" where
  "lease_ids l = map (\<lambda>a. ident_id (alloc_resource a)) (rl_allocations l)"

text \<open>A lease holds its resources until its cleanup is confirmed.\<close>

definition holding :: "string set \<Rightarrow> string \<Rightarrow> resource_lease \<Rightarrow> bool" where
  "holding R name l \<longleftrightarrow>
     rl_state l \<in> {LActive, LReleasing, LExpired, LFailed} \<or> rl_state l = LRevoked \<and> name \<notin> R"

definition claims :: "string set \<Rightarrow> (string, resource_lease) btree_map \<Rightarrow> (string \<times> string) set" where
  "claims R ls = {(n, x). \<exists>l. map_of ls n = Some l \<and> holding R n l \<and> x \<in> set (lease_ids l)}"

definition lease_ok :: "string set \<Rightarrow> string \<Rightarrow> resource_lease \<Rightarrow> bool" where
  "lease_ok R n l \<longleftrightarrow>
     rl_name l = n \<and> distinct (lease_ids l) \<and> rl_state l \<noteq> LQuarantined \<and>
     (n \<in> R \<longrightarrow> rl_state l = LRevoked)"

definition leases_ok :: "string set \<Rightarrow> (string, resource_lease) btree_map \<Rightarrow> bool" where
  "leases_ok R ls \<longleftrightarrow>
     bm_ok ls \<and> (\<forall>n l. map_of ls n = Some l \<longrightarrow> lease_ok R n l) \<and> (\<forall>n\<in>R. map_of ls n \<noteq> None)"

definition resources_ok :: "(string, resource) btree_map \<Rightarrow> bool" where
  "resources_ok rs \<longleftrightarrow>
     bm_ok rs \<and> (\<forall>k r. map_of rs k = Some r \<longrightarrow> ident_id (res_identity r) = k)"

definition exclusive :: "(string \<times> string) set \<Rightarrow> bool" where
  "exclusive C \<longleftrightarrow> (\<forall>n m x. (n, x) \<in> C \<longrightarrow> (m, x) \<in> C \<longrightarrow> n = m)"

definition wf_ledger :: "rm_state \<Rightarrow> string set \<Rightarrow> bool" where
  "wf_ledger s R \<longleftrightarrow>
     resources_ok (rm_resources s) \<and> leases_ok R (rm_leases s) \<and>
     exclusive (claims R (rm_leases s)) \<and>
     set (rm_allocated s) = Range (claims R (rm_leases s)) \<and>
     Range (claims R (rm_leases s)) \<subseteq> dom (map_of (rm_resources s))"

text \<open>Fence tokens are positive, below the next one, and never shared, until the counter saturates.\<close>

definition fences_ok :: "rm_state \<Rightarrow> bool" where
  "fences_ok s \<longleftrightarrow>
     0 < rm_next_fence_token s \<and>
     (\<forall>n l. map_of (rm_leases s) n = Some l \<longrightarrow> 0 < rl_fence_token l) \<and>
     (rm_next_fence_token s \<noteq> - 1 \<longrightarrow>
        (\<forall>n l. map_of (rm_leases s) n = Some l \<longrightarrow> rl_fence_token l < rm_next_fence_token s) \<and>
        (\<forall>n m l k. map_of (rm_leases s) n = Some l \<longrightarrow> map_of (rm_leases s) m = Some k \<longrightarrow>
           rl_fence_token l = rl_fence_token k \<longrightarrow> n = m))"

subsection \<open>Updates that keep every claim\<close>

definition same_claim :: "string set \<Rightarrow> string \<Rightarrow> resource_lease \<Rightarrow> resource_lease \<Rightarrow> bool" where
  "same_claim R n l l' \<longleftrightarrow>
     lease_ids l' = lease_ids l \<and> rl_name l' = rl_name l \<and> rl_state l' \<noteq> LQuarantined \<and>
     (holding R n l' \<longleftrightarrow> holding R n l) \<and> (n \<in> R \<longrightarrow> rl_state l' = LRevoked)"

lemma lease_ok_same_claim: "lease_ok R n l \<Longrightarrow> same_claim R n l l"
  by (auto simp: same_claim_def lease_ok_def)

lemma claims_same:
  assumes "\<And>n. rel_option (same_claim R n) (map_of ls n) (map_of ls' n)"
  shows "claims R ls' = claims R ls"
proof -
  have "(n, x) \<in> claims R ls' \<longleftrightarrow> (n, x) \<in> claims R ls" for n x
    using assms [of n] by (auto simp: claims_def same_claim_def option_rel_Some1 option_rel_Some2)
  then show ?thesis by auto
qed

lemma leases_ok_same:
  assumes "\<And>n. rel_option (same_claim R n) (map_of ls n) (map_of ls' n)"
    and "leases_ok R ls" and "bm_ok ls'"
  shows "leases_ok R ls'"
  unfolding leases_ok_def
proof (intro conjI allI impI ballI)
  fix n l' assume "map_of ls' n = Some l'"
  then obtain l where "map_of ls n = Some l" "same_claim R n l l'"
    using assms(1) [of n] by (auto simp: option_rel_Some2)
  then show "lease_ok R n l'"
    using assms(2) by (auto simp: leases_ok_def lease_ok_def same_claim_def)
next
  fix n assume "n \<in> R"
  then obtain l where "map_of ls n = Some l" using assms(2) by (auto simp: leases_ok_def)
  then show "map_of ls' n \<noteq> None" using assms(1) [of n] by (auto simp: option_rel_Some1)
qed (rule assms(3))

lemma wf_same_claims:
  assumes "wf_ledger s R" and "\<And>n. rel_option (same_claim R n) (map_of (rm_leases s) n) (map_of ls' n)"
    and "bm_ok ls'"
  shows "wf_ledger (s\<lparr>rm_leases := ls'\<rparr>) R"
proof -
  have "claims R ls' = claims R (rm_leases s)" by (rule claims_same [OF assms(2)])
  moreover have "leases_ok R ls'"
    using leases_ok_same [OF assms(2) _ assms(3)] assms(1) by (simp add: wf_ledger_def)
  ultimately show ?thesis using assms(1) by (simp add: wf_ledger_def)
qed

lemma wf_lookup: "wf_ledger s R \<Longrightarrow> map_of (rm_leases s) n = Some l \<Longrightarrow> lease_ok R n l"
  by (simp add: wf_ledger_def leases_ok_def)

lemma wf_bm_ok: "wf_ledger s R \<Longrightarrow> bm_ok (rm_leases s)"
  by (simp add: wf_ledger_def leases_ok_def)

lemma map_of_map_values: "map_of (map (\<lambda>(k, v). (k, f v)) m) k = map_option f (map_of m k)"
  by (induction m) auto

lemma bm_ok_map_values: "bm_ok (map (\<lambda>(k, v). (k, f v)) m) = bm_ok m"
proof -
  have "map fst (map (\<lambda>(k, v). (k, f v)) m) = map fst m" by (induction m) auto
  then show ?thesis by (simp only: bm_ok_def)
qed

lemma map_of_expire:
  "map_of (rm_leases (expire_due_leases now s)) n =
     map_option (expire_lease now) (map_of (rm_leases s) n)"
  by (simp add: expire_due_leases_def map_of_map_values)

lemma expire_due_leases_simps [simp]:
  "rm_generation (expire_due_leases now s) = rm_generation s"
  "rm_resources (expire_due_leases now s) = rm_resources s"
  "rm_allocated (expire_due_leases now s) = rm_allocated s"
  "rm_quarantined (expire_due_leases now s) = rm_quarantined s"
  "rm_next_fence_token (expire_due_leases now s) = rm_next_fence_token s"
  by (simp_all add: expire_due_leases_def)

lemma expire_lease_simps [simp]:
  "rl_name (expire_lease now l) = rl_name l" "lease_ids (expire_lease now l) = lease_ids l"
  "rl_fence_token (expire_lease now l) = rl_fence_token l"
  "rl_allocations (expire_lease now l) = rl_allocations l"
  "rl_expires_at_unix_ms (expire_lease now l) = rl_expires_at_unix_ms l"
  by (simp_all add: expire_lease_def lease_ids_def)

lemma same_claim_expire: "lease_ok R n l \<Longrightarrow> same_claim R n l (expire_lease now l)"
  by (auto simp: same_claim_def lease_ok_def holding_def expire_lease_def)
    (simp_all add: lease_ids_def)

lemma wf_expire: "wf_ledger s R \<Longrightarrow> wf_ledger (expire_due_leases now s) R"
  unfolding expire_due_leases_def
  by (rule wf_same_claims)
    (auto simp: map_of_map_values bm_ok_map_values wf_bm_ok option.rel_map
      intro!: option.rel_refl_strong same_claim_expire wf_lookup)

lemma wf_store:
  assumes "wf_ledger s R" and "map_of (rm_leases s) name = Some l" and "same_claim R name l l'"
  shows "wf_ledger (store_lease name l' s) R"
  unfolding store_lease_def
proof (rule wf_same_claims [OF assms(1)])
  fix n
  show "rel_option (same_claim R n) (map_of (rm_leases s) n)
      (map_of (bm_update name (\<lambda>_. l') (rm_leases s)) n)"
    using assms lease_ok_same_claim wf_lookup
    by (auto intro!: option.rel_refl_strong)
qed (simp add: wf_bm_ok [OF assms(1)])

lemma wf_fence [simp]: "wf_ledger (s\<lparr>rm_next_fence_token := f\<rparr>) R = wf_ledger s R"
  by (simp add: wf_ledger_def)

lemma fenced_lookup_Inr:
  "fenced_lookup s name f = Inr l \<longleftrightarrow> map_of (rm_leases s) name = Some l \<and> rl_fence_token l = f"
  by (auto simp: fenced_lookup_def bind_res_Inr split: if_splits)

subsection \<open>Updates that end or start a claim\<close>

lemma set_free [simp]:
  "set (rm_allocated (free_allocations l s)) = set (rm_allocated s) - set (lease_ids l)"
proof -
  have "set (fold (\<lambda>a. bs_remove (ident_id (alloc_resource a))) as q) =
      set q - (\<lambda>a. ident_id (alloc_resource a)) ` set as" for as :: "resource_allocation list" and q
    by (induction as arbitrary: q) auto
  then show ?thesis by (simp add: free_allocations_def lease_ids_def)
qed

lemma free_simps [simp]:
  "rm_leases (free_allocations l s) = rm_leases s" "rm_resources (free_allocations l s) = rm_resources s"
  "rm_next_fence_token (free_allocations l s) = rm_next_fence_token s"
  "rm_generation (free_allocations l s) = rm_generation s"
  "rm_quarantined (free_allocations l s) = rm_quarantined s"
  by (simp_all add: free_allocations_def)

lemma store_simps [simp]:
  "rm_leases (store_lease n l s) = bm_update n (\<lambda>_. l) (rm_leases s)"
  "rm_resources (store_lease n l s) = rm_resources s" "rm_allocated (store_lease n l s) = rm_allocated s"
  "rm_next_fence_token (store_lease n l s) = rm_next_fence_token s"
  "rm_generation (store_lease n l s) = rm_generation s"
  "rm_quarantined (store_lease n l s) = rm_quarantined s"
  by (simp_all add: store_lease_def)

lemma wf_end_claim:
  assumes wf: "wf_ledger s R" and l: "map_of (rm_leases s) name = Some l" and hold: "holding R name l"
    and ls': "\<And>n. n \<noteq> name \<Longrightarrow> map_of ls' n = map_of (rm_leases s) n"
    and l': "map_of ls' name = Some l'" "\<not> holding R' name l'" "lease_ok R' name l'"
    and R': "R' - {name} = R - {name}" and ok: "bm_ok ls'"
    and alloc: "set alloc = set (rm_allocated s) - set (lease_ids l)"
  shows "wf_ledger (s\<lparr>rm_leases := ls', rm_allocated := alloc\<rparr>) R'"
proof -
  have h: "holding R' n k \<longleftrightarrow> holding R n k" and i: "n \<in> R' \<longleftrightarrow> n \<in> R" if "n \<noteq> name" for n k
    using R' that by (auto simp: holding_def)
  have cl: "claims R' ls' = claims R (rm_leases s) - {name} \<times> UNIV"
  proof -
    have "(n, x) \<in> claims R' ls' \<longleftrightarrow> (n, x) \<in> claims R (rm_leases s) - {name} \<times> UNIV" for n x
      using ls' [of n] l' h [of n] by (cases "n = name") (auto simp: claims_def)
    then show ?thesis by auto
  qed
  have own: "(name, x) \<in> claims R (rm_leases s) \<longleftrightarrow> x \<in> set (lease_ids l)" for x
    using l hold by (auto simp: claims_def)
  have ex: "exclusive (claims R (rm_leases s))" and al: "set (rm_allocated s) = Range (claims R (rm_leases s))"
    using wf by (simp_all add: wf_ledger_def)
  have "Range (claims R' ls') = Range (claims R (rm_leases s)) - set (lease_ids l)"
    unfolding cl using ex own unfolding exclusive_def by blast
  moreover have "exclusive (claims R' ls')" using ex unfolding cl exclusive_def by blast
  moreover have "leases_ok R' ls'"
  proof -
    have "lease_ok R' n k" if "map_of ls' n = Some k" for n k
      using that l' ls' [of n] i [of n] wf_lookup [OF wf, of n k]
      by (cases "n = name") (auto simp: lease_ok_def)
    moreover have "map_of ls' n \<noteq> None" if "n \<in> R'" for n
      using that l' ls' [of n] i [of n] wf
      by (cases "n = name") (auto simp: wf_ledger_def leases_ok_def)
    ultimately show ?thesis using ok by (simp add: leases_ok_def)
  qed
  ultimately show ?thesis
    using wf alloc al by (auto simp: wf_ledger_def)
qed

lemma wf_complete_release:
  assumes "wf_ledger s R" shows "wf_ledger (snd (complete_release name f s)) R"
proof (cases "fenced_lookup s name f")
  case (Inr l)
  then have l: "map_of (rm_leases s) name = Some l" by (simp add: fenced_lookup_Inr)
  show ?thesis
  proof (cases "rl_state l = LReleasing")
    case True
    have eq: "store_lease name (l\<lparr>rl_state := LReleased\<rparr>) (free_allocations l s) =
        s\<lparr>rm_leases := bm_update name (\<lambda>_. l\<lparr>rl_state := LReleased\<rparr>) (rm_leases s),
          rm_allocated := rm_allocated (free_allocations l s)\<rparr>"
      by (simp add: store_lease_def free_allocations_def)
    have "wf_ledger (store_lease name (l\<lparr>rl_state := LReleased\<rparr>) (free_allocations l s)) R"
      unfolding eq using l True wf_lookup [OF assms l]
      by (intro wf_end_claim [OF assms l])
        (auto simp: holding_def lease_ok_def lease_ids_def wf_bm_ok [OF assms])
    then show ?thesis using Inr True by (simp add: complete_release_def Let_def)
  next
    case False
    then show ?thesis using assms Inr by (simp add: complete_release_def)
  qed
qed (simp add: complete_release_def assms)

lemma wf_complete_revocation:
  assumes "wf_ledger s R" and "name \<notin> R"
  shows "wf_ledger (snd (complete_revocation name f s))
    (if is_ok (fst (complete_revocation name f s)) then insert name R else R)"
proof (cases "fenced_lookup s name f")
  case (Inr l)
  then have l: "map_of (rm_leases s) name = Some l" by (simp add: fenced_lookup_Inr)
  show ?thesis
  proof (cases "rl_state l = LRevoked")
    case True
    have eq: "free_allocations l s =
        s\<lparr>rm_leases := rm_leases s, rm_allocated := rm_allocated (free_allocations l s)\<rparr>"
      by (simp add: free_allocations_def)
    have "wf_ledger (free_allocations l s) (insert name R)"
      by (subst eq) (use l True wf_lookup [OF assms(1) l] assms(2) in
        \<open>intro wf_end_claim [OF assms(1) l], auto simp: holding_def lease_ok_def wf_bm_ok [OF assms(1)]\<close>)
    then show ?thesis using Inr True by (simp add: complete_revocation_def)
  next
    case False
    then show ?thesis using assms Inr by (simp add: complete_revocation_def)
  qed
qed (simp add: complete_revocation_def assms)

lemma index_resources_ok [simp]: "resources_ok (index_resources rs)"
proof -
  have "ident_id (res_identity r) = k" if "map_of (index_resources rs) k = Some r" for k r
  proof -
    have "(k, r) \<in> set (rev (map (\<lambda>r. (ident_id (res_identity r), r)) rs))"
      using that unfolding index_resources_def map_of_collect by (rule map_of_SomeD)
    then show ?thesis by (simp add: image_iff)
  qed
  then show ?thesis
    unfolding resources_ok_def by (intro conjI allI impI) (simp_all only: index_resources_def bm_ok_collect)
qed

lemma lease_candidates_props:
  assumes "resources_ok (rm_resources s)" and "r \<in> set (lease_candidates q s)"
  shows "ident_id (res_identity r) \<notin> set (rm_allocated s)"
    and "ident_id (res_identity r) \<notin> set (rm_quarantined s)"
    and "res_state r = ResourceReady" and "ResourceQuery_matches q r"
    and "map_of (rm_resources s) (ident_id (res_identity r)) = Some r"
proof -
  have r: "r \<in> set (bm_values (rm_resources s))" "ident_id (res_identity r) \<notin> set (rm_allocated s)"
    "ident_id (res_identity r) \<notin> set (rm_quarantined s)" "res_state r = ResourceReady"
    "ResourceQuery_matches q r"
    using in_set_takeD [OF assms(2) [unfolded lease_candidates_def]] by simp_all
  then show "ident_id (res_identity r) \<notin> set (rm_allocated s)"
    "ident_id (res_identity r) \<notin> set (rm_quarantined s)" "res_state r = ResourceReady"
    "ResourceQuery_matches q r" by simp_all
  obtain k where "map_of (rm_resources s) k = Some r"
    using r(1) assms(1) by (auto simp: in_bm_values resources_ok_def)
  then show "map_of (rm_resources s) (ident_id (res_identity r)) = Some r"
    using assms(1) unfolding resources_ok_def by metis
qed

lemma resource_ids_distinct:
  "resources_ok rs \<Longrightarrow> distinct (map (\<lambda>r. ident_id (res_identity r)) (bm_values rs))"
proof -
  assume ok: "resources_ok rs"
  have "ident_id (res_identity (snd e)) = fst e" if "e \<in> set rs" for e
    using ok that map_of_in_set [of rs "fst e" "snd e"] unfolding resources_ok_def by auto
  then have "map (\<lambda>r. ident_id (res_identity r)) (bm_values rs) = map fst rs"
    unfolding bm_values_def by (simp only: list.map_comp comp_def) (rule map_cong [OF refl])
  then show ?thesis using ok bm_ok_distinct by (auto simp: resources_ok_def)
qed

lemma lease_candidates_distinct:
  "resources_ok (rm_resources s) \<Longrightarrow>
     distinct (map (\<lambda>r. ident_id (res_identity r)) (lease_candidates q s))"
  unfolding lease_candidates_def take_map [symmetric]
  by (intro distinct_take distinct_map_filter resource_ids_distinct)

lemma set_fold_allocate [simp]:
  "set (fold (\<lambda>r. bs_insert (ident_id (res_identity r))) rs q) =
     (\<lambda>r. ident_id (res_identity r)) ` set rs \<union> set q"
  by (induction rs arbitrary: q) auto

lemma wf_start_claim:
  assumes wf: "wf_ledger s R" and fresh: "map_of (rm_leases s) name = None"
    and l: "rl_name l = name" "rl_state l = LActive" "distinct (lease_ids l)"
    and free: "set (lease_ids l) \<inter> set (rm_allocated s) = {}"
    and known: "set (lease_ids l) \<subseteq> dom (map_of (rm_resources s))"
    and alloc: "set alloc = set (lease_ids l) \<union> set (rm_allocated s)"
  shows "wf_ledger (s\<lparr>rm_allocated := alloc, rm_leases := bm_insert name l (rm_leases s)\<rparr>) R"
proof -
  have notin: "name \<notin> R" using wf fresh by (auto simp: wf_ledger_def leases_ok_def)
  have cl: "claims R (bm_insert name l (rm_leases s)) =
      claims R (rm_leases s) \<union> {name} \<times> set (lease_ids l)"
    using fresh l by (auto simp: claims_def holding_def split: if_splits)
  have ex: "exclusive (claims R (rm_leases s))" and al: "set (rm_allocated s) = Range (claims R (rm_leases s))"
    using wf by (simp_all add: wf_ledger_def)
  have "exclusive (claims R (bm_insert name l (rm_leases s)))"
    using ex free unfolding cl al exclusive_def by blast
  moreover have "leases_ok R (bm_insert name l (rm_leases s))"
    using wf l notin by (auto simp: wf_ledger_def leases_ok_def lease_ok_def)
  moreover have "set alloc = Range (claims R (bm_insert name l (rm_leases s)))"
    unfolding cl alloc al by auto
  ultimately show ?thesis
    using wf known by (auto simp: wf_ledger_def cl)
qed

subsection \<open>Every operation keeps the invariant\<close>

lemma acquire_lease_Inr:
  "acquire_lease now now' req s = (Inr l, s') \<longleftrightarrow>
     (let s1 = expire_due_leases now s; c = lease_candidates (rr_query req) s1 in
      rr_expected_inventory_generation req = rm_generation s \<and>
      map_of (rm_leases s1) (rr_lease_name req) = None \<and>
      ResourceQuery_validate (rr_query req) = Inr () \<and>
      (\<forall>e. rr_expires_at_unix_ms req = Some e \<longrightarrow> now' < e) \<and>
      length c = unat (rq_count (rr_query req)) \<and>
      l = granted_lease req c s1 \<and> s' = grant_state (rr_lease_name req) l c s1)"
  by (auto simp: acquire_lease_def Let_def bm_contains_def linorder_not_le
      split: sum.splits if_splits option.splits)

lemma acquire_lease_Inl: "acquire_lease now now' req s = (Inl e, s') \<Longrightarrow> s' = expire_due_leases now s"
  by (auto simp: acquire_lease_def Let_def split: sum.splits if_splits)

lemma acquire_lease_state:
  obtains (refused) e where "acquire_lease now now' req s = (Inl e, expire_due_leases now s)"
  | (granted) l c where "acquire_lease now now' req s = (Inr l, grant_state (rr_lease_name req) l c (expire_due_leases now s))"
    and "c = lease_candidates (rr_query req) (expire_due_leases now s)"
    and "l = granted_lease req c (expire_due_leases now s)"
    and "map_of (rm_leases (expire_due_leases now s)) (rr_lease_name req) = None"
proof (cases "acquire_lease now now' req s")
  case (Pair r s')
  show thesis
  proof (cases r)
    case (Inl e)
    then have "s' = expire_due_leases now s" using Pair by (intro acquire_lease_Inl) simp
    then show thesis using refused Pair Inl by simp
  next
    case (Inr l)
    then have "acquire_lease now now' req s = (Inr l, s')" using Pair by simp
    from this [unfolded acquire_lease_Inr Let_def] this
    show thesis by (elim conjE) (rule granted, simp_all only:)
  qed
qed

lemma wf_acquire:
  assumes "wf_ledger s R" shows "wf_ledger (snd (acquire_lease now now' req s)) R"
proof -
  let ?s = "expire_due_leases now s" and ?n = "rr_lease_name req"
  have w: "wf_ledger ?s R" by (rule wf_expire [OF assms])
  show ?thesis
  proof (rule acquire_lease_state [of now now' req s])
    fix e assume "acquire_lease now now' req s = (Inl e, ?s)"
    then show ?thesis using w by simp
  next
    fix l c assume a: "acquire_lease now now' req s = (Inr l, grant_state ?n l c ?s)"
      and c: "c = lease_candidates (rr_query req) ?s" and l: "l = granted_lease req c ?s"
      and fresh: "map_of (rm_leases ?s) ?n = None"
    have ids: "lease_ids l = map (\<lambda>r. ident_id (res_identity r)) c"
      by (simp add: lease_ids_def l granted_lease_def new_allocation_def)
    have rok: "resources_ok (rm_resources ?s)" using w by (simp add: wf_ledger_def)
    note props = lease_candidates_props [OF rok, of _ "rr_query req", folded c]
    have "wf_ledger (?s\<lparr>rm_allocated := fold (\<lambda>r. bs_insert (ident_id (res_identity r))) c (rm_allocated ?s),
           rm_leases := bm_insert ?n l (rm_leases ?s)\<rparr>) R"
    proof (rule wf_start_claim [OF w fresh])
      show "distinct (lease_ids l)" unfolding ids c by (rule lease_candidates_distinct [OF rok])
      show "set (lease_ids l) \<inter> set (rm_allocated ?s) = {}" unfolding ids using props(1) by auto
      show "set (lease_ids l) \<subseteq> dom (map_of (rm_resources ?s))" unfolding ids using props(5) by auto
      show "set (fold (\<lambda>r. bs_insert (ident_id (res_identity r))) c (rm_allocated ?s)) =
          set (lease_ids l) \<union> set (rm_allocated ?s)" unfolding ids by simp
    qed (simp_all add: l granted_lease_def)
    then show ?thesis using a by (simp add: grant_state_def wf_ledger_def)
  qed
qed

lemma wf_renew:
  assumes "wf_ledger s R" shows "wf_ledger (snd (renew_lease now name f e s)) R"
proof -
  let ?s = "expire_due_leases now s"
  have w: "wf_ledger ?s R" by (rule wf_expire [OF assms])
  show ?thesis
  proof (cases "snd (renew_lease now name f e s) = ?s")
    case False
    then obtain l where l: "fenced_lookup ?s name f = Inr l"
      and eq: "snd (renew_lease now name f e s) =
        store_lease name (l\<lparr>rl_expires_at_unix_ms := Some e\<rparr>) ?s"
      by (auto simp: renew_lease_def Let_def split: if_splits sum.splits)
    then have m: "map_of (rm_leases ?s) name = Some l" by (simp add: fenced_lookup_Inr)
    show ?thesis
      unfolding eq using wf_lookup [OF w m]
      by (intro wf_store [OF w m]) (auto simp: same_claim_def holding_def lease_ok_def lease_ids_def)
  qed (use w in simp)
qed

lemma wf_begin_release:
  assumes "wf_ledger s R" shows "wf_ledger (snd (begin_release now name f s)) R"
proof -
  let ?s = "expire_due_leases now s"
  have w: "wf_ledger ?s R" by (rule wf_expire [OF assms])
  show ?thesis
  proof (cases "snd (begin_release now name f s) = ?s")
    case False
    then obtain l where l: "fenced_lookup ?s name f = Inr l" and st: "rl_state l \<in> {LActive, LFailed}"
      and eq: "snd (begin_release now name f s) = store_lease name (l\<lparr>rl_state := LReleasing\<rparr>) ?s"
      by (auto simp: begin_release_def Let_def split: if_splits sum.splits)
    then have m: "map_of (rm_leases ?s) name = Some l" by (simp add: fenced_lookup_Inr)
    show ?thesis
      unfolding eq using wf_lookup [OF w m] st
      by (intro wf_store [OF w m]) (auto simp: same_claim_def holding_def lease_ok_def lease_ids_def)
  qed (use w in simp)
qed

lemma wf_fail_release:
  assumes "wf_ledger s R" shows "wf_ledger (snd (fail_release name f s)) R"
proof (cases "snd (fail_release name f s) = s")
  case False
  then obtain l where l: "fenced_lookup s name f = Inr l" and st: "rl_state l \<in> {LReleasing, LFailed}"
    and eq: "snd (fail_release name f s) = store_lease name (l\<lparr>rl_state := LFailed\<rparr>) s"
    by (auto simp: fail_release_def Let_def split: if_splits sum.splits)
  then have m: "map_of (rm_leases s) name = Some l" by (simp add: fenced_lookup_Inr)
  show ?thesis
    unfolding eq using wf_lookup [OF assms m] st
    by (intro wf_store [OF assms m]) (auto simp: same_claim_def holding_def lease_ok_def lease_ids_def)
qed (use assms in simp)

lemma wf_revoke:
  assumes "wf_ledger s R" shows "wf_ledger (snd (revoke now name f s)) R"
proof -
  let ?s = "expire_due_leases now s"
  have w: "wf_ledger ?s R" by (rule wf_expire [OF assms])
  show ?thesis
  proof (cases "snd (revoke now name f s) = ?s")
    case False
    then obtain l g where l: "fenced_lookup ?s name f = Inr l"
      and st: "rl_state l \<in> {LActive, LReleasing, LExpired}"
      and eq: "snd (revoke now name f s) =
        store_lease name (l\<lparr>rl_fence_token := g, rl_state := LRevoked\<rparr>)
          (?s\<lparr>rm_next_fence_token := saturating_add g 1\<rparr>)"
      by (auto simp: revoke_def Let_def split: if_splits sum.splits)
    then have m: "map_of (rm_leases (?s\<lparr>rm_next_fence_token := saturating_add g 1\<rparr>)) name = Some l"
      by (simp add: fenced_lookup_Inr)
    have w': "wf_ledger (?s\<lparr>rm_next_fence_token := saturating_add g 1\<rparr>) R" using w by simp
    show ?thesis
      unfolding eq using wf_lookup [OF w' m] st
      by (intro wf_store [OF w' m]) (auto simp: same_claim_def holding_def lease_ok_def lease_ids_def)
  qed (use w in simp)
qed

lemma retain_fold:
  assumes "fold (retain_allocated prev) ids (rs, q) = (rs', q')" and "bm_ok rs"
  shows "bm_ok rs' \<and>
    map_of rs' k =
      (case map_of rs k of
         Some r \<Rightarrow> Some r
       | None \<Rightarrow> if k \<in> set ids then map_option retained_resource (map_of prev k) else None)"
  using assms
proof (induction ids arbitrary: rs q)
  case (Cons i ids)
  obtain rs1 q1 where step: "retain_allocated prev i (rs, q) = (rs1, q1)" by fastforce
  then have m: "bm_ok rs1" "map_of rs1 k' =
      (case map_of rs k' of
         Some r \<Rightarrow> Some r
       | None \<Rightarrow> if k' = i then map_option retained_resource (map_of prev i) else None)" for k'
    using Cons.prems(2)
    by (auto simp: retain_allocated_def split: option.splits if_splits)
  have "fold (retain_allocated prev) ids (rs1, q1) = (rs', q')" using Cons.prems(1) step by simp
  from Cons.IH [OF this m(1)] show ?case
    using m(2) [of k] by (auto split: option.splits if_splits)
qed (auto split: option.splits)

lemma retained_identity [simp]: "res_identity (retained_resource r) = res_identity r"
  by (simp add: retained_resource_def)

lemma refresh_inventory_Inr:
  assumes "refresh_inventory snap s = (Inr u, s')"
  obtains q where
    "inv_generation snap \<noteq> 0" "rm_generation s \<le> inv_generation snap"
    "s' = s\<lparr>rm_quarantined := q, rm_generation := inv_generation snap,
           rm_resources := fst (fold (retain_allocated (rm_resources s)) (rm_allocated s)
             (index_resources (inv_resources snap), rm_quarantined s))\<rparr>"
proof -
  have "inv_generation snap \<noteq> 0" "\<not> inv_generation snap < rm_generation s"
    using assms by (auto simp: refresh_inventory_def split: if_splits)
  moreover have "\<exists>q. s' = s\<lparr>rm_quarantined := q, rm_generation := inv_generation snap,
           rm_resources := fst (fold (retain_allocated (rm_resources s)) (rm_allocated s)
             (index_resources (inv_resources snap), rm_quarantined s))\<rparr>"
    using assms by (auto simp: refresh_inventory_def Let_def case_prod_beta split: if_splits)
  ultimately show thesis using that by (auto simp: linorder_not_less)
qed

lemma refresh_inventory_Inl: "refresh_inventory snap s = (Inl e, s') \<Longrightarrow> s' = s"
  by (auto simp: refresh_inventory_def Let_def case_prod_beta split: if_splits)

lemma refreshed_lookup:
  "map_of (fst (fold (retain_allocated (rm_resources s)) (rm_allocated s)
       (index_resources rs, rm_quarantined s))) k =
     (case map_of (index_resources rs) k of
        Some r \<Rightarrow> Some r
      | None \<Rightarrow> if k \<in> set (rm_allocated s)
               then map_option retained_resource (map_of (rm_resources s) k) else None)"
  and refreshed_bm_ok:
  "bm_ok (fst (fold (retain_allocated (rm_resources s)) (rm_allocated s)
       (index_resources rs, rm_quarantined s)))"
proof -
  obtain rs' q' where f: "fold (retain_allocated (rm_resources s)) (rm_allocated s)
       (index_resources rs, rm_quarantined s) = (rs', q')" by fastforce
  have "bm_ok (index_resources rs)" using index_resources_ok by (simp add: resources_ok_def)
  from retain_fold [OF f this, of k] show
    "map_of (fst (fold (retain_allocated (rm_resources s)) (rm_allocated s)
       (index_resources rs, rm_quarantined s))) k =
     (case map_of (index_resources rs) k of
        Some r \<Rightarrow> Some r
      | None \<Rightarrow> if k \<in> set (rm_allocated s)
               then map_option retained_resource (map_of (rm_resources s) k) else None)"
    "bm_ok (fst (fold (retain_allocated (rm_resources s)) (rm_allocated s)
       (index_resources rs, rm_quarantined s)))"
    by (simp_all add: f)
qed

lemma wf_refresh:
  assumes "wf_ledger s R" shows "wf_ledger (snd (refresh_inventory snap s)) R"
proof (cases "refresh_inventory snap s")
  case (Pair r s')
  show ?thesis
  proof (cases r)
    case (Inl e)
    then show ?thesis using Pair refresh_inventory_Inl assms by auto
  next
    case (Inr u)
    let ?rs = "fst (fold (retain_allocated (rm_resources s)) (rm_allocated s)
             (index_resources (inv_resources snap), rm_quarantined s))"
    obtain q where s': "s' = s\<lparr>rm_quarantined := q, rm_generation := inv_generation snap,
        rm_resources := ?rs\<rparr>"
      using refresh_inventory_Inr [of snap s u s'] Pair Inr by auto
    have ids: "ident_id (res_identity r) = k" if "map_of ?rs k = Some r" for k r
      using that index_resources_ok [of "inv_resources snap"] assms
      by (auto simp: refreshed_lookup wf_ledger_def resources_ok_def split: option.splits if_splits)
    have ok: "resources_ok ?rs"
      unfolding resources_ok_def using refreshed_bm_ok ids by blast
    have "set (rm_allocated s) \<subseteq> dom (map_of ?rs)"
    proof
      fix x assume x: "x \<in> set (rm_allocated s)"
      then obtain r where "map_of (rm_resources s) x = Some r"
        using assms by (auto simp: wf_ledger_def)
      then show "x \<in> dom (map_of ?rs)"
        using x by (simp add: dom_def refreshed_lookup split: option.splits)
    qed
    then show ?thesis using assms ok Pair s' by (simp add: wf_ledger_def)
  qed
qed

lemma wf_quarantine:
  assumes "wf_ledger s R" shows "wf_ledger (snd (quarantine i reason s)) R"
proof (cases "map_of (rm_resources s) i")
  case (Some r)
  let ?f = "\<lambda>r. r\<lparr>res_state := ResourceUnavailable,
      res_reason_code := map (\<lambda>c. if c = CHR ''_'' then CHR ''-'' else c) (to_ascii_lowercase reason),
      res_summary := ''resource was quarantined by the Kernel authority''\<rparr>"
  have ok: "resources_ok (rm_resources s)" using assms by (simp add: wf_ledger_def)
  have "ident_id (res_identity r') = k"
    if m: "map_of (bm_update i ?f (rm_resources s)) k = Some r'" for k r'
  proof -
    obtain r where "map_of (rm_resources s) k = Some r" "res_identity r' = res_identity r"
      using m by (cases "k = i") auto
    then show ?thesis using ok unfolding resources_ok_def by metis
  qed
  moreover have "bm_ok (bm_update i ?f (rm_resources s))" using ok by (simp add: resources_ok_def)
  ultimately have "resources_ok (bm_update i ?f (rm_resources s))"
    unfolding resources_ok_def by blast
  moreover have "dom (map_of (bm_update i ?f (rm_resources s))) = dom (map_of (rm_resources s))"
    by (auto split: if_splits)
  ultimately show ?thesis
    using Some assms by (simp add: quarantine_def wf_ledger_def)
qed (simp add: quarantine_def assms)

lemma wf_init: "wf_ledger (with_next_fence_token rs n) {}"
  by (simp add: wf_ledger_def with_next_fence_token_def leases_ok_def claims_def exclusive_def)

lemma rm_reach_wf: "rm_reach s R \<Longrightarrow> wf_ledger s R"
proof (induction rule: rm_reach.induct)
  case (rm_step s R c)
  then show ?case
    by (cases c) (simp_all add: reaped_after_def wf_refresh wf_quarantine wf_acquire wf_renew
        wf_begin_release wf_complete_release wf_fail_release wf_revoke wf_complete_revocation
        wf_expire get_lease_def leases_def Let_def)
qed (rule wf_init)

subsection \<open>Fence tokens\<close>

lemma fences_same:
  assumes "fences_ok s"
    and "\<And>n. rel_option (\<lambda>l l'. rl_fence_token l' = rl_fence_token l)
          (map_of (rm_leases s) n) (map_of (rm_leases s') n)"
    and "rm_next_fence_token s' = rm_next_fence_token s"
  shows "fences_ok s'"
proof -
  have old: "\<exists>l. map_of (rm_leases s) n = Some l \<and> rl_fence_token l' = rl_fence_token l"
    if "map_of (rm_leases s') n = Some l'" for n l'
    using assms(2) [of n] that by (auto simp: option_rel_Some2)
  show ?thesis
    unfolding fences_ok_def assms(3)
  proof (intro conjI allI impI)
    show "0 < rm_next_fence_token s" using assms(1) by (simp add: fences_ok_def)
  next
    fix n l' assume "map_of (rm_leases s') n = Some l'"
    from old [OF this] show "0 < rl_fence_token l'" using assms(1) by (auto simp: fences_ok_def)
  next
    fix n l' assume "rm_next_fence_token s \<noteq> - 1" "map_of (rm_leases s') n = Some l'"
    from old [OF this(2)] this(1) show "rl_fence_token l' < rm_next_fence_token s"
      using assms(1) by (auto simp: fences_ok_def)
  next
    fix n m l k assume nx: "rm_next_fence_token s \<noteq> - 1"
      and l: "map_of (rm_leases s') n = Some l" and k: "map_of (rm_leases s') m = Some k"
      and eq: "rl_fence_token l = rl_fence_token k"
    obtain l0 k0 where "map_of (rm_leases s) n = Some l0" "map_of (rm_leases s) m = Some k0"
      "rl_fence_token l0 = rl_fence_token k0"
      using old [OF l] old [OF k] eq by auto
    then show "n = m" using assms(1) nx unfolding fences_ok_def by blast
  qed
qed

lemma fences_expire: "fences_ok s \<Longrightarrow> fences_ok (expire_due_leases now s)"
  by (rule fences_same) (auto simp: map_of_expire option.rel_map intro!: option.rel_refl_strong)

lemma fences_store:
  assumes "fences_ok s" and "fenced_lookup s name f = Inr l" and "rl_fence_token l' = rl_fence_token l"
  shows "fences_ok (store_lease name l' s)"
  using assms
  by (intro fences_same [OF assms(1)]) (auto simp: fenced_lookup_Inr intro!: option.rel_refl_strong)

lemma fences_free [simp]: "fences_ok (free_allocations l s) = fences_ok s"
  by (simp add: fences_ok_def)

lemma fenced_lookup_free [simp]: "fenced_lookup (free_allocations l s) name f = fenced_lookup s name f"
  by (simp add: fenced_lookup_def)

text \<open>Issuing the next token to one lease.\<close>

lemma fences_issue:
  assumes w: "fences_ok s"
    and others: "\<And>n. n \<noteq> name \<Longrightarrow> map_of (rm_leases s') n = map_of (rm_leases s) n"
    and l: "map_of (rm_leases s') name = Some l" "0 < rl_fence_token l"
    and pos: "0 < rm_next_fence_token s'"
    and lim: "rm_next_fence_token s' \<noteq> - 1 \<Longrightarrow> rm_next_fence_token s \<noteq> - 1 \<and>
      rl_fence_token l = rm_next_fence_token s \<and> rm_next_fence_token s < rm_next_fence_token s'"
  shows "fences_ok s'"
proof -
  have p: "0 < rl_fence_token k" if "map_of (rm_leases s') n = Some k" for n k
    using that others [of n] l w by (cases "n = name") (auto simp: fences_ok_def)
  have old: "rl_fence_token k < rm_next_fence_token s"
    if "map_of (rm_leases s') n = Some k" "n \<noteq> name" "rm_next_fence_token s' \<noteq> - 1" for n k
    using that others [of n] lim w by (simp add: fences_ok_def)
  have lt: "rl_fence_token k < rm_next_fence_token s'"
    if "map_of (rm_leases s') n = Some k" "rm_next_fence_token s' \<noteq> - 1" for n k
    using that old [of n k] lim l by (cases "n = name") (auto intro: order.strict_trans)
  have inj: "n = m"
    if "map_of (rm_leases s') n = Some k" "map_of (rm_leases s') m = Some j"
      "rl_fence_token k = rl_fence_token j" "rm_next_fence_token s' \<noteq> - 1" for n m k j
  proof (cases "n = name \<or> m = name")
    case True
    then show ?thesis using that old [of n k] old [of m j] lim l by fastforce
  next
    case False
    then show ?thesis
      using that others [of n] others [of m] lim w unfolding fences_ok_def by metis
  qed
  show ?thesis unfolding fences_ok_def using p lt inj pos by blast
qed

lemma fences_acquire:
  assumes "fences_ok s" shows "fences_ok (snd (acquire_lease now now' req s))"
proof -
  let ?s = "expire_due_leases now s" and ?n = "rr_lease_name req"
  let ?nx = "rm_next_fence_token ?s"
  have w: "fences_ok ?s" by (rule fences_expire [OF assms])
  show ?thesis
  proof (rule acquire_lease_state [of now now' req s])
    fix e assume "acquire_lease now now' req s = (Inl e, ?s)"
    then show ?thesis using w by simp
  next
    fix l c assume a: "acquire_lease now now' req s = (Inr l, grant_state ?n l c ?s)"
      and l: "l = granted_lease req c ?s"
    have lt: "?nx < saturating_add ?nx 1 \<and> ?nx \<noteq> - 1" if "saturating_add ?nx 1 \<noteq> - 1"
      using that saturating_add_one_gt saturating_add_one_not_max by blast
    have pos: "0 < ?nx" using w by (simp add: fences_ok_def)
    have g: "rl_fence_token l = ?nx" by (simp add: l granted_lease_def)
    have "fences_ok (grant_state ?n l c ?s)"
    proof (rule fences_issue [OF w, where name = ?n and l = l])
      assume "rm_next_fence_token (grant_state ?n l c ?s) \<noteq> - 1"
      then have "saturating_add ?nx 1 \<noteq> - 1" by (simp add: grant_state_def)
      from lt [OF this] show "rm_next_fence_token ?s \<noteq> - 1 \<and> rl_fence_token l = rm_next_fence_token ?s \<and>
          rm_next_fence_token ?s < rm_next_fence_token (grant_state ?n l c ?s)"
        by (simp add: g grant_state_def)
    qed (use pos g in \<open>simp_all add: grant_state_def saturating_add_one_pos\<close>)
    then show ?thesis using a by simp
  qed
qed

lemma revoke_state:
  obtains (refused) e where "revoke now name f s = (Inl e, expire_due_leases now s)"
  | (revoked) l g where "map_of (rm_leases (expire_due_leases now s)) name = Some l"
    and "rl_fence_token l = f" and "rl_state l \<in> {LActive, LReleasing, LExpired}"
    and "g = max (rm_next_fence_token s) (saturating_add f 1)"
    and "revoke now name f s =
      (Inr (l\<lparr>rl_fence_token := g, rl_state := LRevoked\<rparr>),
       store_lease name (l\<lparr>rl_fence_token := g, rl_state := LRevoked\<rparr>)
         ((expire_due_leases now s)\<lparr>rm_next_fence_token := saturating_add g 1\<rparr>))"
proof (cases "fenced_lookup (expire_due_leases now s) name f")
  case (Inl e)
  then show thesis using that(1) by (simp add: revoke_def)
next
  case (Inr l)
  show thesis
  proof (cases "rl_state l \<in> {LActive, LReleasing, LExpired}")
    case True
    then show thesis using that(2) Inr by (simp add: revoke_def Let_def fenced_lookup_Inr)
  next
    case False
    then show thesis using that(1) Inr by (simp add: revoke_def)
  qed
qed

lemma fences_revoke:
  assumes "fences_ok s" shows "fences_ok (snd (revoke now name f s))"
proof -
  let ?s = "expire_due_leases now s" and ?nx = "rm_next_fence_token s"
  have w: "fences_ok ?s" by (rule fences_expire [OF assms])
  show ?thesis
  proof (rule revoke_state [of now name f s])
    fix e assume "revoke now name f s = (Inl e, ?s)"
    then show ?thesis using w by simp
  next
    fix l g assume l: "map_of (rm_leases ?s) name = Some l" "rl_fence_token l = f"
      and g: "g = max ?nx (saturating_add f 1)"
      and eq: "revoke now name f s =
        (Inr (l\<lparr>rl_fence_token := g, rl_state := LRevoked\<rparr>),
         store_lease name (l\<lparr>rl_fence_token := g, rl_state := LRevoked\<rparr>)
           (?s\<lparr>rm_next_fence_token := saturating_add g 1\<rparr>))"
    have "0 < ?nx" using assms by (simp add: fences_ok_def)
    then have pos: "0 < g" by (simp add: g less_max_iff_disj)
    have lim: "?nx \<noteq> - 1 \<and> g = ?nx \<and> ?nx < saturating_add g 1" if "saturating_add g 1 \<noteq> - 1"
    proof -
      have "g \<noteq> - 1" using that saturating_add_one_not_max by blast
      moreover have "?nx \<le> g" by (simp add: g)
      ultimately have nx: "?nx \<noteq> - 1" by (metis word_order.extremum_unique)
      then have "f < ?nx" using w l by (auto simp: fences_ok_def)
      then have "saturating_add f 1 \<le> ?nx" by (rule saturating_add_one_le)
      then have "g = ?nx" by (simp add: g max_absorb1)
      then show ?thesis using nx saturating_add_one_gt by metis
    qed
    have "fences_ok (store_lease name (l\<lparr>rl_fence_token := g, rl_state := LRevoked\<rparr>)
           (?s\<lparr>rm_next_fence_token := saturating_add g 1\<rparr>))"
    proof (rule fences_issue [OF w, where name = name and
          l = "l\<lparr>rl_fence_token := g, rl_state := LRevoked\<rparr>"])
      assume "rm_next_fence_token (store_lease name (l\<lparr>rl_fence_token := g, rl_state := LRevoked\<rparr>)
          (?s\<lparr>rm_next_fence_token := saturating_add g 1\<rparr>)) \<noteq> - 1"
      then have "saturating_add g 1 \<noteq> - 1" by simp
      from lim [OF this] show "rm_next_fence_token ?s \<noteq> - 1 \<and>
          rl_fence_token (l\<lparr>rl_fence_token := g, rl_state := LRevoked\<rparr>) = rm_next_fence_token ?s \<and>
          rm_next_fence_token ?s < rm_next_fence_token
            (store_lease name (l\<lparr>rl_fence_token := g, rl_state := LRevoked\<rparr>)
              (?s\<lparr>rm_next_fence_token := saturating_add g 1\<rparr>))"
        by simp metis
    qed (use pos l in \<open>simp_all add: saturating_add_one_pos\<close>)
    then show ?thesis using eq by simp
  qed
qed

lemma fences_renew: "fences_ok s \<Longrightarrow> fences_ok (snd (renew_lease now name f e s))"
  using fences_expire [of s now]
  by (cases "fenced_lookup (expire_due_leases now s) name f")
    (auto simp: renew_lease_def Let_def intro: fences_store)

lemma fences_begin_release: "fences_ok s \<Longrightarrow> fences_ok (snd (begin_release now name f s))"
  using fences_expire [of s now]
  by (cases "fenced_lookup (expire_due_leases now s) name f")
    (auto simp: begin_release_def Let_def intro: fences_store)

lemma fences_complete_release: "fences_ok s \<Longrightarrow> fences_ok (snd (complete_release name f s))"
  by (cases "fenced_lookup s name f")
    (auto simp: complete_release_def Let_def intro: fences_store)

lemma fences_fail_release: "fences_ok s \<Longrightarrow> fences_ok (snd (fail_release name f s))"
  by (cases "fenced_lookup s name f")
    (auto simp: fail_release_def Let_def intro: fences_store)

lemma fences_complete_revocation: "fences_ok s \<Longrightarrow> fences_ok (snd (complete_revocation name f s))"
  by (cases "fenced_lookup s name f") (auto simp: complete_revocation_def)

lemma fences_cong:
  "rm_leases s' = rm_leases s \<Longrightarrow> rm_next_fence_token s' = rm_next_fence_token s \<Longrightarrow>
     fences_ok s' = fences_ok s"
  unfolding fences_ok_def by simp

lemma refresh_keeps [simp]:
  "rm_leases (snd (refresh_inventory snap s)) = rm_leases s"
  "rm_next_fence_token (snd (refresh_inventory snap s)) = rm_next_fence_token s"
  "rm_allocated (snd (refresh_inventory snap s)) = rm_allocated s"
  by (simp_all add: refresh_inventory_def Let_def case_prod_beta)

lemma quarantine_keeps [simp]:
  "rm_leases (snd (quarantine i r s)) = rm_leases s"
  "rm_next_fence_token (snd (quarantine i r s)) = rm_next_fence_token s"
  "rm_allocated (snd (quarantine i r s)) = rm_allocated s"
  "rm_generation (snd (quarantine i r s)) = rm_generation s"
  by (cases "map_of (rm_resources s) i"; simp add: quarantine_def)+

lemma fences_exec: "fences_ok s \<Longrightarrow> fences_ok (rm_exec c s)"
  by (cases c) (simp_all add: fences_acquire fences_revoke fences_renew fences_begin_release
    fences_complete_release fences_fail_release fences_complete_revocation
    fences_expire get_lease_def leases_def Let_def
    fences_cong [OF refresh_keeps(1,2)] fences_cong [OF quarantine_keeps(1,2)])

lemma rm_reach_fences: "rm_reach s R \<Longrightarrow> fences_ok s"
proof (induction rule: rm_reach.induct)
  case (rm_init resources n)
  then show ?case by (simp add: fences_ok_def with_next_fence_token_def less_max_iff_disj)
next
  case (rm_step s R c)
  then show ?case by (simp add: fences_exec)
qed

end
