(* ===== verification/Ledger_Properties.thy ===== *)
theory Ledger_Properties
  imports Resource_Manager
begin

text \<open>
  What the resource ledger promises its callers: exclusive allocation over every interleaving,
  the exact outcome of an acquisition, fence tokens that identify one grant and stay dead once
  revoked, the lease lifecycle it really implements, the release path, how its renewal relates to the
  contract's, and how long an endpoint grant lives over its leases. The interface of the six
  operations that present a fence token is a locale, interpreted for each of them.
\<close>

section \<open>Operations under a fence token\<close>

text \<open>
  A fenced operation first brings the ledger up to date (\<open>entry\<close>, which may expire leases) and
  then answers a token that is not the lease's own with an error, leaving that state.
\<close>

locale fenced_operation =
  fixes opr :: "string \<Rightarrow> u64 \<Rightarrow> rm_state \<Rightarrow> (provider_error + resource_lease) \<times> rm_state"
    and entry :: "rm_state \<Rightarrow> rm_state"
  assumes entry_fences:
      "map_option rl_fence_token (map_of (rm_leases (entry s)) n) =
       map_option rl_fence_token (map_of (rm_leases s) n)"
    and entry_allocated: "rm_allocated (entry s) = rm_allocated s"
    and entry_next: "rm_next_fence_token (entry s) = rm_next_fence_token s"
    and rejects: "map_option rl_fence_token (map_of (rm_leases s) n) \<noteq> Some f \<Longrightarrow>
       \<exists>e. opr n f s = (Inl e, entry s)"
begin

lemma stale_token_rejected:
  assumes "map_of (rm_leases s) n = Some l" and "rl_fence_token l \<noteq> f"
  shows "\<exists>e. opr n f s = (Inl e, entry s)"
  by (rule rejects) (use assms in simp)

lemma success_needs_current_token:
  assumes "opr n f s = (Inr l', s')"
  shows "\<exists>l. map_of (rm_leases s) n = Some l \<and> rl_fence_token l = f"
  using rejects [of s n f] assms by force

lemma rejected_changes_no_claim:
  assumes "map_option rl_fence_token (map_of (rm_leases s) n) \<noteq> Some f"
  shows "rm_allocated (snd (opr n f s)) = rm_allocated s \<and>
    rm_next_fence_token (snd (opr n f s)) = rm_next_fence_token s \<and>
    map_option rl_fence_token (map_of (rm_leases (snd (opr n f s))) m) =
      map_option rl_fence_token (map_of (rm_leases s) m)"
  using rejects [OF assms] entry_fences entry_allocated entry_next by auto

end

lemma fences_after_expire:
  "map_option rl_fence_token (map_of (rm_leases (expire_due_leases now s)) n) =
   map_option rl_fence_token (map_of (rm_leases s) n)"
  by (cases "map_of (rm_leases s) n") (simp_all add: map_of_expire)

lemma fenced_lookup_rejects:
  "map_option rl_fence_token (map_of (rm_leases s) n) \<noteq> Some f \<Longrightarrow> \<exists>e. fenced_lookup s n f = Inl e"
  by (cases "map_of (rm_leases s) n") (auto simp: fenced_lookup_def)

lemma fenced_lookup_expire_rejects:
  "map_option rl_fence_token (map_of (rm_leases s) n) \<noteq> Some f \<Longrightarrow>
   \<exists>e. fenced_lookup (expire_due_leases now s) n f = Inl e"
  by (rule fenced_lookup_rejects) (simp add: fences_after_expire)

interpretation renewing: fenced_operation "\<lambda>n f. renew_lease now n f e" "expire_due_leases now" for now e
proof
  fix s :: rm_state and n f assume "map_option rl_fence_token (map_of (rm_leases s) n) \<noteq> Some f"
  then obtain x where "fenced_lookup (expire_due_leases now s) n f = Inl x"
    using fenced_lookup_expire_rejects by blast
  then show "\<exists>x. renew_lease now n f e s = (Inl x, expire_due_leases now s)"
    by (auto simp: renew_lease_def Let_def)
qed (simp_all add: fences_after_expire)

interpretation begin_releasing: fenced_operation "begin_release now" "expire_due_leases now" for now
proof
  fix s :: rm_state and n f assume "map_option rl_fence_token (map_of (rm_leases s) n) \<noteq> Some f"
  then obtain x where "fenced_lookup (expire_due_leases now s) n f = Inl x"
    using fenced_lookup_expire_rejects by blast
  then show "\<exists>x. begin_release now n f s = (Inl x, expire_due_leases now s)"
    by (auto simp: begin_release_def Let_def)
qed (simp_all add: fences_after_expire)

interpretation complete_releasing: fenced_operation complete_release "\<lambda>s. s"
proof
  fix s :: rm_state and n f assume "map_option rl_fence_token (map_of (rm_leases s) n) \<noteq> Some f"
  from fenced_lookup_rejects [OF this] show "\<exists>x. complete_release n f s = (Inl x, s)"
    by (auto simp: complete_release_def)
qed simp_all

interpretation fail_releasing: fenced_operation fail_release "\<lambda>s. s"
proof
  fix s :: rm_state and n f assume "map_option rl_fence_token (map_of (rm_leases s) n) \<noteq> Some f"
  from fenced_lookup_rejects [OF this] show "\<exists>x. fail_release n f s = (Inl x, s)"
    by (auto simp: fail_release_def)
qed simp_all

interpretation revoking: fenced_operation "revoke now" "expire_due_leases now" for now
proof
  fix s :: rm_state and n f assume "map_option rl_fence_token (map_of (rm_leases s) n) \<noteq> Some f"
  then obtain x where "fenced_lookup (expire_due_leases now s) n f = Inl x"
    using fenced_lookup_expire_rejects by blast
  then show "\<exists>x. revoke now n f s = (Inl x, expire_due_leases now s)"
    by (auto simp: revoke_def Let_def)
qed (simp_all add: fences_after_expire)

interpretation complete_revoking: fenced_operation complete_revocation "\<lambda>s. s"
proof
  fix s :: rm_state and n f assume "map_option rl_fence_token (map_of (rm_leases s) n) \<noteq> Some f"
  from fenced_lookup_rejects [OF this] show "\<exists>x. complete_revocation n f s = (Inl x, s)"
    by (auto simp: complete_revocation_def)
qed simp_all

section \<open>How one call changes one lease\<close>

text \<open>The lifecycle the ledger implements, with its two steps outside the contract's.\<close>

definition ledger_steps :: "(ledger_state \<times> ledger_state) set" where
  "ledger_steps =
     {(LActive, LReleasing), (LActive, LExpired), (LActive, LRevoked), (LReleasing, LReleased),
      (LReleasing, LFailed), (LReleasing, LRevoked), (LFailed, LReleasing), (LExpired, LRevoked)}"

definition evolves :: "resource_lease \<Rightarrow> resource_lease \<Rightarrow> bool" where
  "evolves l l' \<longleftrightarrow>
     rl_allocations l' = rl_allocations l \<and> rl_name l' = rl_name l \<and> rl_holder l' = rl_holder l \<and>
     rl_fence_token l \<le> rl_fence_token l' \<and>
     (rl_state l' = rl_state l \<or> (rl_state l, rl_state l') \<in> ledger_steps)"

definition leases_evolve :: "rm_state \<Rightarrow> rm_state \<Rightarrow> bool" where
  "leases_evolve s s' \<longleftrightarrow>
     (\<forall>n l. map_of (rm_leases s) n = Some l \<longrightarrow>
        (\<exists>l'. map_of (rm_leases s') n = Some l' \<and> evolves l l'))"

lemma evolves_refl [simp]: "evolves l l"
  by (simp add: evolves_def)

lemma evolves_expire_trans: "evolves (expire_lease now l) l' \<Longrightarrow> evolves l l'"
  by (auto simp: evolves_def expire_lease_def ledger_steps_def split: if_splits)

lemma evolve_refl [simp]: "leases_evolve s s"
  by (simp add: leases_evolve_def)

lemma evolve_cong: "rm_leases s' = rm_leases s \<Longrightarrow> leases_evolve s s'"
  by (simp add: leases_evolve_def)

lemma evolve_expire:
  assumes "leases_evolve (expire_due_leases now s) s'" shows "leases_evolve s s'"
  unfolding leases_evolve_def
proof (intro allI impI)
  fix n l assume "map_of (rm_leases s) n = Some l"
  then have "map_of (rm_leases (expire_due_leases now s)) n = Some (expire_lease now l)"
    by (simp add: map_of_expire)
  then obtain l' where "map_of (rm_leases s') n = Some l'" "evolves (expire_lease now l) l'"
    using assms unfolding leases_evolve_def by blast
  then show "\<exists>l'. map_of (rm_leases s') n = Some l' \<and> evolves l l'"
    using evolves_expire_trans by blast
qed

lemma evolve_store:
  assumes "fenced_lookup s name f = Inr l" and "evolves l l'"
    and "rm_leases s' = bm_update name (\<lambda>_. l') (rm_leases s)"
  shows "leases_evolve s s'"
  using assms by (auto simp: leases_evolve_def fenced_lookup_Inr)

lemma evolve_stored:
  assumes "fenced_lookup s name f = Inr l" and "evolves l l'"
  shows "leases_evolve s (store_lease name l' s)"
    and "leases_evolve s (store_lease name l' (free_allocations l s))"
  by (rule evolve_store [OF assms], simp)+

lemma evolve_grant:
  "map_of (rm_leases s) name = None \<Longrightarrow> leases_evolve s (grant_state name l c s)"
  by (auto simp: leases_evolve_def grant_state_def)

lemma evolve_acquire: "leases_evolve s (snd (acquire_lease now now' req s))"
proof (rule evolve_expire [where now = now], rule acquire_lease_state [of now now' req s])
  fix e assume "acquire_lease now now' req s = (Inl e, expire_due_leases now s)"
  then show "leases_evolve (expire_due_leases now s) (snd (acquire_lease now now' req s))" by simp
next
  fix l c
  assume "acquire_lease now now' req s = (Inr l, grant_state (rr_lease_name req) l c (expire_due_leases now s))"
    "map_of (rm_leases (expire_due_leases now s)) (rr_lease_name req) = None"
  then show "leases_evolve (expire_due_leases now s) (snd (acquire_lease now now' req s))"
    using evolve_grant by simp
qed

lemma evolve_revoke: "leases_evolve s (snd (revoke now name f s))"
proof (rule evolve_expire [where now = now], rule revoke_state [of now name f s])
  fix e assume "revoke now name f s = (Inl e, expire_due_leases now s)"
  then show "leases_evolve (expire_due_leases now s) (snd (revoke now name f s))" by simp
next
  fix l g
  assume l: "map_of (rm_leases (expire_due_leases now s)) name = Some l" "rl_fence_token l = f"
    and st: "rl_state l \<in> {LActive, LReleasing, LExpired}"
    and g: "g = max (rm_next_fence_token s) (saturating_add f 1)"
    and r: "revoke now name f s =
      (Inr (l\<lparr>rl_fence_token := g, rl_state := LRevoked\<rparr>),
       store_lease name (l\<lparr>rl_fence_token := g, rl_state := LRevoked\<rparr>)
         ((expire_due_leases now s)\<lparr>rm_next_fence_token := saturating_add g 1\<rparr>))"
  have "f \<le> g" unfolding g using saturating_add_ge [of f 1] by (simp add: le_max_iff_disj)
  then have "evolves l (l\<lparr>rl_fence_token := g, rl_state := LRevoked\<rparr>)"
    using st l(2) by (auto simp: evolves_def ledger_steps_def)
  moreover have "fenced_lookup (expire_due_leases now s) name f = Inr l"
    using l by (simp add: fenced_lookup_Inr)
  ultimately show "leases_evolve (expire_due_leases now s) (snd (revoke now name f s))"
    by (intro evolve_store) (simp_all add: r)
qed

lemma evolve_renew: "leases_evolve s (snd (renew_lease now name f e s))"
  by (rule evolve_expire [where now = now], cases "fenced_lookup (expire_due_leases now s) name f")
    (auto simp: renew_lease_def Let_def evolves_def intro!: evolve_stored)

lemma evolve_begin_release: "leases_evolve s (snd (begin_release now name f s))"
  by (rule evolve_expire [where now = now], cases "fenced_lookup (expire_due_leases now s) name f")
    (auto simp: begin_release_def Let_def evolves_def ledger_steps_def intro!: evolve_stored)

lemma evolve_complete_release: "leases_evolve s (snd (complete_release name f s))"
  by (cases "fenced_lookup s name f")
    (auto simp: complete_release_def Let_def evolves_def ledger_steps_def intro!: evolve_stored)

lemma evolve_fail_release: "leases_evolve s (snd (fail_release name f s))"
  by (cases "fenced_lookup s name f")
    (auto simp: fail_release_def Let_def evolves_def ledger_steps_def intro!: evolve_stored)

lemma evolve_complete_revocation: "leases_evolve s (snd (complete_revocation name f s))"
  by (cases "fenced_lookup s name f") (auto simp: complete_revocation_def intro: evolve_cong)

lemma evolve_exec: "leases_evolve s (rm_exec c s)"
  by (cases c)
    (simp_all add: evolve_acquire evolve_revoke evolve_renew evolve_begin_release
      evolve_complete_release evolve_fail_release evolve_complete_revocation get_lease_def leases_def
      Let_def evolve_cong evolve_expire [OF evolve_refl])

lemma exec_next_mono: "rm_next_fence_token s \<le> rm_next_fence_token (rm_exec c s)"
proof -
  have "rm_next_fence_token s \<le> saturating_add (max (rm_next_fence_token s) x) 1" for x
    using saturating_add_ge [of "max (rm_next_fence_token s) x" 1] by (simp add: le_max_iff_disj order.trans)
  then show ?thesis
    by (cases c)
      (auto simp: acquire_lease_def renew_lease_def begin_release_def complete_release_def
        fail_release_def revoke_def complete_revocation_def get_lease_def leases_def Let_def
        grant_state_def saturating_add_ge split: sum.splits)
qed

lemma run_fence_mono:
  assumes "map_of (rm_leases s) n = Some l"
  shows "\<exists>l'. map_of (rm_leases (fold rm_exec cs s)) n = Some l' \<and>
    rl_fence_token l \<le> rl_fence_token l' \<and> rl_allocations l' = rl_allocations l"
  using assms
proof (induction cs arbitrary: s l)
  case (Cons c cs)
  then obtain l1 where l1: "map_of (rm_leases (rm_exec c s)) n = Some l1" "evolves l l1"
    using evolve_exec [of s c] unfolding leases_evolve_def by blast
  from Cons.IH [OF l1(1)] l1(2) show ?case
    by (auto simp: evolves_def intro: order.trans)
qed simp

lemma begin_release_Inr:
  assumes "begin_release now n f s = (Inr l1, s1)"
  obtains l0 where "map_of (rm_leases (expire_due_leases now s)) n = Some l0" "rl_fence_token l0 = f"
    and "rl_state l0 \<in> {LActive, LFailed} \<and> l1 = l0\<lparr>rl_state := LReleasing\<rparr> \<and>
        s1 = store_lease n l1 (expire_due_leases now s) \<or>
      rl_state l0 \<in> {LReleasing, LReleased} \<and> l1 = l0 \<and> s1 = expire_due_leases now s"
proof (cases "fenced_lookup (expire_due_leases now s) n f")
  case (Inl e)
  then show thesis using assms by (simp add: begin_release_def)
next
  case (Inr l0)
  then have "map_of (rm_leases (expire_due_leases now s)) n = Some l0" "rl_fence_token l0 = f"
    by (simp_all add: fenced_lookup_Inr)
  moreover have "rl_state l0 \<in> {LActive, LFailed} \<and> l1 = l0\<lparr>rl_state := LReleasing\<rparr> \<and>
        s1 = store_lease n l1 (expire_due_leases now s) \<or>
      rl_state l0 \<in> {LReleasing, LReleased} \<and> l1 = l0 \<and> s1 = expire_due_leases now s"
    using assms Inr by (cases "rl_state l0") (auto simp: begin_release_def Let_def)
  ultimately show thesis by (rule that)
qed

section \<open>Acquisition\<close>

definition eligible :: "resource_query \<Rightarrow> rm_state \<Rightarrow> string set" where
  "eligible q s =
     {x. \<exists>r. map_of (rm_resources s) x = Some r \<and> res_state r = ResourceReady \<and>
         ResourceQuery_matches q r \<and> x \<notin> set (rm_allocated s) \<and> x \<notin> set (rm_quarantined s)}"

lemma eligible_expire [simp]: "eligible q (expire_due_leases now s) = eligible q s"
  by (simp add: eligible_def)

lemma candidate_ids:
  assumes "resources_ok (rm_resources s)"
  shows "map (\<lambda>r. ident_id (res_identity r)) (lease_candidates q s) =
    take (unat (rq_count q)) (sorted_list_of_set (eligible q s))"
proof -
  let ?id = "\<lambda>r. ident_id (res_identity r)"
  let ?P = "\<lambda>r. ?id r \<notin> set (rm_allocated s) \<and> ?id r \<notin> set (rm_quarantined s) \<and>
      res_state r = ResourceReady \<and> ResourceQuery_matches q r"
  let ?xs = "map ?id (filter ?P (bm_values (rm_resources s)))"
  have key: "?id (snd e) = fst e" if "e \<in> set (rm_resources s)" for e
    using assms that map_of_in_set [of "rm_resources s" "fst e" "snd e"]
    unfolding resources_ok_def by auto
  have "map ?id (bm_values (rm_resources s)) = map fst (rm_resources s)"
    unfolding bm_values_def list.map_comp comp_def using key by (rule map_cong [OF refl])
  then have "sorted_wrt (<) (map ?id (bm_values (rm_resources s)))"
    using assms by (simp add: resources_ok_def bm_ok_def)
  then have sorted: "sorted_wrt (<) ?xs"
    by (simp add: sorted_wrt_map sorted_wrt_filter)
  have "set ?xs = eligible q s"
  proof (intro set_eqI iffI)
    fix x assume "x \<in> set ?xs"
    then obtain r where r: "r \<in> set (bm_values (rm_resources s))" "?P r" "x = ?id r" by auto
    then obtain k where "(k, r) \<in> set (rm_resources s)" by (auto simp: bm_values_def)
    moreover from key [OF this] have "k = x" using r(3) by simp
    ultimately have "map_of (rm_resources s) x = Some r"
      using assms by (simp add: resources_ok_def map_of_in_set)
    then show "x \<in> eligible q s" using r by (auto simp: eligible_def)
  next
    fix x assume "x \<in> eligible q s"
    then obtain r where r: "map_of (rm_resources s) x = Some r" "res_state r = ResourceReady"
      "ResourceQuery_matches q r" "x \<notin> set (rm_allocated s)" "x \<notin> set (rm_quarantined s)"
      by (auto simp: eligible_def)
    have m: "(x, r) \<in> set (rm_resources s)" using r(1) by (rule map_of_SomeD)
    then have "r \<in> set (bm_values (rm_resources s))" by (force simp: bm_values_def)
    moreover have "?id r = x" using key [OF m] by simp
    ultimately show "x \<in> set ?xs" using r by (auto simp: image_iff)
  qed
  moreover have "sorted_list_of_set (set ?xs) = ?xs"
    using sorted [unfolded strict_sorted_iff]
    by (intro sorted_list_of_set.idem_if_sorted_distinct) (elim conjE, assumption)+
  ultimately have "?xs = sorted_list_of_set (eligible q s)" by (simp only:)
  then show ?thesis by (simp add: lease_candidates_def take_map [symmetric])
qed

lemma finite_eligible: "finite (eligible q s)"
proof -
  have "eligible q s \<subseteq> dom (map_of (rm_resources s))" by (auto simp: eligible_def)
  then show ?thesis using finite_dom_map_of finite_subset by blast
qed

section \<open>A worked example\<close>

text \<open>One ready resource, requests for it, and the ledger states of a short run.\<close>

definition ex_gpu :: resource where
  "ex_gpu =
     \<lparr>res_identity = Identity ''g0'' 1, res_provider = Identity ''prov'' 1, res_class = ''gpu'',
      res_capabilities = [], res_capacity = [], res_attributes = [], res_state = ResourceReady,
      res_reason_code = ''ready'', res_summary = ''ok'', res_links = []\<rparr>"

definition ex_limits :: cgroup_limits where
  "ex_limits = \<lparr>cl_cpu_max_millicores = None, cl_memory_max_bytes = None, cl_cpuset_cpus = None\<rparr>"

definition ex_query :: resource_query where
  "ex_query = \<lparr>rq_class = ''gpu'', rq_count = 1, rq_required_capabilities = [],
               rq_minimum_capacity = []\<rparr>"

definition ex_request :: "string \<Rightarrow> resource_request" where
  "ex_request name =
     \<lparr>rr_lease_name = name, rr_expected_inventory_generation = 1, rr_holder = Identity name 1,
      rr_query = ex_query, rr_expires_at_unix_ms = Some 50, rr_limits = ex_limits\<rparr>"

definition ex_lease :: "string \<Rightarrow> u64 \<Rightarrow> ledger_state \<Rightarrow> resource_lease" where
  "ex_lease name fence st =
     \<lparr>rl_name = name, rl_generation = 1, rl_state = st, rl_holder = Identity name 1,
      rl_allocations =
        [\<lparr>alloc_allocation_id = name @ '':g0'', alloc_resource = Identity ''g0'' 1,
          alloc_granted_capacity = [], alloc_enforcement = ObserveOnly\<rparr>],
      rl_inventory_generation = 1, rl_fence_token = fence, rl_expires_at_unix_ms = Some 50,
      rl_limits = ex_limits\<rparr>"

definition ex_state :: "bool \<Rightarrow> (string, resource_lease) btree_map \<Rightarrow> u64 \<Rightarrow> rm_state" where
  "ex_state held ls nxt =
     \<lparr>rm_generation = 1, rm_resources = [(''g0'', ex_gpu)],
      rm_allocated = (if held then [''g0''] else []), rm_quarantined = [], rm_leases = ls,
      rm_next_fence_token = nxt\<rparr>"

definition ex_start :: rm_state where
  "ex_start = with_next_fence_token [ex_gpu] 1"

lemma ex_start_state: "ex_start = ex_state False [] 1"
  by (simp add: ex_start_def with_next_fence_token_def ex_state_def index_resources_def
      bm_collect_def ex_gpu_def)

lemma ex_query_valid: "ResourceQuery_validate ex_query = Inr ()"
  by (simp add: ResourceQuery_validate_def ex_query_def validate_namespaced_id_grammar
      namespaced_grammar_def ns_segment_def ns_rest_def is_separator_def is_ascii_lowercase_def
      byte_def contract_limits validate_quantities_def)

lemma ex_expire:
  "expire_due_leases 1 (ex_state h ls nxt) = ex_state h (map (\<lambda>(n, l). (n, expire_lease 1 l)) ls) nxt"
  "expire_lease 1 (ex_lease n f st) = ex_lease n f st"
  by (simp_all add: expire_due_leases_def ex_state_def expire_lease_def ex_lease_def word_le_nat_alt)

lemma ex_candidates: "lease_candidates ex_query (ex_state False ls nxt) = [ex_gpu]"
  by (simp add: lease_candidates_def ex_state_def bm_values_def ResourceQuery_matches_def
      ex_query_def ex_gpu_def)

lemma ex_granted:
  "granted_lease (ex_request n) [ex_gpu] (ex_state False ls nxt) = ex_lease n nxt LActive"
  by (simp add: granted_lease_def ex_request_def ex_lease_def ex_gpu_def ex_state_def
      new_allocation_def)

lemma ex_grant_state:
  "grant_state n l [ex_gpu] (ex_state False ls nxt) =
     ex_state True (bm_insert n l ls) (saturating_add nxt 1)"
  by (simp add: grant_state_def ex_state_def ex_gpu_def)

lemma ex_acquire:
  assumes "map_of ls n = None" and "\<forall>(m, l)\<in>set ls. expire_lease 1 l = l"
  shows "acquire_lease 1 1 (ex_request n) (ex_state False ls nxt) =
    (Inr (ex_lease n nxt LActive),
     ex_state True (bm_insert n (ex_lease n nxt LActive) ls) (saturating_add nxt 1))"
proof -
  have "map (\<lambda>(n, l). (n, expire_lease 1 l)) ls = ls"
    using assms(2) by (intro map_idI) auto
  then have e: "expire_due_leases 1 (ex_state False ls nxt) = ex_state False ls nxt"
    by (simp add: ex_expire)
  have q: "rr_query (ex_request n) = ex_query" "rr_lease_name (ex_request n) = n"
    "rr_expected_inventory_generation (ex_request n) = 1" "rr_expires_at_unix_ms (ex_request n) = Some 50"
    by (simp_all add: ex_request_def)
  show ?thesis
    unfolding acquire_lease_Inr Let_def e q ex_candidates ex_granted ex_grant_state
    using assms(1) by (simp add: ex_state_def ex_query_valid) (simp add: ex_query_def)
qed

lemma ex_revoke: "revoke 1 ''a'' 1 (ex_state True [(''a'', ex_lease ''a'' 1 LActive)] 2) =
  (Inr (ex_lease ''a'' 2 LRevoked), ex_state True [(''a'', ex_lease ''a'' 2 LRevoked)] 3)"
  by (simp add: revoke_def ex_expire fenced_lookup_def Let_def)
    (simp add: ex_state_def ex_lease_def store_lease_def bm_update_def saturating_add_def
      Let_def)

lemma ex_complete_revocation:
  "map_of ls ''a'' = Some (ex_lease ''a'' 2 LRevoked) \<Longrightarrow>
   complete_revocation ''a'' 2 (ex_state h ls nxt) =
     (Inr (ex_lease ''a'' 2 LRevoked), ex_state False ls nxt)"
  by (simp add: complete_revocation_def fenced_lookup_def free_allocations_def ex_state_def
      ex_lease_def bs_remove_def)

abbreviation ex_held :: rm_state where
  "ex_held \<equiv> ex_state True [(''a'', ex_lease ''a'' 1 LActive)] 2"

lemma ex_held_exec: "rm_exec (CAcquire 1 1 (ex_request ''a'')) ex_start = ex_held"
  by (simp add: ex_start_state ex_acquire saturating_add_def)

lemma ex_start_reach: "rm_reach ex_start {}"
  unfolding ex_start_def by (rule rm_init)

lemma ex_held_reach: "rm_reach ex_held {}"
  using rm_step [OF ex_start_reach, of "CAcquire 1 1 (ex_request ''a'')"]
  unfolding ex_held_exec by (simp add: reaped_after_def)

section \<open>Properties\<close>

text \<open>C1. Exclusive allocation. Whatever calls the ledger has served, in whatever order and at
  whatever clock readings, provided the cleanup of one revoked lease is reported once: no
  resource is held by two leases (active, releasing, expired, failed, or revoked with the cleanup
  outstanding), and the allocated set is exactly the set of the held resources.\<close>

theorem ledger_exclusive:
  assumes "rm_reach s R"
  shows "(\<forall>n m l k. map_of (rm_leases s) n = Some l \<and> map_of (rm_leases s) m = Some k \<and>
        holding R n l \<and> holding R m k \<and> set (lease_ids l) \<inter> set (lease_ids k) \<noteq> {} \<longrightarrow> n = m) \<and>
    set (rm_allocated s) =
      {x. \<exists>n l. map_of (rm_leases s) n = Some l \<and> holding R n l \<and> x \<in> set (lease_ids l)}"
proof -
  have wf: "wf_ledger s R" by (rule rm_reach_wf [OF assms])
  have ex: "exclusive (claims R (rm_leases s))"
    and al: "set (rm_allocated s) = Range (claims R (rm_leases s))"
    using wf by (simp_all add: wf_ledger_def)
  show ?thesis
  proof (intro conjI allI impI)
    fix n m l k assume a: "map_of (rm_leases s) n = Some l \<and> map_of (rm_leases s) m = Some k \<and>
        holding R n l \<and> holding R m k \<and> set (lease_ids l) \<inter> set (lease_ids k) \<noteq> {}"
    then obtain x where "x \<in> set (lease_ids l)" "x \<in> set (lease_ids k)" by blast
    then have "(n, x) \<in> claims R (rm_leases s)" "(m, x) \<in> claims R (rm_leases s)"
      using a by (auto simp: claims_def)
    then show "n = m" using ex unfolding exclusive_def by blast
  next
    show "set (rm_allocated s) =
      {x. \<exists>n l. map_of (rm_leases s) n = Some l \<and> holding R n l \<and> x \<in> set (lease_ids l)}"
      unfolding al claims_def by blast
  qed
qed

theorem ledger_exclusive_witness:
  "rm_reach ex_held {} \<and> set (rm_allocated ex_held) = {''g0''} \<and>
   (\<exists>n l. map_of (rm_leases ex_held) n = Some l \<and> holding {} n l \<and> ''g0'' \<in> set (lease_ids l))"
proof -
  have a: "set (rm_allocated ex_held) = {''g0''}" by (simp add: ex_state_def)
  then have "''g0'' \<in> {x. \<exists>n l. map_of (rm_leases ex_held) n = Some l \<and> holding {} n l \<and>
      x \<in> set (lease_ids l)}"
    using ledger_exclusive [OF ex_held_reach] by blast
  then show ?thesis using a ex_held_reach by blast
qed

text \<open>C4. Fence tokens identify one grant. In every reachable state whose token counter has not
  saturated at the 64-bit maximum, all tokens are non-zero and below the counter, and two leases
  never carry the same token; the counter itself never decreases under any call.\<close>

theorem ledger_fences_unique:
  assumes "rm_reach s R"
  shows "rm_next_fence_token s \<le> rm_next_fence_token (rm_exec c s) \<and>
    (rm_next_fence_token s \<noteq> - 1 \<longrightarrow>
      (\<forall>n l. map_of (rm_leases s) n = Some l \<longrightarrow>
         0 < rl_fence_token l \<and> rl_fence_token l < rm_next_fence_token s) \<and>
      (\<forall>n m l k. map_of (rm_leases s) n = Some l \<and> map_of (rm_leases s) m = Some k \<and>
         rl_fence_token l = rl_fence_token k \<longrightarrow> n = m))"
  using rm_reach_fences [OF assms] exec_next_mono [of s c] unfolding fences_ok_def by blast

theorem ledger_fences_unique_witness:
  "rm_reach ex_held {} \<and> rm_next_fence_token ex_held = 2 \<and>
   rl_fence_token (ex_lease ''a'' 1 LActive) < rm_next_fence_token ex_held"
proof -
  have "map_of (rm_leases ex_held) ''a'' = Some (ex_lease ''a'' 1 LActive)"
    "rm_next_fence_token ex_held = 2" by (simp_all add: ex_state_def)
  then show ?thesis using ledger_fences_unique [OF ex_held_reach] ex_held_reach by simp
qed

text \<open>C2. Once a lease is revoked, its old token is dead for good: after any further sequence of
  calls, each of the six operations that present a token refuses the old one and leaves the
  allocated set alone. (The one exception is the counter's saturation at the 64-bit maximum.)\<close>

theorem revoked_fence_dead:
  assumes "revoke t n f s = (Inr l, s1)" and "f \<noteq> - 1" and "s2 = fold rm_exec cs s1"
  shows "(\<exists>e. renew_lease now n f x s2 = (Inl e, expire_due_leases now s2)) \<and>
    (\<exists>e. begin_release now n f s2 = (Inl e, expire_due_leases now s2)) \<and>
    (\<exists>e. complete_release n f s2 = (Inl e, s2)) \<and>
    (\<exists>e. fail_release n f s2 = (Inl e, s2)) \<and>
    (\<exists>e. revoke now n f s2 = (Inl e, expire_due_leases now s2)) \<and>
    (\<exists>e. complete_revocation n f s2 = (Inl e, s2)) \<and>
    rm_allocated (expire_due_leases now s2) = rm_allocated s2"
proof -
  have "map_of (rm_leases s1) n = Some l \<and> f < rl_fence_token l"
  proof (rule revoke_state [of t n f s])
    fix k g assume k: "map_of (rm_leases (expire_due_leases t s)) n = Some k"
      and g: "g = max (rm_next_fence_token s) (saturating_add f 1)"
      and r: "revoke t n f s =
        (Inr (k\<lparr>rl_fence_token := g, rl_state := LRevoked\<rparr>),
         store_lease n (k\<lparr>rl_fence_token := g, rl_state := LRevoked\<rparr>)
           ((expire_due_leases t s)\<lparr>rm_next_fence_token := saturating_add g 1\<rparr>))"
    have "f < g" unfolding g using saturating_add_one_gt [OF assms(2)] by (simp add: less_max_iff_disj)
    then show ?thesis using r k assms(1) by auto
  qed (use assms(1) in simp)
  then obtain l2 where l2: "map_of (rm_leases s2) n = Some l2" "rl_fence_token l2 \<noteq> f"
    using run_fence_mono [of s1 n l cs] assms(3) by force
  show ?thesis
    by (intro conjI renewing.stale_token_rejected [OF l2] begin_releasing.stale_token_rejected [OF l2]
        complete_releasing.stale_token_rejected [OF l2] fail_releasing.stale_token_rejected [OF l2]
        revoking.stale_token_rejected [OF l2] complete_revoking.stale_token_rejected [OF l2]
        expire_due_leases_simps)
qed

theorem revoked_fence_dead_witness:
  "\<exists>s1 e. revoke 1 ''a'' 1 ex_held = (Inr (ex_lease ''a'' 2 LRevoked), s1) \<and>
     complete_release ''a'' 1 (fold rm_exec [CCompleteRevocation ''a'' 2] s1) =
       (Inl e, fold rm_exec [CCompleteRevocation ''a'' 2] s1)"
proof -
  have "(1 :: u64) \<noteq> - 1" by simp
  from revoked_fence_dead [OF ex_revoke this refl, of _ _ "[CCompleteRevocation ''a'' 2]"]
  show ?thesis using ex_revoke by blast
qed

text \<open>C3. The outcome of an acquisition in a reachable state. With a current inventory generation,
  an unused lease name, a valid query and a future expiry, it succeeds exactly when enough
  resources are eligible (ready, matching, neither allocated nor quarantined); the lease gets
  exactly the smallest eligible ids in order, under the next fence token, and these ids are what
  is added to the allocated set. In every other case the call is refused and nothing but lease
  expiry is recorded.\<close>

theorem acquire_lease_exact:
  assumes "rm_reach s R"
  shows "let ids = take (unat (rq_count (rr_query req))) (sorted_list_of_set (eligible (rr_query req) s));
        admissible = (rr_expected_inventory_generation req = rm_generation s \<and>
          map_of (rm_leases s) (rr_lease_name req) = None \<and>
          ResourceQuery_validate (rr_query req) = Inr () \<and>
          (\<forall>e. rr_expires_at_unix_ms req = Some e \<longrightarrow> now' < e) \<and>
          unat (rq_count (rr_query req)) \<le> card (eligible (rr_query req) s))
    in case acquire_lease now now' req s of
      (Inl e, s') \<Rightarrow> \<not> admissible \<and> s' = expire_due_leases now s
    | (Inr l, s') \<Rightarrow> admissible \<and> lease_ids l = ids \<and> rl_state l = LActive \<and>
        rl_holder l = rr_holder req \<and> rl_expires_at_unix_ms l = rr_expires_at_unix_ms req \<and>
        rl_fence_token l = rm_next_fence_token s \<and>
        map_of (rm_leases s') (rr_lease_name req) = Some l \<and>
        set (rm_allocated s') = set (rm_allocated s) \<union> set ids"
proof -
  let ?s = "expire_due_leases now s" and ?q = "rr_query req"
  let ?c = "lease_candidates ?q ?s"
  have rok: "resources_ok (rm_resources ?s)"
    using rm_reach_wf [OF assms] by (simp add: wf_ledger_def)
  have ids: "map (\<lambda>r. ident_id (res_identity r)) ?c =
      take (unat (rq_count ?q)) (sorted_list_of_set (eligible ?q s))"
    using candidate_ids [OF rok, of ?q] by simp
  have "length ?c = min (card (eligible ?q s)) (unat (rq_count ?q))"
    using arg_cong [OF ids, of length] by (simp add: sorted_list_of_set.length_sorted_key_list_of_set)
  then have len: "length ?c = unat (rq_count ?q) \<longleftrightarrow> unat (rq_count ?q) \<le> card (eligible ?q s)"
    by auto
  have fresh: "map_of (rm_leases ?s) (rr_lease_name req) = None \<longleftrightarrow>
      map_of (rm_leases s) (rr_lease_name req) = None"
    by (simp add: map_of_expire)
  show ?thesis
  proof (cases "acquire_lease now now' req s")
    case (Pair r s')
    show ?thesis
    proof (cases r)
      case (Inl e)
      have "s' = ?s" using Pair Inl acquire_lease_Inl by simp
      moreover have "acquire_lease now now' req s \<noteq>
          (Inr (granted_lease req ?c ?s), grant_state (rr_lease_name req) (granted_lease req ?c ?s) ?c ?s)"
        using Pair Inl by simp
      ultimately show ?thesis
        using Pair Inl unfolding acquire_lease_Inr Let_def len fresh by simp
    next
      case (Inr l)
      then have a: "acquire_lease now now' req s = (Inr l, s')" using Pair by simp
      note c = a [unfolded acquire_lease_Inr Let_def len fresh]
      then have l: "l = granted_lease req ?c ?s" by (elim conjE)
      have s': "s' = grant_state (rr_lease_name req) l ?c ?s" using c by (elim conjE)
      have "lease_ids l = take (unat (rq_count ?q)) (sorted_list_of_set (eligible ?q s))"
        unfolding ids [symmetric] by (simp add: l granted_lease_def lease_ids_def new_allocation_def)
      moreover have "set (rm_allocated s') = set (rm_allocated s) \<union>
          set (take (unat (rq_count ?q)) (sorted_list_of_set (eligible ?q s)))"
        unfolding ids [symmetric] by (auto simp: s' grant_state_def)
      ultimately show ?thesis
        using c unfolding a Let_def by (simp add: s' grant_state_def) (simp add: l granted_lease_def)
    qed
  qed
qed

theorem acquire_lease_exact_witness:
  "rm_reach ex_start {} \<and>
   acquire_lease 1 1 (ex_request ''a'') ex_start = (Inr (ex_lease ''a'' 1 LActive), ex_held) \<and>
   lease_ids (ex_lease ''a'' 1 LActive) = take 1 (sorted_list_of_set (eligible ex_query ex_start))"
proof -
  have a: "acquire_lease 1 1 (ex_request ''a'') ex_start = (Inr (ex_lease ''a'' 1 LActive), ex_held)"
    by (simp add: ex_start_state ex_acquire saturating_add_def)
  have "rr_query (ex_request ''a'') = ex_query" "unat (rq_count ex_query) = 1"
    by (simp_all add: ex_request_def ex_query_def)
  then show ?thesis
    using acquire_lease_exact [OF ex_start_reach, of "ex_request ''a''" 1 1] a ex_start_reach
    by (simp add: Let_def)
qed

text \<open>C8. One call changes one lease only along the ledger's lifecycle: it never removes the
  lease, never changes what it allocates, whom it belongs to or (except upwards) its fence token,
  and moves its state along eight fixed steps. Six of these are transitions of the semantic
  contract; the other two, retrying a failed cleanup and revoking an expired lease, are not.\<close>

theorem ledger_lifecycle:
  "(map_of (rm_leases s) n = Some l \<longrightarrow>
     (\<exists>l'. map_of (rm_leases (rm_exec c s)) n = Some l' \<and> rl_allocations l' = rl_allocations l \<and>
        rl_name l' = rl_name l \<and> rl_holder l' = rl_holder l \<and>
        rl_fence_token l \<le> rl_fence_token l' \<and>
        (rl_state l' = rl_state l \<or> (rl_state l, rl_state l') \<in> ledger_steps))) \<and>
   {(a, b) \<in> ledger_steps.
      \<not> LeaseState_can_transition_to (semantic_lease_state a) (semantic_lease_state b)} =
     {(LFailed, LReleasing), (LExpired, LRevoked)}"
proof -
  have "{(a, b) \<in> ledger_steps.
      \<not> LeaseState_can_transition_to (semantic_lease_state a) (semantic_lease_state b)} =
     {(LFailed, LReleasing), (LExpired, LRevoked)}"
    unfolding ledger_steps_def by auto
  then show ?thesis
    using evolve_exec [of s c] unfolding leases_evolve_def evolves_def by blast
qed

theorem ledger_lifecycle_witness:
  "\<exists>l'. map_of (rm_leases (rm_exec (CRevoke 1 ''a'' 1) ex_held)) ''a'' = Some l' \<and>
     rl_allocations l' = rl_allocations (ex_lease ''a'' 1 LActive)"
proof -
  have "map_of (rm_leases ex_held) ''a'' = Some (ex_lease ''a'' 1 LActive)" by (simp add: ex_state_def)
  then show ?thesis using ledger_lifecycle by blast
qed

lemma lease_candidates_cong:
  assumes "set (rm_allocated s) = set (rm_allocated s')" and "rm_quarantined s = rm_quarantined s'"
    and "rm_resources s = rm_resources s'"
  shows "lease_candidates q s = lease_candidates q s'"
  by (simp add: lease_candidates_def assms)

lemma granted_ids: "lease_ids (granted_lease req c s) = map (\<lambda>r. ident_id (res_identity r)) c"
  by (simp add: granted_lease_def lease_ids_def new_allocation_def)

lemma set_grant:
  "set (rm_allocated (grant_state n l c s)) =
     set (rm_allocated s) \<union> set (map (\<lambda>r. ident_id (res_identity r)) c)"
  by (auto simp: grant_state_def)

text \<open>C5. Reporting a revoked lease's cleanup twice breaks exclusivity, in any ledger. Let the cleanup of
  a revoked lease be reported and then a new lease be granted that includes one of its resources. A
  second report of the same cleanup is accepted again and frees all resources of the revoked lease,
  although the new lease is active and still lists them. If the new lease got only such resources, the
  same request under an unused name is then granted the very same resources (at any clock readings
  before its expiry), so that two active leases hold them.\<close>

theorem repeated_revocation_double_allocates:
  assumes "complete_revocation n f s = (Inr a, s1)"
    and "acquire_lease now now' req s1 = (Inr b, s2)"
    and "set (lease_ids b) \<inter> set (lease_ids a) \<noteq> {}"
  shows "\<exists>s3. complete_revocation n f s2 = (Inr a, s3) \<and>
    map_of (rm_leases s3) (rr_lease_name req) = Some b \<and> rl_state b = LActive \<and>
    set (lease_ids a) \<inter> set (rm_allocated s3) = {} \<and> \<not> set (lease_ids b) \<subseteq> set (rm_allocated s3) \<and>
    (\<forall>m t t'. set (lease_ids b) \<subseteq> set (lease_ids a) \<and> map_of (rm_leases s3) m = None \<and>
       (\<forall>e. rr_expires_at_unix_ms req = Some e \<longrightarrow> t < e \<and> t' < e) \<longrightarrow>
       (\<exists>c s4. acquire_lease t t' (req\<lparr>rr_lease_name := m\<rparr>) s3 = (Inr c, s4) \<and>
          map_of (rm_leases s4) m = Some c \<and> map_of (rm_leases s4) (rr_lease_name req) = Some b \<and>
          rl_state c = LActive \<and> lease_ids c = lease_ids b))"
proof -
  let ?e = "expire_due_leases now s1" and ?q = "rr_query req"
  let ?c = "lease_candidates ?q ?e"
  have a: "map_of (rm_leases s) n = Some a" "rl_fence_token a = f" "rl_state a = LRevoked"
    and s1: "s1 = free_allocations a s"
    using assms(1) by (auto simp: complete_revocation_def fenced_lookup_Inr split: sum.splits if_splits)
  note acq = assms(2) [unfolded acquire_lease_Inr Let_def]
  then have b: "b = granted_lease req ?c ?e" and s2: "s2 = grant_state (rr_lease_name req) b ?c ?e" by blast+
  have ok: "rr_expected_inventory_generation req = rm_generation s1" "ResourceQuery_validate ?q = Inr ()"
    "length ?c = unat (rq_count ?q)" "map_of (rm_leases ?e) (rr_lease_name req) = None"
    using acq by blast+
  have ids: "lease_ids b = map (\<lambda>r. ident_id (res_identity r)) ?c" by (simp add: b granted_ids)
  have active: "rl_state b = LActive" "rl_expires_at_unix_ms b = rr_expires_at_unix_ms req"
    by (simp_all add: b granted_lease_def)
  have "map_of (rm_leases ?e) n = Some a" using a by (simp add: map_of_expire s1 expire_lease_def)
  then have a2: "map_of (rm_leases s2) n = Some a" using ok(4) by (auto simp: s2 grant_state_def)
  let ?s3 = "free_allocations a s2"
  have again: "complete_revocation n f s2 = (Inr a, ?s3)"
    using a a2 by (simp add: complete_revocation_def fenced_lookup_def)
  have b3: "map_of (rm_leases ?s3) (rr_lease_name req) = Some b" by (simp add: s2 grant_state_def)
  have freed: "set (rm_allocated ?s3) = (set (rm_allocated s1) \<union> set (lease_ids b)) - set (lease_ids a)"
    by (simp only: set_free s2 set_grant ids expire_due_leases_simps)
  have more: "\<exists>c s4. acquire_lease t t' (req\<lparr>rr_lease_name := m\<rparr>) ?s3 = (Inr c, s4) \<and>
      map_of (rm_leases s4) m = Some c \<and> map_of (rm_leases s4) (rr_lease_name req) = Some b \<and>
      rl_state c = LActive \<and> lease_ids c = lease_ids b"
    if h: "set (lease_ids b) \<subseteq> set (lease_ids a)" "map_of (rm_leases ?s3) m = None"
      "\<forall>e. rr_expires_at_unix_ms req = Some e \<longrightarrow> t < e \<and> t' < e" for m t t'
  proof -
    let ?r = "req\<lparr>rr_lease_name := m\<rparr>" and ?x = "expire_due_leases t ?s3"
    have "set (rm_allocated ?s3) = set (rm_allocated s1)" unfolding freed using h(1) by (auto simp: s1)
    then have same: "lease_candidates ?q ?x = ?c"
      by (intro lease_candidates_cong) (simp_all add: s2 grant_state_def)
    let ?l = "granted_lease ?r ?c ?x"
    have fresh: "map_of (rm_leases ?x) m = None" using h(2) by (simp add: map_of_expire)
    have gen: "rm_generation s2 = rm_generation s1" by (simp add: s2 grant_state_def)
    have "acquire_lease t t' ?r ?s3 = (Inr ?l, grant_state m ?l ?c ?x)"
      unfolding acquire_lease_Inr Let_def using ok h(3) fresh by (simp add: same gen)
    moreover have "m \<noteq> rr_lease_name req" using b3 h(2) by auto
    moreover have "expire_lease t b = b"
      using h(3) active(2) by (cases "rr_expires_at_unix_ms req") (auto simp: expire_lease_def)
    then have "map_of (rm_leases ?x) (rr_lease_name req) = Some b" using b3 by (simp add: map_of_expire)
    moreover have "rl_state ?l = LActive" by (simp add: granted_lease_def)
    ultimately show ?thesis by (auto simp: granted_ids ids grant_state_def)
  qed
  have "set (lease_ids a) \<inter> set (rm_allocated ?s3) = {}" "\<not> set (lease_ids b) \<subseteq> set (rm_allocated ?s3)"
    using freed assms(3) by blast+
  with again b3 active(1) more show ?thesis by blast
qed

theorem repeated_revocation_double_allocates_witness:
  "let s = fold rm_exec
       [CAcquire 1 1 (ex_request ''a''), CRevoke 1 ''a'' 1, CCompleteRevocation ''a'' 2,
        CAcquire 1 1 (ex_request ''b''), CCompleteRevocation ''a'' 2] (rm_new [ex_gpu])
   in \<exists>b c s4. acquire_lease 1 1 ((ex_request ''b'')\<lparr>rr_lease_name := ''c''\<rparr>) s = (Inr c, s4) \<and>
        map_of (rm_leases s4) ''b'' = Some b \<and> map_of (rm_leases s4) ''c'' = Some c \<and>
        rl_state b = LActive \<and> rl_state c = LActive \<and> lease_ids b = [''g0''] \<and> lease_ids c = [''g0'']"
proof -
  have less: "''a'' < ''b''" by (simp add: less_char_def)
  let ?ls = "[(''a'', ex_lease ''a'' 2 LRevoked)]"
  let ?ls2 = "[(''a'', ex_lease ''a'' 2 LRevoked), (''b'', ex_lease ''b'' 3 LActive)]"
  have new: "rm_new [ex_gpu] = ex_state False [] 1"
    using ex_start_state by (simp add: rm_new_def ex_start_def)
  have first: "complete_revocation ''a'' 2 (ex_state True ?ls 3) = (Inr (ex_lease ''a'' 2 LRevoked), ex_state False ?ls 3)"
    by (rule ex_complete_revocation) simp
  have grant: "acquire_lease 1 1 (ex_request ''b'') (ex_state False ?ls 3) =
      (Inr (ex_lease ''b'' 3 LActive), ex_state True ?ls2 4)"
    using less by (simp add: ex_acquire ex_expire saturating_add_def less_not_sym)
  have ids: "lease_ids (ex_lease n f st) = [''g0'']" for n f st by (simp add: lease_ids_def ex_lease_def)
  have second: "complete_revocation ''a'' 2 (ex_state True ?ls2 4) =
      (Inr (ex_lease ''a'' 2 LRevoked), ex_state False ?ls2 4)"
    by (rule ex_complete_revocation) simp
  have run: "fold rm_exec
       [CAcquire 1 1 (ex_request ''a''), CRevoke 1 ''a'' 1, CCompleteRevocation ''a'' 2,
        CAcquire 1 1 (ex_request ''b''), CCompleteRevocation ''a'' 2] (rm_new [ex_gpu]) = ex_state False ?ls2 4"
    using less by (simp add: new ex_acquire ex_revoke first grant second ex_expire saturating_add_def)
  have req: "rr_lease_name (ex_request ''b'') = ''b''" "rr_expires_at_unix_ms (ex_request ''b'') = Some 50"
    by (simp_all add: ex_request_def)
  have m: "map_of (rm_leases (ex_state False ?ls2 4)) ''c'' = None" by (simp add: ex_state_def)
  have t: "(1 :: u64) < 50" by (simp add: word_less_nat_alt)
  have "set (lease_ids (ex_lease ''b'' 3 LActive)) \<inter> set (lease_ids (ex_lease ''a'' 2 LRevoked)) \<noteq> {}"
    by (simp add: ids)
  note all = repeated_revocation_double_allocates [OF first grant this, unfolded second req, simplified]
  have "\<exists>c s4. acquire_lease 1 1 ((ex_request ''b'')\<lparr>rr_lease_name := ''c''\<rparr>) (ex_state False ?ls2 4) = (Inr c, s4) \<and>
      map_of (rm_leases s4) ''c'' = Some c \<and> map_of (rm_leases s4) ''b'' = Some (ex_lease ''b'' 3 LActive) \<and>
      rl_state c = LActive \<and> lease_ids c = lease_ids (ex_lease ''b'' 3 LActive)"
    by (rule all [THEN conjunct2, THEN conjunct2, THEN conjunct2, THEN conjunct2, rule_format]) (use m t ids in auto)
  moreover have "rl_state (ex_lease ''b'' 3 LActive) = LActive" by (simp add: ex_lease_def)
  ultimately show ?thesis unfolding run Let_def ids using ids [of "''b''" 3 LActive] by blast
qed

text \<open>C6. Renewal on the ledger against renewal in the contract. The ledger renews a lease exactly under
  its own token, while it is active and unexpired, to an expiry after the clock and after the current
  one; otherwise it records lease expiry and nothing else. The contract renews the projected lease
  exactly when the ledger does and in addition the projection is a valid lease and the new expiry is
  at most the largest timestamp of the contract; then its result is the projection of the ledger's
  renewed lease. So every renewal the contract grants is granted alike by the ledger, and what the
  ledger grants beyond it are the renewals of invalid projections and to unrepresentable expiries.\<close>

theorem renew_refines_contract:
  assumes "map_of (rm_leases s) n = Some l"
  shows "let l' = l\<lparr>rl_expires_at_unix_ms := Some e\<rparr>;
      granted = (rl_fence_token l = f \<and> rl_state l = LActive \<and> now < e \<and>
        (\<forall>c. rl_expires_at_unix_ms l = Some c \<longrightarrow> now < c \<and> c < e))
    in (if granted then renew_lease now n f e s = (Inr l', store_lease n l' (expire_due_leases now s))
        else \<exists>err. renew_lease now n f e s = (Inl err, expire_due_leases now s)) \<and>
      (\<forall>sl. Lease_renew_lease (semantic_lease obj l) f e now = Inr sl \<longleftrightarrow>
         granted \<and> Lease_validate (semantic_lease obj l) = Inr () \<and> e \<le> MAX_TIMESTAMP_UNIX_MS \<and>
         sl = semantic_lease obj l')"
proof -
  let ?l = "l\<lparr>rl_expires_at_unix_ms := Some e\<rparr>"
  let ?granted = "rl_fence_token l = f \<and> rl_state l = LActive \<and> now < e \<and>
      (\<forall>c. rl_expires_at_unix_ms l = Some c \<longrightarrow> now < c \<and> c < e)"
  have act: "semantic_lease_state st = LeaseActive \<longleftrightarrow> st = LActive" for st
    by (cases st) simp_all
  have lk: "fenced_lookup (expire_due_leases now s) n f =
      (if rl_fence_token l = f then Inr (expire_lease now l) else Inl (rm_err ''STALE_FENCE_TOKEN'' n))"
    using assms by (simp add: fenced_lookup_def map_of_expire)
  have ledger: "if ?granted then renew_lease now n f e s = (Inr ?l, store_lease n ?l (expire_due_leases now s))
      else \<exists>err. renew_lease now n f e s = (Inl err, expire_due_leases now s)"
    by (cases "rl_expires_at_unix_ms l")
      (auto simp: renew_lease_def lk expire_lease_def Let_def linorder_not_le linorder_not_less)
  have "Lease_renew_lease (semantic_lease obj l) f e now = Inr sl \<longleftrightarrow>
      ?granted \<and> Lease_validate (semantic_lease obj l) = Inr () \<and> e \<le> MAX_TIMESTAMP_UNIX_MS \<and>
      sl = semantic_lease obj ?l" for sl
  proof (cases "rl_expires_at_unix_ms l")
    case None
    then have "Lease_validate (semantic_lease obj l) \<noteq> Inr ()"
      by (auto simp: Lease_validate_Inr semantic_lease_def)
    then show ?thesis by (simp add: Lease_renew_lease_Inr)
  next
    case (Some c)
    then show ?thesis
      unfolding Lease_renew_lease_Inr
      by (auto simp: semantic_lease_def act intro: order.strict_trans)
  qed
  with ledger show ?thesis unfolding Let_def by blast
qed

theorem renew_refines_contract_witness:
  "let o1 = ObjectRef NamespaceId_default (Identity ''a'' 1); l = ex_lease ''a'' 1 LActive;
       renewed = (\<lambda>e. l\<lparr>rl_expires_at_unix_ms := Some e\<rparr>)
   in Lease_validate (semantic_lease o1 l) = Inr () \<and>
      fst (renew_lease 1 ''a'' 1 90 ex_held) = Inr (renewed 90) \<and>
      Lease_renew_lease (semantic_lease o1 l) 1 90 1 = Inr (semantic_lease o1 (renewed 90)) \<and>
      fst (renew_lease 1 ''a'' 1 (- 1) ex_held) = Inr (renewed (- 1)) \<and>
      (\<forall>sl. Lease_renew_lease (semantic_lease o1 l) 1 (- 1) 1 \<noteq> Inr sl)"
proof -
  let ?o = "ObjectRef NamespaceId_default (Identity ''a'' 1)" and ?l = "ex_lease ''a'' 1 LActive"
  have m: "map_of (rm_leases ex_held) ''a'' = Some ?l" by (simp add: ex_state_def)
  have v: "Lease_validate (semantic_lease ?o ?l) = Inr ()"
    by (simp add: Lease_validate_Inr semantic_lease_def ex_lease_def Identity_validate_Inr
        contract_limits byte_def)
  have l: "rl_fence_token ?l = 1" "rl_state ?l = LActive" "rl_expires_at_unix_ms ?l = Some 50"
    by (simp_all add: ex_lease_def)
  have mx: "unat (- 1 :: u64) = 18446744073709551615" by (simp add: unat_max_word)
  have t: "(1 :: u64) < 50" "(50 :: u64) < 90" "(1 :: u64) < 90" "(1 :: u64) < - 1" "(50 :: u64) < - 1"
    "(90 :: u64) \<le> MAX_TIMESTAMP_UNIX_MS" "\<not> (- 1 :: u64) \<le> MAX_TIMESTAMP_UNIX_MS"
    by (simp_all add: contract_limits word_less_nat_alt word_le_nat_alt mx)
  note short = renew_refines_contract [OF m, of 90 1 1 ?o, unfolded l Let_def]
  note long = renew_refines_contract [OF m, of "- 1" 1 1 ?o, unfolded l Let_def]
  show ?thesis using short long v t by (simp add: Let_def)
qed

text \<open>C7. A clean release gives back exactly the lease's own resources. In a reachable state, when
  \<open>begin_release\<close> and then \<open>complete_release\<close> are accepted for a lease not yet released, the
  lease ends released, its resources and no others leave the allocated set, every other holding
  lease still has all of its resources allocated, and repeating the release changes nothing.\<close>

theorem release_returns_own_resources:
  assumes "rm_reach s R" and "begin_release now n f s = (Inr l1, s1)" and "rl_state l1 \<noteq> LReleased"
    and "complete_release n f s1 = (Inr l2, s2)"
  shows "rl_state l2 = LReleased \<and> map_of (rm_leases s2) n = Some l2 \<and>
    set (rm_allocated s2) = set (rm_allocated s) - set (lease_ids l2) \<and>
    (\<forall>m k. m \<noteq> n \<and> map_of (rm_leases s) m = Some k \<and> holding R m k \<longrightarrow>
       set (lease_ids k) \<subseteq> set (rm_allocated s2)) \<and>
    complete_release n f s2 = (Inr l2, s2)"
proof -
  let ?e = "expire_due_leases now s"
  obtain l0 where l0: "map_of (rm_leases ?e) n = Some l0" "rl_fence_token l0 = f"
    and st0: "rl_state l0 \<in> {LActive, LFailed, LReleasing}"
    and l1: "l1 = l0\<lparr>rl_state := LReleasing\<rparr>" and s1: "map_of (rm_leases s1) n = Some l1"
    and o1: "rm_allocated s1 = rm_allocated s"
  proof (rule begin_release_Inr [OF assms(2)], goal_cases)
    case (1 l0)
    have eq: "l1 = l0\<lparr>rl_state := LReleasing\<rparr>" using 1(2-) assms(3) by auto
    show ?case by (rule 1(1) [OF 1(2,3) _ eq]) (use 1(2-) assms(3) in auto)
  qed
  have ids: "lease_ids l1 = lease_ids l0" by (simp add: l1 lease_ids_def)
  have lk: "fenced_lookup s1 n f = Inr l1" using s1 l0(2) by (simp add: fenced_lookup_Inr l1)
  have c: "l2 = l1\<lparr>rl_state := LReleased\<rparr>" "s2 = store_lease n l2 (free_allocations l1 s1)"
    using assms(4) by (auto simp: complete_release_def lk l1 Let_def)
  have ids2: "lease_ids l2 = lease_ids l0" by (simp add: c(1) lease_ids_def l1)
  obtain l where l: "map_of (rm_leases s) n = Some l" "l0 = expire_lease now l"
    using l0(1) by (auto simp: map_of_expire)
  have hold: "holding R n l" using st0 l(2) by (auto simp: holding_def expire_lease_def split: if_splits)
  have al: "set (rm_allocated s2) = set (rm_allocated s) - set (lease_ids l2)"
    using o1 by (simp add: c(2) ids2 ids)
  have other: "set (lease_ids k) \<subseteq> set (rm_allocated s2)"
    if "m \<noteq> n" "map_of (rm_leases s) m = Some k" "holding R m k" for m k
  proof -
    have "set (lease_ids k) \<subseteq> set (rm_allocated s)"
      using rm_reach_wf [OF assms(1)] that by (auto simp: wf_ledger_def claims_def)
    moreover have "set (lease_ids k) \<inter> set (lease_ids l) = {}"
    proof (rule ccontr)
      assume "set (lease_ids k) \<inter> set (lease_ids l) \<noteq> {}"
      then obtain x where x: "x \<in> set (lease_ids k)" "x \<in> set (lease_ids l)" by blast
      have "(m, x) \<in> claims R (rm_leases s)" using that(2,3) x(1) unfolding claims_def by blast
      moreover have "(n, x) \<in> claims R (rm_leases s)" using l(1) hold x(2) unfolding claims_def by blast
      ultimately show False
        using rm_reach_wf [OF assms(1)] that(1) unfolding wf_ledger_def exclusive_def by blast
    qed
    ultimately show ?thesis unfolding al ids2 l(2) by auto
  qed
  have m2: "map_of (rm_leases s2) n = Some l2" using s1 by (simp add: c(2))
  have "complete_release n f s2 = (Inr l2, s2)"
    using m2 l0(2) by (simp add: complete_release_def fenced_lookup_def c(1) l1)
  then show ?thesis using al other m2 by (auto simp: c(1))
qed

theorem release_returns_own_resources_witness:
  "\<exists>s1 s2 l1 l2. rm_reach ex_held {} \<and> begin_release 1 ''a'' 1 ex_held = (Inr l1, s1) \<and>
     complete_release ''a'' 1 s1 = (Inr l2, s2) \<and> rl_state l2 = LReleased \<and> rm_allocated s2 = []"
proof -
  have b: "begin_release 1 ''a'' 1 ex_held =
      (Inr (ex_lease ''a'' 1 LReleasing), ex_state True [(''a'', ex_lease ''a'' 1 LReleasing)] 2)"
    by (simp add: begin_release_def ex_expire fenced_lookup_def Let_def)
      (simp add: ex_state_def ex_lease_def store_lease_def bm_update_def Let_def)
  have c: "complete_release ''a'' 1 (ex_state True [(''a'', ex_lease ''a'' 1 LReleasing)] 2) =
      (Inr (ex_lease ''a'' 1 LReleased), ex_state False [(''a'', ex_lease ''a'' 1 LReleased)] 2)"
    by (simp add: complete_release_def fenced_lookup_def Let_def)
      (simp add: ex_state_def ex_lease_def store_lease_def bm_update_def free_allocations_def
        bs_remove_def Let_def)
  have ne: "rl_state (ex_lease ''a'' 1 LReleasing) \<noteq> LReleased" by (simp add: ex_lease_def)
  from release_returns_own_resources [OF ex_held_reach b ne c]
  have "rl_state (ex_lease ''a'' 1 LReleased) = LReleased" by (elim conjE)
  moreover have "rm_allocated (ex_state False [(''a'', ex_lease ''a'' 1 LReleased)] 2) = []"
    by (simp add: ex_state_def)
  ultimately show ?thesis using b c ex_held_reach by blast
qed

text \<open>Refreshing the inventory never forgets a resource that is in use. An accepted snapshot
  has a non-zero generation that is not older, which becomes the ledger's; reported resources are
  taken as reported; an allocated resource the provider no longer reports stays on record as
  unavailable until it is released; leases and allocations are untouched. A refused snapshot
  changes nothing.\<close>

theorem refresh_inventory_retains:
  assumes "rm_reach s R"
  shows "case refresh_inventory snap s of
      (Inl e, s') \<Rightarrow> s' = s
    | (Inr u, s') \<Rightarrow>
        inv_generation snap \<noteq> 0 \<and> rm_generation s \<le> rm_generation s' \<and>
        rm_generation s' = inv_generation snap \<and>
        rm_leases s' = rm_leases s \<and> rm_allocated s' = rm_allocated s \<and>
        (\<forall>x r. map_of (index_resources (inv_resources snap)) x = Some r \<longrightarrow>
           map_of (rm_resources s') x = Some r) \<and>
        (\<forall>x. x \<notin> set (rm_allocated s) \<longrightarrow>
           map_of (rm_resources s') x = map_of (index_resources (inv_resources snap)) x) \<and>
        (\<forall>x\<in>set (rm_allocated s). map_of (index_resources (inv_resources snap)) x = None \<longrightarrow>
           (\<exists>r. map_of (rm_resources s') x = Some r \<and> res_state r = ResourceUnavailable))"
proof (cases "refresh_inventory snap s")
  case (Pair r s')
  show ?thesis
  proof (cases r)
    case (Inl e)
    then show ?thesis using Pair refresh_inventory_Inl by simp
  next
    case (Inr u)
    obtain q where s': "inv_generation snap \<noteq> 0" "rm_generation s \<le> inv_generation snap"
      "s' = s\<lparr>rm_quarantined := q, rm_generation := inv_generation snap,
         rm_resources := fst (fold (retain_allocated (rm_resources s)) (rm_allocated s)
           (index_resources (inv_resources snap), rm_quarantined s))\<rparr>"
      using refresh_inventory_Inr [of snap s u s'] Pair Inr by blast
    have known: "\<exists>r. map_of (rm_resources s) x = Some r" if "x \<in> set (rm_allocated s)" for x
      using rm_reach_wf [OF assms] that by (auto simp: wf_ledger_def)
    let ?m = "map_of (index_resources (inv_resources snap))"
    have look: "map_of (rm_resources s') x = (case ?m x of Some r \<Rightarrow> Some r
        | None \<Rightarrow> if x \<in> set (rm_allocated s)
                 then map_option retained_resource (map_of (rm_resources s) x) else None)" for x
      by (simp add: s'(3) refreshed_lookup)
    have gone: "\<exists>r. map_of (rm_resources s') x = Some r \<and> res_state r = ResourceUnavailable"
      if "x \<in> set (rm_allocated s)" "?m x = None" for x
      using known [OF that(1)] that by (auto simp: look retained_resource_def)
    have free: "map_of (rm_resources s') x = ?m x" if "x \<notin> set (rm_allocated s)" for x
      using that by (simp add: look split: option.splits)
    show ?thesis
      using s'(1,2) gone free by (simp add: Pair Inr look) (simp add: s'(3))
  qed
qed

theorem refresh_inventory_retains_witness:
  "let snap = \<lparr>inv_generation = 2, inv_resources = [],
               inv_capabilities = \<lparr>nc_ready = True, nc_facts = [], nc_enforcement = []\<rparr>\<rparr>
   in \<exists>s'. refresh_inventory snap ex_held = (Inr (), s') \<and>
        (\<exists>r. map_of (rm_resources s') ''g0'' = Some r \<and> res_state r = ResourceUnavailable)"
proof -
  let ?snap = "\<lparr>inv_generation = 2, inv_resources = [],
      inv_capabilities = \<lparr>nc_ready = True, nc_facts = [], nc_enforcement = []\<rparr>\<rparr>"
  have "\<exists>s'. refresh_inventory ?snap ex_held = (Inr (), s')"
    by (simp add: refresh_inventory_def ex_state_def Let_def case_prod_beta)
  then obtain s' where s': "refresh_inventory ?snap ex_held = (Inr (), s')" ..
  have "\<forall>x\<in>set (rm_allocated ex_held). map_of (index_resources (inv_resources ?snap)) x = None \<longrightarrow>
      (\<exists>r. map_of (rm_resources s') x = Some r \<and> res_state r = ResourceUnavailable)"
    using refresh_inventory_retains [OF ex_held_reach, of ?snap] unfolding s' by simp
  then show ?thesis
    using s' by (simp add: ex_state_def index_resources_def bm_collect_def Let_def)
qed

section \<open>Endpoint grants over the ledger\<close>

lemma run_evolves:
  assumes "map_of (rm_leases s) n = Some l"
  shows "\<exists>l'. map_of (rm_leases (fold rm_exec cs s)) n = Some l' \<and> rl_allocations l' = rl_allocations l \<and>
    rl_holder l' = rl_holder l \<and> (rl_state l' = LActive \<longrightarrow> rl_state l = LActive)"
  using assms
proof (induction cs arbitrary: s l)
  case (Cons c cs)
  then obtain l1 where l1: "map_of (rm_leases (rm_exec c s)) n = Some l1" "evolves l l1"
    using evolve_exec [of s c] unfolding leases_evolve_def by blast
  from Cons.IH [OF l1(1)] l1(2) show ?case
    by (auto simp: evolves_def ledger_steps_def)
qed simp

text \<open>A call that takes the lease out of the active state: an accepted revocation or release.\<close>

definition ends_lease :: "string \<Rightarrow> rm_call \<Rightarrow> rm_state \<Rightarrow> bool" where
  "ends_lease n c s \<longleftrightarrow>
     (case c of
        CRevoke t m f \<Rightarrow> m = n \<and> is_ok (fst (revoke t m f s))
      | CBeginRelease t m f \<Rightarrow> m = n \<and> is_ok (fst (begin_release t m f s))
      | _ \<Rightarrow> False)"

lemma ended_not_active:
  assumes "ends_lease n c s" and "map_of (rm_leases (rm_exec c s)) n = Some l"
  shows "rl_state l \<noteq> LActive"
proof -
  consider (revoked) t f where "c = CRevoke t n f" "is_ok (fst (revoke t n f s))"
    | (released) t f where "c = CBeginRelease t n f" "is_ok (fst (begin_release t n f s))"
    using assms(1) by (auto simp: ends_lease_def split: rm_call.splits)
  then show ?thesis
  proof cases
    case revoked
    show ?thesis
      by (rule revoke_state [of t n f s]) (use revoked assms(2) in auto)
  next
    case released
    then obtain k s1 where r: "begin_release t n f s = (Inr k, s1)"
      by (cases "begin_release t n f s") (auto simp: is_ok_def split: sum.splits)
    show ?thesis
      by (rule begin_release_Inr [OF r]) (use released r assms(2) in auto)
  qed
qed

text \<open>C36. An endpoint grant lives exactly as long as the ledger's lease it names. Take a grant that
  authorizes a grantee on an endpoint under the projection of a lease of the ledger, and let any
  further calls run. The grant then authorizes that grantee on that endpoint under that lease and
  nothing else, precisely while the lease is active under the unchanged token and neither the grant's
  expiry nor the lease's current (representable) expiry has come; and once the lease was revoked or
  began its release, no later call makes the grant authorize anything under it again.\<close>

theorem grant_follows_lease:
  assumes "map_of (rm_leases s) n = Some l"
    and "EndpointGrant_authorizes g ep who (semantic_lease obj l) now"
  shows "\<exists>l'. map_of (rm_leases (fold rm_exec cs s)) n = Some l' \<and>
    (\<forall>ep' who' obj' t. EndpointGrant_authorizes g ep' who' (semantic_lease obj' l') t \<longleftrightarrow>
       ep' = ep \<and> who' = who \<and> or_identity obj' = or_identity obj \<and> rl_state l' = LActive \<and>
       rl_fence_token l' = rl_fence_token l \<and> t < grant_expires_at_unix_ms g \<and>
       (\<exists>e. rl_expires_at_unix_ms l' = Some e \<and> t < e \<and> e \<le> MAX_TIMESTAMP_UNIX_MS)) \<and>
    ((\<exists>xs c ys. cs = xs @ c # ys \<and> ends_lease n c (fold rm_exec xs s)) \<longrightarrow>
       (\<forall>ep' who' obj' t. \<not> EndpointGrant_authorizes g ep' who' (semantic_lease obj' l') t))"
proof -
  have act: "semantic_lease_state st = LeaseActive \<longleftrightarrow> st = LActive" for st
    by (cases st) simp_all
  obtain l' where l': "map_of (rm_leases (fold rm_exec cs s)) n = Some l'"
    "rl_allocations l' = rl_allocations l" "rl_holder l' = rl_holder l"
    using run_evolves [OF assms(1)] by blast
  note g = assms(2) [unfolded EndpointGrant_authorizes_def is_ok_unit Lease_validate_Inr semantic_lease_def act, simplified]
  have iff: "EndpointGrant_authorizes g ep' who' (semantic_lease obj' l') t \<longleftrightarrow>
       ep' = ep \<and> who' = who \<and> or_identity obj' = or_identity obj \<and> rl_state l' = LActive \<and>
       rl_fence_token l' = rl_fence_token l \<and> t < grant_expires_at_unix_ms g \<and>
       (\<exists>e. rl_expires_at_unix_ms l' = Some e \<and> t < e \<and> e \<le> MAX_TIMESTAMP_UNIX_MS)" for ep' who' obj' t
    using g unfolding EndpointGrant_authorizes_def is_ok_unit Lease_validate_Inr semantic_lease_def
    by (cases "rl_expires_at_unix_ms l'") (auto simp: l' act word_pos_of_less)
  moreover have "rl_state l' \<noteq> LActive" if "cs = xs @ c # ys" "ends_lease n c (fold rm_exec xs s)" for xs c ys
  proof -
    obtain k where "map_of (rm_leases (fold rm_exec (xs @ [c]) s)) n = Some k"
      using run_evolves [OF assms(1), of "xs @ [c]"] by blast
    moreover from this have "rl_state k \<noteq> LActive" using ended_not_active [OF that(2)] by simp
    ultimately show ?thesis using run_evolves [of "fold rm_exec (xs @ [c]) s" n k ys] l'(1) that(1) by auto
  qed
  ultimately show ?thesis using l'(1) by blast
qed

theorem grant_follows_lease_witness:
  "let g = \<lparr>grant_identity = Identity ''grant'' 1, grant_endpoint = Identity ''ep'' 1,
            grant_grantee = Identity ''a'' 1, grant_lease = Identity ''a'' 1,
            grant_fence_token = 1, grant_expires_at_unix_ms = 40\<rparr>;
       o1 = ObjectRef NamespaceId_default (Identity ''a'' 1)
   in EndpointGrant_authorizes g (Identity ''ep'' 1) (Identity ''a'' 1) (semantic_lease o1 (ex_lease ''a'' 1 LActive)) 5 \<and>
      ends_lease ''a'' (CRevoke 1 ''a'' 1) ex_held \<and>
      (\<exists>l'. map_of (rm_leases (fold rm_exec [CRevoke 1 ''a'' 1, CCompleteRevocation ''a'' 2] ex_held)) ''a'' = Some l' \<and>
         \<not> EndpointGrant_authorizes g (Identity ''ep'' 1) (Identity ''a'' 1) (semantic_lease o1 l') 5)"
proof -
  let ?g = "\<lparr>grant_identity = Identity ''grant'' 1, grant_endpoint = Identity ''ep'' 1,
            grant_grantee = Identity ''a'' 1, grant_lease = Identity ''a'' 1,
            grant_fence_token = 1, grant_expires_at_unix_ms = 40\<rparr>"
  let ?o = "ObjectRef NamespaceId_default (Identity ''a'' 1)"
  let ?cs = "[CRevoke 1 ''a'' 1, CCompleteRevocation ''a'' 2]"
  have m: "map_of (rm_leases ex_held) ''a'' = Some (ex_lease ''a'' 1 LActive)" by (simp add: ex_state_def)
  have a: "EndpointGrant_authorizes ?g (Identity ''ep'' 1) (Identity ''a'' 1)
      (semantic_lease ?o (ex_lease ''a'' 1 LActive)) 5"
    by (simp add: EndpointGrant_authorizes_def EndpointGrant_validate_def is_ok_unit semantic_lease_def ex_lease_def
        Lease_validate_Inr Identity_validate_Inr contract_limits byte_def)
  have e: "ends_lease ''a'' (CRevoke 1 ''a'' 1) ex_held"
    using ex_revoke by (simp add: ends_lease_def is_ok_def)
  then have "\<exists>xs c ys. ?cs = xs @ c # ys \<and> ends_lease ''a'' c (fold rm_exec xs ex_held)"
    by (intro exI [of _ "[]"]) simp
  then show ?thesis
    using grant_follows_lease [OF m a, of ?cs] a e unfolding Let_def by blast
qed

end
