(* ===== verification/Kernel_Startup.thy ===== *)
theory Kernel_Startup
  imports Journal_Properties Ledger_Properties "HOL-Library.Sublist"
begin

text \<open>
  The composition root of the kernel (\<open>runtime/cyrene-kernel/src/main.rs\<close>): the command line with its
  fail-closed checks, the resolution of peer identities (\<open>runtime/cyrene-runtime-identity\<close>), the peer
  credential policy of an adapter (\<open>cy-adapter-client/src/credential.rs\<close>), and the startup sequence
  that turns the recovered journal into a fresh ledger. The account database and the environment are
  parameters.
\<close>

section \<open>Numbers, paths and selectors\<close>

datatype startup_error =
    InvalidInput string
  | OtherError string
  | BadNumber string

definition digits_value :: "string \<Rightarrow> nat" where
  "digits_value ds = foldl (\<lambda>n c. 10 * n + (byte c - 48)) 0 ds"

text \<open>\<open>str::parse\<close> for an unsigned type: an optional plus sign and at least one digit, in range.\<close>

definition parse_unsigned :: "string \<Rightarrow> 'a::len word option" where
  "parse_unsigned s =
     (let ds = (if prefix ''+'' s then drop 1 s else s) in
      if ds = [] \<or> \<not> list_all is_ascii_digit ds \<or> 2 ^ LENGTH('a) \<le> digits_value ds then None
      else Some (of_nat (digits_value ds)))"

definition is_absolute :: "string \<Rightarrow> bool" where
  "is_absolute p \<longleftrightarrow> prefix ''/'' p"

text \<open>Two \<open>PathBuf\<close>s are equal when their components are: repeated separators and inner dots do not count.\<close>

definition path_parts :: "string \<Rightarrow> bool \<times> string list" where
  "path_parts p =
     (is_absolute p,
      (if \<not> is_absolute p \<and> hd (split_on CHR ''/'' p) = ''.'' then [''.''] else []) @
      filter (\<lambda>c. c \<noteq> [] \<and> c \<noteq> ''.'') (split_on CHR ''/'' p))"

definition same_path :: "string \<Rightarrow> string \<Rightarrow> bool" where
  "same_path p q \<longleftrightarrow> path_parts p = path_parts q"

definition split_once :: "char \<Rightarrow> string \<Rightarrow> (string \<times> string) option" where
  "split_once c s = (if c \<in> set s then Some (takeWhile (\<lambda>x. x \<noteq> c) s, tl (dropWhile (\<lambda>x. x \<noteq> c) s)) else None)"

definition resolve_selector ::
    "string \<Rightarrow> (string \<Rightarrow> startup_error + u32 option) \<Rightarrow> string \<Rightarrow> startup_error + u32" where
  "resolve_selector kind lookup_name value =
     (let unsigned = (if prefix ''+'' value then drop 1 value else value);
          signed_decimal = (prefix ''-'' value \<and> drop 1 value \<noteq> [] \<and> list_all is_ascii_digit (drop 1 value));
          unsigned_decimal = (unsigned \<noteq> [] \<and> list_all is_ascii_digit unsigned)
      in
        if signed_decimal \<or> unsigned_decimal
        then ok_or (parse_unsigned unsigned)
               (InvalidInput (kind @ '' selector is outside the unsigned 32-bit range''))
        else if value = [] then Inl (InvalidInput (kind @ '' selector cannot be empty''))
        else bind_res (lookup_name value) (\<lambda>found.
             ok_or found (InvalidInput (''unknown '' @ kind @ '' name selector''))))"

section \<open>Peer credentials\<close>

record peer_credential_expectation =
  pce_uid :: "u32 option"
  pce_gid :: "u32 option"

definition PeerCredential_default :: peer_credential_expectation where
  "PeerCredential_default = \<lparr>pce_uid = None, pce_gid = None\<rparr>"

definition is_configured :: "peer_credential_expectation \<Rightarrow> bool" where
  "is_configured c \<longleftrightarrow> pce_uid c \<noteq> None \<or> pce_gid c \<noteq> None"

definition PeerCredential_verify ::
    "peer_credential_expectation \<Rightarrow> string \<Rightarrow> u32 \<Rightarrow> u32 \<Rightarrow> provider_error + unit" where
  "PeerCredential_verify c adapter_id actual_uid actual_gid =
     ensure (\<not> ((case pce_uid c of None \<Rightarrow> False | Some uid \<Rightarrow> uid \<noteq> actual_uid) \<or>
                (case pce_gid c of None \<Rightarrow> False | Some gid \<Rightarrow> gid \<noteq> actual_gid)))
       (provider_err adapter_id ''ADAPTER_PEER_CREDENTIAL_MISMATCH''
          ''UDS peer credentials do not match the configured adapter identity'')"

text \<open>The peer is what the socket option reports, or its error.\<close>

definition verify_connected_peer ::
    "string \<Rightarrow> string + u32 \<times> u32 \<Rightarrow> peer_credential_expectation \<Rightarrow> provider_error + unit" where
  "verify_connected_peer adapter_id credentials expected =
     (if \<not> is_configured expected then Inr ()
      else
        bind_res (map_err (provider_err adapter_id ''ADAPTER_PEER_CREDENTIAL_UNAVAILABLE'') credentials)
          (\<lambda>(uid, gid). PeerCredential_verify expected adapter_id uid gid))"

text \<open>Both kinds of adapter endpoint have these fields; the timeout is in milliseconds.\<close>

record adapter_endpoint =
  ae_adapter_id :: string
  ae_socket_path :: string
  ae_timeout :: u64
  ae_peer_credentials :: peer_credential_expectation

definition AdapterEndpoint_new :: "string \<Rightarrow> string \<Rightarrow> adapter_endpoint" where
  "AdapterEndpoint_new adapter_id socket_path =
     \<lparr>ae_adapter_id = adapter_id, ae_socket_path = socket_path, ae_timeout = 2000,
      ae_peer_credentials = PeerCredential_default\<rparr>"

definition safe_adapter_id :: "string \<Rightarrow> bool" where
  "safe_adapter_id i \<longleftrightarrow> i \<noteq> [] \<and> list_all (\<lambda>b. is_ascii_alphanumeric b \<or> b = CHR ''-'' \<or> b = CHR ''_'') i"

definition parse_adapter :: "string \<Rightarrow> string \<Rightarrow> startup_error + adapter_endpoint" where
  "parse_adapter kind value =
     bind_res (ok_or (split_once CHR ''='' value)
       (InvalidInput (kind @ '' adapter must use ID=/absolute/socket.sock''))) (\<lambda>(adapter_id, socket_path).
     bind_res (ensure (\<not> (\<not> safe_adapter_id adapter_id \<or> \<not> is_absolute socket_path))
       (InvalidInput (kind @ '' adapter ID must be safe and its UDS socket path absolute''))) (\<lambda>_.
     Inr (AdapterEndpoint_new adapter_id socket_path)))"

definition parse_hardware_adapter :: "string \<Rightarrow> startup_error + adapter_endpoint" where
  "parse_hardware_adapter = parse_adapter ''hardware''"

definition parse_sandbox_adapter :: "string \<Rightarrow> startup_error + adapter_endpoint" where
  "parse_sandbox_adapter = parse_adapter ''sandbox''"

definition parse_adapter_identity_value ::
    "string \<Rightarrow> (string \<Rightarrow> startup_error + u32) \<Rightarrow> startup_error + string \<times> u32" where
  "parse_adapter_identity_value value resolve_identity =
     bind_res (ok_or (split_once CHR ''='' value)
       (InvalidInput ''adapter peer identity must use ID=UID_OR_ACCOUNT or ID=GID_OR_GROUP'')) (\<lambda>(adapter_id, identity).
     bind_res (ensure (safe_adapter_id adapter_id) (InvalidInput ''adapter peer identity ID must be safe'')) (\<lambda>_.
     bind_res (resolve_identity identity) (\<lambda>n. Inr (adapter_id, n))))"

section \<open>The command line\<close>

datatype kernel_option =
    ONodeId | OSocket | OWorkerControlSocket | OProviderSocket | OSystemAdapter | OHardwareAdapter
  | OAdapterPeerUid | OAdapterPeerGid | OSandboxAdapter | OSandboxPeerUid | OSandboxPeerGid
  | OInstallationsRoot | OWorkerTransportRoot | ORuntimeJournal | OMaintenanceState | OActivityCatalog
  | OHeartbeatInterval | OHeartbeatTimeout | OHeartbeatGrace | OShutdownAckTimeout | OAdapterPollInterval

definition kernel_options :: "(string \<times> kernel_option) list" where
  "kernel_options =
     [(''--node-id'', ONodeId), (''--socket'', OSocket), (''--worker-control-socket'', OWorkerControlSocket),
      (''--provider-socket'', OProviderSocket), (''--system-adapter'', OSystemAdapter),
      (''--hardware-adapter'', OHardwareAdapter), (''--system-adapter-peer-uid'', OAdapterPeerUid),
      (''--hardware-adapter-peer-uid'', OAdapterPeerUid), (''--system-adapter-peer-gid'', OAdapterPeerGid),
      (''--hardware-adapter-peer-gid'', OAdapterPeerGid), (''--sandbox-adapter'', OSandboxAdapter),
      (''--sandbox-adapter-peer-uid'', OSandboxPeerUid), (''--sandbox-adapter-peer-gid'', OSandboxPeerGid),
      (''--installations-root'', OInstallationsRoot), (''--worker-transport-root'', OWorkerTransportRoot),
      (''--runtime-journal'', ORuntimeJournal), (''--runtime-maintenance-state'', OMaintenanceState),
      (''--activity-catalog'', OActivityCatalog), (''--heartbeat-interval-ms'', OHeartbeatInterval),
      (''--heartbeat-timeout-ms'', OHeartbeatTimeout), (''--heartbeat-grace-ms'', OHeartbeatGrace),
      (''--shutdown-ack-timeout-ms'', OShutdownAckTimeout), (''--adapter-poll-interval-ms'', OAdapterPollInterval)]"

text \<open>The variables of the parser, with durations in milliseconds.\<close>

record arg_vars =
  av_node_id :: string
  av_socket :: string
  av_worker_control_socket :: string
  av_provider_socket :: string
  av_system_adapters :: "adapter_endpoint list"
  av_hardware_adapters :: "adapter_endpoint list"
  av_sandbox_adapter :: "adapter_endpoint option"
  av_installations_root :: string
  av_worker_transport_root :: string
  av_runtime_journal :: string
  av_runtime_maintenance_state :: string
  av_runtime_activity_catalog :: string
  av_heartbeat_interval :: u64
  av_heartbeat_timeout :: u64
  av_heartbeat_grace :: u64
  av_shutdown_ack_timeout :: u64
  av_adapter_poll_interval :: u64
  av_adapter_peer_credentials :: "(string, peer_credential_expectation) btree_map"
  av_sandbox_peer_uid :: "u32 option"
  av_sandbox_peer_gid :: "u32 option"

definition arg_defaults :: "string option \<Rightarrow> arg_vars" where
  "arg_defaults env_node_id =
     \<lparr>av_node_id = (case env_node_id of None \<Rightarrow> ''cyrene-node'' | Some n \<Rightarrow> n),
      av_socket = ''/run/cyrene/kernel.sock'', av_worker_control_socket = ''/run/cyrene/worker.sock'',
      av_provider_socket = ''/run/cyrene/provider.sock'', av_system_adapters = [], av_hardware_adapters = [],
      av_sandbox_adapter = None, av_installations_root = ''/var/lib/cyrene/installations'',
      av_worker_transport_root = ''/run/cyrene/workers'',
      av_runtime_journal = ''/var/lib/cyrene/runtime/journal.jsonl'',
      av_runtime_maintenance_state = ''/var/lib/cyrene/runtime'',
      av_runtime_activity_catalog = ''/etc/cyrene/runtime-activity-sources.json'',
      av_heartbeat_interval = 5000, av_heartbeat_timeout = 20000, av_heartbeat_grace = 10000,
      av_shutdown_ack_timeout = 3000, av_adapter_poll_interval = 5000, av_adapter_peer_credentials = [],
      av_sandbox_peer_uid = None, av_sandbox_peer_gid = None\<rparr>"

definition update_credentials ::
    "string \<Rightarrow> (peer_credential_expectation \<Rightarrow> peer_credential_expectation) \<Rightarrow> arg_vars \<Rightarrow> arg_vars" where
  "update_credentials adapter_id f v =
     v\<lparr>av_adapter_peer_credentials :=
         (let m = av_adapter_peer_credentials v in
          bm_insert adapter_id (f (case map_of m adapter_id of None \<Rightarrow> PeerCredential_default | Some c \<Rightarrow> c)) m)\<rparr>"

definition parse_millis :: "string \<Rightarrow> startup_error + u64" where
  "parse_millis value = ok_or (parse_unsigned value) (BadNumber value)"

fun apply_option ::
    "(string \<Rightarrow> startup_error + u32) \<Rightarrow> (string \<Rightarrow> startup_error + u32) \<Rightarrow> kernel_option \<Rightarrow> string \<Rightarrow> arg_vars \<Rightarrow>
     startup_error + arg_vars" where
  "apply_option uid gid ONodeId x v = Inr (v\<lparr>av_node_id := x\<rparr>)"
| "apply_option uid gid OSocket x v = Inr (v\<lparr>av_socket := x\<rparr>)"
| "apply_option uid gid OWorkerControlSocket x v = Inr (v\<lparr>av_worker_control_socket := x\<rparr>)"
| "apply_option uid gid OProviderSocket x v = Inr (v\<lparr>av_provider_socket := x\<rparr>)"
| "apply_option uid gid OSystemAdapter x v =
     bind_res (parse_hardware_adapter x) (\<lambda>e. Inr (v\<lparr>av_system_adapters := av_system_adapters v @ [e]\<rparr>))"
| "apply_option uid gid OHardwareAdapter x v =
     bind_res (parse_hardware_adapter x) (\<lambda>e. Inr (v\<lparr>av_hardware_adapters := av_hardware_adapters v @ [e]\<rparr>))"
| "apply_option uid gid OAdapterPeerUid x v =
     bind_res (parse_adapter_identity_value x uid) (\<lambda>(adapter_id, n).
       Inr (update_credentials adapter_id (\<lambda>c. c\<lparr>pce_uid := Some n\<rparr>) v))"
| "apply_option uid gid OAdapterPeerGid x v =
     bind_res (parse_adapter_identity_value x gid) (\<lambda>(adapter_id, n).
       Inr (update_credentials adapter_id (\<lambda>c. c\<lparr>pce_gid := Some n\<rparr>) v))"
| "apply_option uid gid OSandboxAdapter x v =
     bind_res (parse_sandbox_adapter x) (\<lambda>e. Inr (v\<lparr>av_sandbox_adapter := Some e\<rparr>))"
| "apply_option uid gid OSandboxPeerUid x v = bind_res (uid x) (\<lambda>n. Inr (v\<lparr>av_sandbox_peer_uid := Some n\<rparr>))"
| "apply_option uid gid OSandboxPeerGid x v = bind_res (gid x) (\<lambda>n. Inr (v\<lparr>av_sandbox_peer_gid := Some n\<rparr>))"
| "apply_option uid gid OInstallationsRoot x v = Inr (v\<lparr>av_installations_root := x\<rparr>)"
| "apply_option uid gid OWorkerTransportRoot x v = Inr (v\<lparr>av_worker_transport_root := x\<rparr>)"
| "apply_option uid gid ORuntimeJournal x v = Inr (v\<lparr>av_runtime_journal := x\<rparr>)"
| "apply_option uid gid OMaintenanceState x v = Inr (v\<lparr>av_runtime_maintenance_state := x\<rparr>)"
| "apply_option uid gid OActivityCatalog x v = Inr (v\<lparr>av_runtime_activity_catalog := x\<rparr>)"
| "apply_option uid gid OHeartbeatInterval x v = bind_res (parse_millis x) (\<lambda>n. Inr (v\<lparr>av_heartbeat_interval := n\<rparr>))"
| "apply_option uid gid OHeartbeatTimeout x v = bind_res (parse_millis x) (\<lambda>n. Inr (v\<lparr>av_heartbeat_timeout := n\<rparr>))"
| "apply_option uid gid OHeartbeatGrace x v = bind_res (parse_millis x) (\<lambda>n. Inr (v\<lparr>av_heartbeat_grace := n\<rparr>))"
| "apply_option uid gid OShutdownAckTimeout x v = bind_res (parse_millis x) (\<lambda>n. Inr (v\<lparr>av_shutdown_ack_timeout := n\<rparr>))"
| "apply_option uid gid OAdapterPollInterval x v = bind_res (parse_millis x) (\<lambda>n. Inr (v\<lparr>av_adapter_poll_interval := n\<rparr>))"

definition USAGE :: string where
  "USAGE =
     ''usage: cyrene-kernel --system-adapter ID=/absolute/socket.sock [--system-adapter-peer-uid '' @
     ''ID=UID_OR_ACCOUNT] [--system-adapter-peer-gid ID=GID_OR_GROUP] [--hardware-adapter '' @
     ''ID=/absolute/socket.sock] [--hardware-adapter-peer-uid ID=UID_OR_ACCOUNT] '' @
     ''[--hardware-adapter-peer-gid ID=GID_OR_GROUP] --sandbox-adapter ID=/absolute/socket.sock '' @
     ''[--sandbox-adapter-peer-uid UID_OR_ACCOUNT] [--sandbox-adapter-peer-gid GID_OR_GROUP] '' @
     ''[--node-id ID] [--socket AUTHORITY_PATH] [--worker-control-socket PATH] [--provider-socket '' @
     ''PATH] [--installations-root PATH] [--runtime-journal PATH] [--runtime-maintenance-state PATH] '' @
     ''[--activity-catalog PATH] [--heartbeat-interval-ms N] [--heartbeat-timeout-ms N] '' @
     ''[--heartbeat-grace-ms N] [--shutdown-ack-timeout-ms N] [--adapter-poll-interval-ms N]''"

fun parse_arguments ::
    "(string \<Rightarrow> startup_error + u32) \<Rightarrow> (string \<Rightarrow> startup_error + u32) \<Rightarrow> arg_vars \<Rightarrow> string list \<Rightarrow>
     startup_error + arg_vars" where
  "parse_arguments uid gid v [] = Inr v"
| "parse_arguments uid gid v (argument # values) =
     (case map_of kernel_options argument of
        Some opt \<Rightarrow>
          (case values of
             [] \<Rightarrow> Inl (InvalidInput (argument @ '' requires a value''))
           | x # rest \<Rightarrow> bind_res (apply_option uid gid opt x v) (\<lambda>v'. parse_arguments uid gid v' rest))
      | None \<Rightarrow>
          if argument = ''--help'' \<or> argument = ''-h'' then Inl (OtherError USAGE)
          else Inl (InvalidInput (''unknown argument: '' @ argument)))"

record kernel_args =
  ka_node_id :: string
  ka_socket :: string
  ka_worker_control_socket :: string
  ka_provider_socket :: string
  ka_adapters :: "adapter_endpoint list"
  ka_sandbox_adapter :: adapter_endpoint
  ka_installations_root :: string
  ka_worker_transport_root :: string
  ka_runtime_journal :: string
  ka_runtime_maintenance_state :: string
  ka_runtime_activity_catalog :: string
  ka_heartbeat_interval :: u64
  ka_heartbeat_timeout :: u64
  ka_heartbeat_grace :: u64
  ka_shutdown_ack_timeout :: u64
  ka_adapter_poll_interval :: u64

fun assign_credentials ::
    "(string, peer_credential_expectation) btree_map \<Rightarrow> adapter_endpoint list \<Rightarrow>
     adapter_endpoint list \<times> (string, peer_credential_expectation) btree_map" where
  "assign_credentials m [] = ([], m)"
| "assign_credentials m (e # es) =
     (case map_of m (ae_adapter_id e) of
        None \<Rightarrow> (let (es', m') = assign_credentials m es in (e # es', m'))
      | Some c \<Rightarrow> (let (es', m') = assign_credentials (bm_remove (ae_adapter_id e) m) es
                   in (e\<lparr>ae_peer_credentials := c\<rparr> # es', m')))"

definition single_quote :: char where
  "single_quote = char_of (39 :: nat)"

definition require_configured_adapter_peers :: "adapter_endpoint list \<Rightarrow> adapter_endpoint \<Rightarrow> startup_error + unit" where
  "require_configured_adapter_peers adapters sandbox_adapter =
     bind_res (for_each (\<lambda>e. ensure (is_configured (ae_peer_credentials e))
       (InvalidInput (''adapter '' @ [single_quote] @ ae_adapter_id e @ [single_quote] @
          '' requires at least one system/hardware adapter peer UID or GID''))) adapters) (\<lambda>_.
     ensure (is_configured (ae_peer_credentials sandbox_adapter))
       (InvalidInput
          ''sandbox adapter requires at least one --sandbox-adapter-peer-uid or --sandbox-adapter-peer-gid''))"

text \<open>The checks after the loop.\<close>

definition Args_checked :: "arg_vars \<Rightarrow> startup_error + kernel_args" where
  "Args_checked v =
     bind_res (ensure (\<not> (av_heartbeat_interval v = 0 \<or> av_heartbeat_timeout v \<le> av_heartbeat_interval v))
       (InvalidInput ''heartbeat timeout must be greater than a non-zero heartbeat interval'')) (\<lambda>_.
     bind_res (ensure (\<not> (av_shutdown_ack_timeout v = 0 \<or> av_adapter_poll_interval v = 0))
       (InvalidInput
          ''shutdown acknowledgement timeout and adapter polling interval must be non-zero'')) (\<lambda>_.
     bind_res (ensure (av_system_adapters v \<noteq> [])
       (InvalidInput ''at least one --system-adapter ID=/absolute/socket.sock is required'')) (\<lambda>_.
     bind_res (ensure (\<not> (\<not> is_absolute (av_socket v) \<or> \<not> is_absolute (av_worker_control_socket v) \<or>
         \<not> is_absolute (av_provider_socket v) \<or> same_path (av_socket v) (av_worker_control_socket v) \<or>
         same_path (av_socket v) (av_provider_socket v) \<or>
         same_path (av_worker_control_socket v) (av_provider_socket v)))
       (InvalidInput
          ''authority, Worker-control, and Provider socket paths must be distinct and absolute'')) (\<lambda>_.
     let (adapters, unused) =
       assign_credentials (av_adapter_peer_credentials v) (av_system_adapters v @ av_hardware_adapters v) in
     bind_res (case unused of [] \<Rightarrow> Inr ()
       | (adapter_id, _) # _ \<Rightarrow>
           Inl (InvalidInput (''peer credential policy references unknown adapter: '' @ adapter_id))) (\<lambda>_.
     bind_res (ok_or (av_sandbox_adapter v)
       (InvalidInput ''exactly one --sandbox-adapter ID=/absolute/socket.sock is required'')) (\<lambda>sandbox.
     let sandbox_adapter = sandbox\<lparr>ae_peer_credentials :=
       \<lparr>pce_uid = av_sandbox_peer_uid v, pce_gid = av_sandbox_peer_gid v\<rparr>\<rparr> in
     bind_res (require_configured_adapter_peers adapters sandbox_adapter) (\<lambda>_.
     Inr \<lparr>ka_node_id = av_node_id v, ka_socket = av_socket v,
          ka_worker_control_socket = av_worker_control_socket v, ka_provider_socket = av_provider_socket v,
          ka_adapters = adapters, ka_sandbox_adapter = sandbox_adapter,
          ka_installations_root = av_installations_root v, ka_worker_transport_root = av_worker_transport_root v,
          ka_runtime_journal = av_runtime_journal v, ka_runtime_maintenance_state = av_runtime_maintenance_state v,
          ka_runtime_activity_catalog = av_runtime_activity_catalog v,
          ka_heartbeat_interval = av_heartbeat_interval v, ka_heartbeat_timeout = av_heartbeat_timeout v,
          ka_heartbeat_grace = av_heartbeat_grace v, ka_shutdown_ack_timeout = av_shutdown_ack_timeout v,
          ka_adapter_poll_interval = av_adapter_poll_interval v\<rparr>)))))))"

definition Args_parse_from_with_identity_resolvers ::
    "(string \<Rightarrow> startup_error + u32) \<Rightarrow> (string \<Rightarrow> startup_error + u32) \<Rightarrow> string option \<Rightarrow> string list \<Rightarrow>
     startup_error + kernel_args" where
  "Args_parse_from_with_identity_resolvers uid gid env_node_id values =
     bind_res (parse_arguments uid gid (arg_defaults env_node_id) values) Args_checked"

definition Args_parse_from ::
    "(string \<Rightarrow> startup_error + u32 option) \<Rightarrow> (string \<Rightarrow> startup_error + u32 option) \<Rightarrow> string option \<Rightarrow> string list \<Rightarrow>
     startup_error + kernel_args" where
  "Args_parse_from user_by_name group_by_name env_node_id values =
     Args_parse_from_with_identity_resolvers (resolve_selector ''UID'' user_by_name)
       (resolve_selector ''GID'' group_by_name) env_node_id values"

section \<open>The startup sequence\<close>

text \<open>
  From the open journal to the ledger: the new epoch is written first, leftover processes are classified
  and reaped before any listener, and only then is the ledger created, without leases, at the recovered
  fence token. The sandbox client in between is made from the parsed endpoint, whose name and path the
  parser has already checked, so that its constructor does not fail.
\<close>

definition start_ledger ::
    "(string \<Rightarrow> string + persisted_runtime_record) \<Rightarrow> (persisted_runtime_record \<Rightarrow> string) \<Rightarrow>
     io_error option \<Rightarrow> write_outcome \<Rightarrow> u64 \<Rightarrow> u64 \<Rightarrow>
     provider_error + runtime_process_evidence list \<Rightarrow>
     (runtime_process_evidence \<Rightarrow> provider_error + cleanup_report) \<Rightarrow> (nat \<Rightarrow> u64 \<times> write_outcome) \<Rightarrow>
     string \<Rightarrow> journal_file \<Rightarrow>
     (startup_error + recovery_state \<times> rm_state) run \<times> journal_file" where
  "start_ledger parse print read_fault outcome now now' discovered cleanup os node_id file =
     (case begin_epoch parse print read_fault outcome now now' node_id file of
        (Inl e, file') \<Rightarrow> (Return (Inl (OtherError e)), file')
      | (Inr recovery, file') \<Rightarrow>
          (case recover_before_listeners print discovered cleanup os node_id recovery file' of
             (Panic msg, file'') \<Rightarrow> (Panic msg, file'')
           | (Return (Inl e), file'') \<Rightarrow>
               (Return (Inl (OtherError (''restart recovery failed: '' @ pe_reason_code e @ '': '' @ pe_message e))), file'')
           | (Return (Inr _), file'') \<Rightarrow>
               (Return (Inr (recovery, with_next_fence_token [] (rs_next_fence_token recovery))), file'')))"

section \<open>Fail-closed configuration\<close>

definition endpoint_shape :: "adapter_endpoint \<Rightarrow> bool" where
  "endpoint_shape e \<longleftrightarrow> safe_adapter_id (ae_adapter_id e) \<and> is_absolute (ae_socket_path e)"

definition fresh_endpoint :: "adapter_endpoint \<Rightarrow> bool" where
  "fresh_endpoint e \<longleftrightarrow> endpoint_shape e \<and> ae_peer_credentials e = PeerCredential_default"

definition vars_ok :: "arg_vars \<Rightarrow> bool" where
  "vars_ok v \<longleftrightarrow>
     list_all fresh_endpoint (av_system_adapters v @ av_hardware_adapters v) \<and>
     (\<forall>e. av_sandbox_adapter v = Some e \<longrightarrow> fresh_endpoint e)"

lemma parse_adapter_fresh: "parse_adapter kind x = Inr e \<Longrightarrow> fresh_endpoint e"
  by (auto simp: parse_adapter_def bind_res_Inr fresh_endpoint_def endpoint_shape_def AdapterEndpoint_new_def)

lemma apply_option_ok: "apply_option uid gid opt x v = Inr v' \<Longrightarrow> vars_ok v \<Longrightarrow> vars_ok v'"
  by (cases opt)
    (auto simp: vars_ok_def bind_res_Inr parse_hardware_adapter_def parse_sandbox_adapter_def
      update_credentials_def Let_def dest: parse_adapter_fresh)

lemma parse_arguments_ok: "parse_arguments uid gid v xs = Inr v' \<Longrightarrow> vars_ok v \<Longrightarrow> vars_ok v'"
proof (induction uid gid v xs rule: parse_arguments.induct)
  case (2 uid gid v a xs)
  then show ?case
    by (auto simp: bind_res_Inr split: option.splits list.splits if_splits dest: apply_option_ok)
qed simp

lemma assign_credentials_configured:
  "assign_credentials m es = (es', m') \<Longrightarrow> list_all fresh_endpoint es \<Longrightarrow>
     \<forall>e\<in>set es'. is_configured (ae_peer_credentials e) \<Longrightarrow>
     map ae_adapter_id es' = map ae_adapter_id es \<and> distinct (map ae_adapter_id es') \<and>
     (\<forall>e\<in>set es'. endpoint_shape e \<and> map_of m (ae_adapter_id e) = Some (ae_peer_credentials e))"
proof (induction es arbitrary: m es' m')
  case (Cons e es)
  show ?case
  proof (cases "map_of m (ae_adapter_id e)")
    case None
    then have "e \<in> set es'" using Cons.prems(1) by (auto split: prod.splits)
    moreover have "\<not> is_configured (ae_peer_credentials e)"
      using Cons.prems(2) by (simp add: fresh_endpoint_def is_configured_def PeerCredential_default_def)
    ultimately show ?thesis using Cons.prems(3) by blast
  next
    case (Some c)
    obtain rest where rest: "assign_credentials (bm_remove (ae_adapter_id e) m) es = (rest, m')"
      and es': "es' = e\<lparr>ae_peer_credentials := c\<rparr> # rest"
      using Cons.prems(1) Some by (auto split: prod.splits)
    have ih: "map ae_adapter_id rest = map ae_adapter_id es \<and> distinct (map ae_adapter_id rest) \<and>
        (\<forall>x\<in>set rest. endpoint_shape x \<and>
           map_of (bm_remove (ae_adapter_id e) m) (ae_adapter_id x) = Some (ae_peer_credentials x))"
      by (rule Cons.IH [OF rest]) (use Cons.prems(2,3) es' in simp_all)
    then have "ae_adapter_id ` set es = ae_adapter_id ` set rest" by (metis set_map)
    moreover have "ae_adapter_id e \<notin> ae_adapter_id ` set rest" using ih by (auto split: if_splits)
    ultimately show ?thesis
      using ih Cons.prems(2) Some by (auto simp: es' fresh_endpoint_def endpoint_shape_def split: if_splits)
  qed
qed simp

lemma configured_refuses:
  assumes "is_configured c"
  shows "\<exists>uid gid. PeerCredential_verify c i uid gid \<noteq> Inr ()"
proof (cases "pce_uid c")
  case None
  then obtain g where "pce_gid c = Some g" using assms by (auto simp: is_configured_def)
  then show ?thesis by (intro exI [of _ 0] exI [of _ "g + 1"]) (simp add: PeerCredential_verify_def)
next
  case (Some u)
  then show ?thesis by (intro exI [of _ "u + 1"] exI [of _ 0]) (simp add: PeerCredential_verify_def)
qed

lemma peer_admitted:
  "is_configured c \<Longrightarrow> verify_connected_peer i (Inr (uid, gid)) c = Inr () \<longleftrightarrow>
     (pce_uid c = None \<or> pce_uid c = Some uid) \<and> (pce_gid c = None \<or> pce_gid c = Some gid)"
  by (auto simp: verify_connected_peer_def PeerCredential_verify_def split: option.splits)

definition closed_endpoint :: "adapter_endpoint \<Rightarrow> bool" where
  "closed_endpoint e \<longleftrightarrow>
       safe_adapter_id (ae_adapter_id e) \<and> is_absolute (ae_socket_path e) \<and>
       (\<forall>u g. verify_connected_peer (ae_adapter_id e) (Inr (u, g)) (ae_peer_credentials e) = Inr () \<longleftrightarrow>
          (pce_uid (ae_peer_credentials e) = None \<or> pce_uid (ae_peer_credentials e) = Some u) \<and>
          (pce_gid (ae_peer_credentials e) = None \<or> pce_gid (ae_peer_credentials e) = Some g)) \<and>
       (\<exists>u g. verify_connected_peer (ae_adapter_id e) (Inr (u, g)) (ae_peer_credentials e) \<noteq> Inr ())"

lemma endpoint_closed: "endpoint_shape e \<Longrightarrow> is_configured (ae_peer_credentials e) \<Longrightarrow> closed_endpoint e"
  unfolding closed_endpoint_def endpoint_shape_def
  using peer_admitted [of "ae_peer_credentials e"] configured_refuses [of "ae_peer_credentials e" "ae_adapter_id e"]
  by (simp add: verify_connected_peer_def)

lemma Args_checked_cases:
  assumes "Args_checked v = Inr a" and "assign_credentials (av_adapter_peer_credentials v)
      (av_system_adapters v @ av_hardware_adapters v) = (adapters, unused)"
  obtains sandbox where "av_sandbox_adapter v = Some sandbox"
    and "av_heartbeat_interval v \<noteq> 0" "av_heartbeat_interval v < av_heartbeat_timeout v"
      "av_shutdown_ack_timeout v \<noteq> 0" "av_adapter_poll_interval v \<noteq> 0" "av_system_adapters v \<noteq> []"
      "is_absolute (av_socket v)" "is_absolute (av_worker_control_socket v)" "is_absolute (av_provider_socket v)"
      "\<not> same_path (av_socket v) (av_worker_control_socket v)" "\<not> same_path (av_socket v) (av_provider_socket v)"
      "\<not> same_path (av_worker_control_socket v) (av_provider_socket v)"
    and "require_configured_adapter_peers adapters (ka_sandbox_adapter a) = Inr ()"
    and "ka_socket a = av_socket v" "ka_worker_control_socket a = av_worker_control_socket v"
      "ka_provider_socket a = av_provider_socket v" "ka_adapters a = adapters"
      "ka_sandbox_adapter a = sandbox\<lparr>ae_peer_credentials :=
         \<lparr>pce_uid = av_sandbox_peer_uid v, pce_gid = av_sandbox_peer_gid v\<rparr>\<rparr>"
      "ka_heartbeat_interval a = av_heartbeat_interval v" "ka_heartbeat_timeout a = av_heartbeat_timeout v"
      "ka_shutdown_ack_timeout a = av_shutdown_ack_timeout v" "ka_adapter_poll_interval a = av_adapter_poll_interval v"
  using assms by (auto simp: Args_checked_def bind_res_Inr not_le Let_def)

text \<open>C34. A configuration that parses is closed. Its three listening sockets are absolute and are three
  different paths; its timers are usable; it has an adapter; the adapter names are safe and pairwise
  different; and every adapter, the sandbox adapter included, has an absolute socket and a credential
  policy, so that it admits exactly the peers of the configured user and group and refuses some peer.\<close>

theorem configuration_fail_closed:
  assumes "Args_parse_from_with_identity_resolvers uid gid env values = Inr a"
  shows "list_all is_absolute [ka_socket a, ka_worker_control_socket a, ka_provider_socket a] \<and>
    distinct (map path_parts [ka_socket a, ka_worker_control_socket a, ka_provider_socket a]) \<and>
    0 < ka_heartbeat_interval a \<and> ka_heartbeat_interval a < ka_heartbeat_timeout a \<and>
    0 < ka_shutdown_ack_timeout a \<and> 0 < ka_adapter_poll_interval a \<and>
    ka_adapters a \<noteq> [] \<and> distinct (map ae_adapter_id (ka_adapters a)) \<and>
    (\<forall>e\<in>set (ka_sandbox_adapter a # ka_adapters a). closed_endpoint e)"
proof -
  obtain v where v: "parse_arguments uid gid (arg_defaults env) values = Inr v" and checked: "Args_checked v = Inr a"
    using assms by (auto simp: Args_parse_from_with_identity_resolvers_def bind_res_Inr)
  obtain adapters unused where assign: "assign_credentials (av_adapter_peer_credentials v)
      (av_system_adapters v @ av_hardware_adapters v) = (adapters, unused)" by fastforce
  obtain sandbox where sandbox: "av_sandbox_adapter v = Some sandbox"
    and checks: "av_heartbeat_interval v \<noteq> 0" "av_heartbeat_interval v < av_heartbeat_timeout v"
      "av_shutdown_ack_timeout v \<noteq> 0" "av_adapter_poll_interval v \<noteq> 0" "av_system_adapters v \<noteq> []"
      "is_absolute (av_socket v)" "is_absolute (av_worker_control_socket v)" "is_absolute (av_provider_socket v)"
      "\<not> same_path (av_socket v) (av_worker_control_socket v)" "\<not> same_path (av_socket v) (av_provider_socket v)"
      "\<not> same_path (av_worker_control_socket v) (av_provider_socket v)"
    and peers: "require_configured_adapter_peers adapters (ka_sandbox_adapter a) = Inr ()"
    and a: "ka_socket a = av_socket v" "ka_worker_control_socket a = av_worker_control_socket v"
      "ka_provider_socket a = av_provider_socket v" "ka_adapters a = adapters"
      "ka_sandbox_adapter a = sandbox\<lparr>ae_peer_credentials :=
         \<lparr>pce_uid = av_sandbox_peer_uid v, pce_gid = av_sandbox_peer_gid v\<rparr>\<rparr>"
      "ka_heartbeat_interval a = av_heartbeat_interval v" "ka_heartbeat_timeout a = av_heartbeat_timeout v"
      "ka_shutdown_ack_timeout a = av_shutdown_ack_timeout v" "ka_adapter_poll_interval a = av_adapter_poll_interval v"
    by (rule Args_checked_cases [OF checked assign])
  have "vars_ok (arg_defaults env)" by (simp add: vars_ok_def arg_defaults_def)
  then have ok: "vars_ok v" by (rule parse_arguments_ok [OF v])
  have conf: "\<forall>e\<in>set (ka_sandbox_adapter a # adapters). is_configured (ae_peer_credentials e)"
    using peers by (auto simp: require_configured_adapter_peers_def bind_res_Inr)
  have list: "map ae_adapter_id adapters = map ae_adapter_id (av_system_adapters v @ av_hardware_adapters v) \<and>
      distinct (map ae_adapter_id adapters) \<and>
      (\<forall>e\<in>set adapters. endpoint_shape e \<and> map_of (av_adapter_peer_credentials v) (ae_adapter_id e) =
         Some (ae_peer_credentials e))"
    by (rule assign_credentials_configured [OF assign]) (use ok conf in \<open>simp_all add: vars_ok_def\<close>)
  have "endpoint_shape (ka_sandbox_adapter a)"
    using ok sandbox by (auto simp: a vars_ok_def fresh_endpoint_def endpoint_shape_def)
  then have shape: "\<forall>e\<in>set (ka_sandbox_adapter a # adapters). endpoint_shape e" using list by simp
  have "adapters \<noteq> []" using list checks(5) by (metis append_is_Nil_conv list.map_disc_iff)
  moreover have "\<forall>e\<in>set (ka_sandbox_adapter a # adapters). closed_endpoint e"
    using shape conf endpoint_closed by blast
  moreover have "distinct (map ae_adapter_id adapters)" using list by blast
  ultimately show ?thesis
    using checks unfolding a(1-4,6-9) same_path_def by (simp add: word_neq_0_conv)
qed

section \<open>A concrete command line\<close>

definition ex_values :: "string list" where
  "ex_values =
     [''--system-adapter'', ''sys=/run/s.sock'', ''--system-adapter-peer-uid'', ''sys=0'',
      ''--sandbox-adapter'', ''box=/run/b.sock'', ''--sandbox-adapter-peer-gid'', ''+7'']"

lemma ex_adapters:
  "parse_adapter kind ''sys=/run/s.sock'' = Inr (AdapterEndpoint_new ''sys'' ''/run/s.sock'')"
  "parse_adapter kind ''box=/run/b.sock'' = Inr (AdapterEndpoint_new ''box'' ''/run/b.sock'')"
  by (simp_all add: parse_adapter_def split_once_def safe_adapter_id_def is_absolute_def
    is_ascii_alphanumeric_def is_ascii_lowercase_def byte_def)

lemma ex_selectors: "resolve_selector kind f ''0'' = Inr 0" "resolve_selector kind f ''+7'' = Inr 7"
  by (simp_all add: resolve_selector_def parse_unsigned_def digits_value_def is_ascii_digit_def byte_def)

lemma ex_identity: "parse_adapter_identity_value ''sys=0'' (resolve_selector kind f) = Inr (''sys'', 0)"
  by (simp add: parse_adapter_identity_value_def split_once_def safe_adapter_id_def
    is_ascii_alphanumeric_def is_ascii_lowercase_def byte_def ex_selectors)

lemma ex_parsed:
  "parse_arguments (resolve_selector ''UID'' f) (resolve_selector ''GID'' g) v ex_values =
     Inr ((update_credentials ''sys'' (\<lambda>c. c\<lparr>pce_uid := Some 0\<rparr>)
       (v\<lparr>av_system_adapters := av_system_adapters v @ [AdapterEndpoint_new ''sys'' ''/run/s.sock'']\<rparr>))
       \<lparr>av_sandbox_adapter := Some (AdapterEndpoint_new ''box'' ''/run/b.sock''), av_sandbox_peer_gid := Some 7\<rparr>)"
  by (simp add: ex_values_def kernel_options_def parse_hardware_adapter_def parse_sandbox_adapter_def
    ex_adapters ex_selectors ex_identity)

lemma ex_accepted: "is_ok (Args_parse_from f g None ex_values)"
  by (simp add: Args_parse_from_def Args_parse_from_with_identity_resolvers_def ex_parsed Args_checked_def
    arg_defaults_def update_credentials_def AdapterEndpoint_new_def is_absolute_def same_path_def path_parts_def
    require_configured_adapter_peers_def is_configured_def PeerCredential_default_def bm_remove_def)

theorem configuration_fail_closed_witness:
  "\<exists>a. Args_parse_from (\<lambda>_. Inr None) (\<lambda>_. Inr None) None ex_values = Inr a \<and>
     distinct (map ae_adapter_id (ka_adapters a)) \<and> closed_endpoint (ka_sandbox_adapter a)"
proof -
  obtain a where a: "Args_parse_from (\<lambda>_. Inr None) (\<lambda>_. Inr None) None ex_values = Inr a"
    using ex_accepted unfolding is_ok_iff by blast
  show ?thesis using a configuration_fail_closed [OF a [unfolded Args_parse_from_def]] by auto
qed

section \<open>Fences after a restart\<close>

definition fences_from :: "u64 \<Rightarrow> rm_state \<Rightarrow> bool" where
  "fences_from b s \<longleftrightarrow>
     b \<le> rm_next_fence_token s \<and> (\<forall>n l. map_of (rm_leases s) n = Some l \<longrightarrow> b \<le> rl_fence_token l)"

lemma exec_new_lease:
  assumes "map_of (rm_leases (rm_exec c s)) n = Some l" and "map_of (rm_leases s) n = None"
  shows "rl_fence_token l = rm_next_fence_token s"
proof (cases c)
  case (CAcquire now now' request)
  then show ?thesis
    using assms
    by (auto simp: acquire_lease_def Let_def grant_state_def granted_lease_def map_of_expire
      split: if_splits sum.splits)
qed (use assms in \<open>auto simp: renew_lease_def begin_release_def complete_release_def fail_release_def
  revoke_def complete_revocation_def get_lease_def leases_def Let_def map_of_expire split: sum.splits if_splits\<close>)

lemma fences_from_exec: "fences_from b s \<Longrightarrow> fences_from b (rm_exec c s)"
  unfolding fences_from_def
proof (intro conjI allI impI; elim conjE)
  assume "b \<le> rm_next_fence_token s"
  then show "b \<le> rm_next_fence_token (rm_exec c s)" using exec_next_mono by (rule order.trans)
next
  fix n l
  assume b: "b \<le> rm_next_fence_token s" "\<forall>n l. map_of (rm_leases s) n = Some l \<longrightarrow> b \<le> rl_fence_token l"
    and l: "map_of (rm_leases (rm_exec c s)) n = Some l"
  show "b \<le> rl_fence_token l"
  proof (cases "map_of (rm_leases s) n")
    case None
    then show ?thesis using exec_new_lease [OF l] b(1) by simp
  next
    case (Some k)
    then have "evolves k l" using evolve_exec [of s c] l unfolding leases_evolve_def by fastforce
    then show ?thesis using b(2) Some by (auto simp: evolves_def intro: order.trans)
  qed
qed

lemma fences_from_run: "fences_from b s \<Longrightarrow> fences_from b (fold rm_exec cs s)"
  by (induction cs arbitrary: s) (auto intro: fences_from_exec)

lemma start_ledger_cases:
  assumes "start_ledger parse print read_fault outcome now now' discovered cleanup os node file = (Return (Inr (st, s)), file')"
  obtains st0 where "recover parse read_fault node file = Inr st0" "rs_next_fence_token st = rs_next_fence_token st0"
    "rs_runtime_processes st = rs_runtime_processes st0" "s = with_next_fence_token [] (rs_next_fence_token st0)"
  using assms
  by (auto simp: start_ledger_def begin_epoch_def Let_def split: sum.splits prod.splits run.splits)

lemma fresh_ledger_fences: "fences_from f (with_next_fence_token rs f)"
  by (simp add: fences_from_def with_next_fence_token_def)

lemma old_fence_unknown:
  assumes "fences_from b s" and "f < b"
  shows "\<exists>e. fenced_lookup s n f = Inl e" and "\<exists>e. fenced_lookup (expire_due_leases t s) n f = Inl e"
proof -
  have lt: "f < rl_fence_token l" if "map_of (rm_leases s) n = Some l" for l
    using assms that unfolding fences_from_def by (meson order.strict_trans2)
  then have "fenced_lookup s n f \<noteq> Inr l" for l by (auto simp: fenced_lookup_Inr)
  then show "\<exists>e. fenced_lookup s n f = Inl e" by (cases "fenced_lookup s n f") blast+
  have "rl_fence_token (expire_lease t l) = rl_fence_token l" for l by (simp add: expire_lease_def)
  then have "fenced_lookup (expire_due_leases t s) n f \<noteq> Inr l" for l
    using lt by (fastforce simp: fenced_lookup_Inr map_of_expire)
  then show "\<exists>e. fenced_lookup (expire_due_leases t s) n f = Inl e"
    by (cases "fenced_lookup (expire_due_leases t s) n f") blast+
qed

end
