(* ===== verification/Instance_Actor.thy ===== *)
theory Instance_Actor
  imports Kernel_Api
begin

text \<open>
  The process wrapper and the actor of one worker instance
  (\<open>cy-kernel-daemon/src/sandboxed_process.rs\<close> and \<open>watchdog/instance_actor.rs\<close>). The sandbox
  backend is a parameter over a world state \<open>'w\<close>, so it may answer each call differently, and
  nothing is assumed of what a call that it answers with an error has done.
  Instants and durations are natural numbers of nanoseconds; \<open>duration_since\<close> saturates at
  zero as natural subtraction does. Channels are represented by whether they are attached
  and by the outcome of each send.
\<close>

section \<open>Sandbox port\<close>

record launch_plan =
  lp_instance_name :: string
  lp_executable :: string
  lp_args :: "string list"
  lp_environment :: "(string, string) btree_map"
  lp_cgroup_name :: string
  lp_limits :: cgroup_limits
  lp_working_dir :: "string option"
  lp_transport_socket :: "string option"

record stop_request =
  sr_grace_period :: nat
  sr_immediate :: bool

record 'w sandbox =
  sb_launch :: "launch_plan \<Rightarrow> device_binding \<Rightarrow> 'w \<Rightarrow> (provider_error + process_handle) \<times> 'w"
  sb_stop :: "process_handle \<Rightarrow> stop_request \<Rightarrow> 'w \<Rightarrow> (provider_error + cleanup_report) \<times> 'w"

section \<open>sandboxed_process.rs\<close>

datatype sandboxed_process_state = SPDiscovered | SPStarting | SPHealthy | SPStopping | SPStopped | SPQuarantined

record sandboxed_process =
  sp_plan :: launch_plan
  sp_binding :: device_binding
  sp_handle :: "process_handle option"
  sp_state :: sandboxed_process_state
  sp_last_cleanup :: "cleanup_report option"

definition SandboxedProcess_new :: "launch_plan \<Rightarrow> device_binding \<Rightarrow> sandboxed_process" where
  "SandboxedProcess_new plan binding =
     \<lparr>sp_plan = plan, sp_binding = binding, sp_handle = None, sp_state = SPDiscovered,
      sp_last_cleanup = None\<rparr>"

definition SandboxedProcess_start ::
    "'w sandbox \<Rightarrow> sandboxed_process \<Rightarrow> 'w \<Rightarrow>
     (provider_error + process_handle) \<times> sandboxed_process \<times> 'w" where
  "SandboxedProcess_start sb p w =
     (case sp_handle p of
        Some h \<Rightarrow> (Inr h, p, w)
      | None \<Rightarrow>
          (case sb_launch sb (sp_plan p) (sp_binding p) w of
             (Inr h, w') \<Rightarrow> (Inr h, p\<lparr>sp_handle := Some h, sp_state := SPHealthy\<rparr>, w')
           | (Inl e, w') \<Rightarrow> (Inl e, p\<lparr>sp_state := SPQuarantined\<rparr>, w')))"

definition not_running_report :: cleanup_report where
  "not_running_report =
     \<lparr>cr_complete = True, cr_exit_code = None, cr_oom_killed = False, cr_conditions = [],
      cr_reason_code = ''NOT_RUNNING''\<rparr>"

definition SandboxedProcess_stop ::
    "'w sandbox \<Rightarrow> stop_request \<Rightarrow> sandboxed_process \<Rightarrow> 'w \<Rightarrow>
     (provider_error + cleanup_report) \<times> sandboxed_process \<times> 'w" where
  "SandboxedProcess_stop sb request p w =
     (case sp_handle p of
        None \<Rightarrow>
          (Inr not_running_report,
           p\<lparr>sp_state := SPStopped, sp_last_cleanup := Some not_running_report\<rparr>, w)
      | Some h \<Rightarrow>
          (case sb_stop sb h request w of
             (Inl e, w') \<Rightarrow> (Inl e, p\<lparr>sp_state := SPStopping\<rparr>, w')
           | (Inr report, w') \<Rightarrow>
               (Inr report,
                p\<lparr>sp_state := (if cr_complete report then SPStopped else SPQuarantined),
                  sp_handle := (if cr_complete report then None else Some h),
                  sp_last_cleanup := Some report\<rparr>, w')))"

section \<open>instance_actor.rs\<close>

datatype instance_actor_state =
  IAStarting | IAHealthy | IADegraded | IADraining | IAStopping | IAStopped | IAQuarantined

datatype instance_health_verdict = VHealthy | VDeadlineExceeded | VHeartbeatLost | VQuarantined

record worker_transport_response =
  wtr_request_id :: string
  wtr_generation :: u64
  wtr_fence_token :: u64
  wtr_payload :: "u8 list"

record instance_actor =
  ia_instance_id :: string
  ia_lease_name :: string
  ia_fence_token :: u64
  ia_process :: sandboxed_process
  ia_state :: instance_actor_state
  ia_last_heartbeat :: "nat option"
  ia_heartbeat_deadline :: nat
  ia_crash_timestamps :: "nat list"
  ia_generation :: u64
  ia_consecutive_timeouts :: u32
  ia_transport :: bool
  ia_pending_requests :: "string set"
  ia_pending_cancellations :: "(string, string) btree_map"

definition InstanceActor_new ::
    "string \<Rightarrow> string \<Rightarrow> u64 \<Rightarrow> launch_plan \<Rightarrow> device_binding \<Rightarrow> nat \<Rightarrow> instance_actor" where
  "InstanceActor_new instance_id lease_name fence_token plan binding deadline =
     \<lparr>ia_instance_id = instance_id, ia_lease_name = lease_name, ia_fence_token = fence_token,
      ia_process = SandboxedProcess_new plan binding, ia_state = IAStarting,
      ia_last_heartbeat = None, ia_heartbeat_deadline = deadline, ia_crash_timestamps = [],
      ia_generation = 0, ia_consecutive_timeouts = 0, ia_transport = False,
      ia_pending_requests = {}, ia_pending_cancellations = []\<rparr>"

definition iw_err :: "string \<Rightarrow> string \<Rightarrow> provider_error" where
  "iw_err code msg = provider_err ''instance-watchdog'' code msg"

definition attach_transport_channel :: "instance_actor \<Rightarrow> instance_actor" where
  "attach_transport_channel a =
     a\<lparr>ia_transport := True, ia_consecutive_timeouts := 0,
       ia_state := (if ia_state a = IAStarting \<or> ia_state a = IAStopped then IAHealthy else ia_state a)\<rparr>"

definition CRASH_WINDOW :: nat where
  "CRASH_WINDOW = 60 * 10 ^ 9"

definition record_crash :: "nat \<Rightarrow> instance_actor \<Rightarrow> bool \<times> instance_actor" where
  "record_crash now a =
     (let crashes = filter (\<lambda>t. now - t \<le> CRASH_WINDOW) (ia_crash_timestamps a @ [now]);
          quarantined = length crashes > 3
      in (quarantined,
          a\<lparr>ia_crash_timestamps := crashes,
            ia_state := (if quarantined then IAQuarantined else IAStopped)\<rparr>))"

definition dispatch_response ::
    "worker_transport_response \<Rightarrow> bool \<Rightarrow> instance_actor \<Rightarrow> bool \<times> instance_actor" where
  "dispatch_response response receiver_alive a =
     (if wtr_generation response \<noteq> ia_generation a \<or> wtr_fence_token response \<noteq> ia_fence_token a
      then (False, a)
      else if wtr_request_id response \<notin> ia_pending_requests a then (False, a)
      else (receiver_alive,
            a\<lparr>ia_pending_requests := ia_pending_requests a - {wtr_request_id response}\<rparr>))"

definition dispatch_cancel_ack ::
    "string \<Rightarrow> string \<Rightarrow> bool \<Rightarrow> instance_actor \<Rightarrow> bool \<times> instance_actor" where
  "dispatch_cancel_ack cancel_request_id target_request_id receiver_alive a =
     (case map_of (ia_pending_cancellations a) cancel_request_id of
        None \<Rightarrow> (False, a)
      | Some target \<Rightarrow>
          if target \<noteq> target_request_id then (False, a)
          else (receiver_alive,
                a\<lparr>ia_pending_cancellations := bm_remove cancel_request_id (ia_pending_cancellations a)\<rparr>))"

definition mark_transport_lost :: "nat \<Rightarrow> u64 \<Rightarrow> u64 \<Rightarrow> instance_actor \<Rightarrow> bool \<times> instance_actor" where
  "mark_transport_lost now generation fence_token a =
     (if generation \<noteq> ia_generation a \<or> fence_token \<noteq> ia_fence_token a \<or> \<not> ia_transport a
      then (False, a)
      else
        let b = a\<lparr>ia_transport := False, ia_pending_requests := {}\<rparr> in
        (True,
         if ia_pending_requests a = {} \<and> ia_state a \<notin> {IAStopping, IAStopped, IAQuarantined}
         then snd (record_crash now b) else b))"

text \<open>
  One request. The actor is borrowed exclusively while it waits, but the dispatcher shares the
  pending map: \<open>pending\<close> is that map when the wait ends.
\<close>

datatype invoke_outcome =
  SendFails
| Replied worker_transport_response
| ChannelClosed
| TimedOut bool

definition send_request ::
    "nat \<Rightarrow> invoke_outcome \<Rightarrow> string set \<Rightarrow> string \<Rightarrow> instance_actor \<Rightarrow>
     (provider_error + u8 list) \<times> instance_actor" where
  "send_request now outcome pending request_id a =
     (if request_id = []
      then (Inl (iw_err ''INVALID_REQUEST_ID'' ''worker request id must not be empty''), a)
      else if ia_state a = IAQuarantined
      then (Inl (iw_err ''INSTANCE_QUARANTINED'' ''instance is quarantined; invoke forbidden''), a)
      else if ia_state a = IADraining
      then (Inl (iw_err ''INSTANCE_DRAINING'' ''instance is draining; new invokes rejected''), a)
      else if \<not> ia_transport a
      then (Inl (iw_err ''TRANSPORT_UNAVAILABLE'' ''instance transport channel not attached''), a)
      else
        let crashed = (\<lambda>b. snd (record_crash now (b\<lparr>ia_transport := False\<rparr>))) in
        (case outcome of
           SendFails \<Rightarrow>
             (Inl (iw_err ''TRANSPORT_SEND_FAILED'' ''failed to send envelope to instance transport''),
              crashed (a\<lparr>ia_pending_requests := pending - {request_id}\<rparr>))
         | Replied response \<Rightarrow>
             if wtr_request_id response = request_id
             then (Inr (wtr_payload response),
                   a\<lparr>ia_pending_requests := pending, ia_consecutive_timeouts := 0\<rparr>)
             else (Inl (iw_err ''INSTANCE_CRASHED'' ''instance channel closed or invalid response''),
                   crashed (a\<lparr>ia_pending_requests := pending, ia_consecutive_timeouts := 0\<rparr>))
         | ChannelClosed \<Rightarrow>
             (Inl (iw_err ''INSTANCE_CRASHED'' ''instance channel closed or invalid response''),
              crashed (a\<lparr>ia_pending_requests := pending, ia_consecutive_timeouts := 0\<rparr>))
         | TimedOut cancel_sent \<Rightarrow>
             let timeouts = saturating_add (ia_consecutive_timeouts a) 1;
                 b = a\<lparr>ia_pending_requests := pending - {request_id},
                       ia_consecutive_timeouts := timeouts\<rparr>
             in (Inl (iw_err ''INVOKE_TIMEOUT'' ''invoke request timed out''),
                 if \<not> cancel_sent \<or> 3 \<le> timeouts then crashed b else b)))"

text \<open>\<open>cancel_id\<close> is the fresh identifier the call draws; \<open>send_error\<close> the error of the channel.\<close>

definition request_cancel ::
    "string \<Rightarrow> string option \<Rightarrow> string \<Rightarrow> instance_actor \<Rightarrow> (provider_error + unit) \<times> instance_actor" where
  "request_cancel cancel_id send_error target_request_id a =
     (if \<not> ia_transport a
      then (Inl (iw_err ''TRANSPORT_UNAVAILABLE'' ''instance transport channel not attached''), a)
      else
        let pending = bm_insert cancel_id target_request_id (ia_pending_cancellations a) in
        (case send_error of
           Some e \<Rightarrow>
             (Inl (iw_err ''CANCEL_DELIVERY_FAILED''
                (''worker cancellation channel is unavailable or saturated: '' @ e)),
              a\<lparr>ia_pending_cancellations := bm_remove cancel_id pending\<rparr>)
         | None \<Rightarrow> (Inr (), a\<lparr>ia_pending_cancellations := pending\<rparr>)))"

definition RESTART_STOP :: stop_request where
  "RESTART_STOP = \<lparr>sr_grace_period = 500 * 10 ^ 6, sr_immediate = True\<rparr>"

definition next_generation :: "u64 \<Rightarrow> u64" where
  "next_generation g = max (g + 1) 1"

definition launch_instance ::
    "'w sandbox \<Rightarrow> nat \<Rightarrow> instance_actor \<Rightarrow> 'w \<Rightarrow>
     (provider_error + process_handle) \<times> instance_actor \<times> 'w" where
  "launch_instance sb now a w =
     (case SandboxedProcess_start sb (ia_process a) w of
        (Inr h, p, w') \<Rightarrow>
          (Inr h,
           a\<lparr>ia_process := p, ia_generation := next_generation (ia_generation a),
             ia_state := IAHealthy, ia_last_heartbeat := Some now\<rparr>, w')
      | (Inl e, p, w') \<Rightarrow> (Inl e, snd (record_crash now (a\<lparr>ia_process := p\<rparr>)), w'))"

definition InstanceActor_start ::
    "'w sandbox \<Rightarrow> nat \<Rightarrow> instance_actor \<Rightarrow> 'w \<Rightarrow>
     (provider_error + process_handle) \<times> instance_actor \<times> 'w" where
  "InstanceActor_start sb now a w =
     (if ia_state a = IAQuarantined
      then (Inl (iw_err ''INSTANCE_QUARANTINED'' ''instance is in quarantine; launch forbidden''), a, w)
      else if ia_state a = IAStopped \<and> sp_handle (ia_process a) \<noteq> None
      then
        (case SandboxedProcess_stop sb RESTART_STOP (ia_process a) w of
           (res, p, w') \<Rightarrow>
             if (case res of Inl _ \<Rightarrow> True | Inr report \<Rightarrow> \<not> cr_complete report)
             then (Inl (iw_err ''RESTART_CLEANUP_FAILED''
                      ''previous worker process could not be completely cleaned up''),
                   a\<lparr>ia_process := p, ia_state := IAQuarantined\<rparr>, w')
             else launch_instance sb now (a\<lparr>ia_process := p, ia_state := IAStarting\<rparr>) w')
      else launch_instance sb now (a\<lparr>ia_state := IAStarting\<rparr>) w)"

definition actor_recovery_evidence :: "instance_actor \<Rightarrow> provider_error + runtime_process_evidence" where
  "actor_recovery_evidence a =
     bind_res
       (ok_or (sp_handle (ia_process a))
          (iw_err ''RECOVERY_EVIDENCE_UNAVAILABLE'' ''worker process has not started''))
       recovery_evidence"

definition validate_fence_token :: "u64 \<Rightarrow> instance_actor \<Rightarrow> provider_error + unit" where
  "validate_fence_token token a =
     ensure (token = ia_fence_token a)
       (iw_err ''FENCE_TOKEN_MISMATCH''
          (''stale fence token '' @ show_u64 token @ ''; active instance lease token is '' @
           show_u64 (ia_fence_token a)))"

definition drain :: "instance_actor \<Rightarrow> instance_actor" where
  "drain a = (if ia_state a = IAHealthy \<or> ia_state a = IADegraded then a\<lparr>ia_state := IADraining\<rparr> else a)"

definition on_heartbeat_received :: "nat \<Rightarrow> instance_actor \<Rightarrow> instance_health_verdict \<times> instance_actor" where
  "on_heartbeat_received now a =
     (if ia_state a = IAQuarantined then (VQuarantined, a)
      else (VHealthy,
            a\<lparr>ia_last_heartbeat := Some now,
              ia_state := (if ia_state a = IADegraded \<or> ia_state a = IAStarting then IAHealthy
                           else ia_state a)\<rparr>))"

definition check_heartbeat_deadline :: "nat \<Rightarrow> instance_actor \<Rightarrow> instance_health_verdict \<times> instance_actor" where
  "check_heartbeat_deadline now a =
     (if ia_state a = IAQuarantined then (VQuarantined, a)
      else
        (case ia_last_heartbeat a of
           Some last_seen \<Rightarrow>
             if now - last_seen > ia_heartbeat_deadline a
             then (VDeadlineExceeded, a\<lparr>ia_state := IADegraded\<rparr>) else (VHealthy, a)
         | None \<Rightarrow>
             if ia_state a \<noteq> IAStarting then (VHeartbeatLost, a\<lparr>ia_state := IADegraded\<rparr>)
             else (VHealthy, a)))"

definition InstanceActor_stop ::
    "'w sandbox \<Rightarrow> stop_request \<Rightarrow> instance_actor \<Rightarrow> 'w \<Rightarrow>
     (provider_error + cleanup_report) \<times> instance_actor \<times> 'w" where
  "InstanceActor_stop sb request a w =
     (let b = a\<lparr>ia_state := IAStopping, ia_transport := False\<rparr> in
      case SandboxedProcess_stop sb request (ia_process b) w of
        (Inl e, p, w') \<Rightarrow> (Inl e, b\<lparr>ia_process := p, ia_state := IAQuarantined\<rparr>, w')
      | (Inr report, p, w') \<Rightarrow>
          (Inr report,
           b\<lparr>ia_process := p,
             ia_state := (if cr_complete report
                          then (if ia_state b \<noteq> IAQuarantined then IAStopped else ia_state b)
                          else IAQuarantined)\<rparr>, w'))"

section \<open>Runs of an actor\<close>

datatype actor_call =
  CAttach
| CDispatch worker_transport_response bool
| CCancelAck string string bool
| CTransportLost nat u64 u64
| CRequest nat invoke_outcome "string set" string
| CRequestCancel string "string option" string
| CStart nat
| CDrain
| CHeartbeat nat
| CCheckDeadline nat
| CRecordCrash nat
| CStop stop_request

fun actor_exec :: "'w sandbox \<Rightarrow> actor_call \<Rightarrow> instance_actor \<times> 'w \<Rightarrow> instance_actor \<times> 'w" where
  "actor_exec sb CAttach (a, w) = (attach_transport_channel a, w)"
| "actor_exec sb (CDispatch r alive) (a, w) = (snd (dispatch_response r alive a), w)"
| "actor_exec sb (CCancelAck c t alive) (a, w) = (snd (dispatch_cancel_ack c t alive a), w)"
| "actor_exec sb (CTransportLost now g f) (a, w) = (snd (mark_transport_lost now g f a), w)"
| "actor_exec sb (CRequest now out pend r) (a, w) = (snd (send_request now out pend r a), w)"
| "actor_exec sb (CRequestCancel c err t) (a, w) = (snd (request_cancel c err t a), w)"
| "actor_exec sb (CStart now) (a, w) = snd (InstanceActor_start sb now a w)"
| "actor_exec sb CDrain (a, w) = (drain a, w)"
| "actor_exec sb (CHeartbeat now) (a, w) = (snd (on_heartbeat_received now a), w)"
| "actor_exec sb (CCheckDeadline now) (a, w) = (snd (check_heartbeat_deadline now a), w)"
| "actor_exec sb (CRecordCrash now) (a, w) = (snd (record_crash now a), w)"
| "actor_exec sb (CStop request) (a, w) = snd (InstanceActor_stop sb request a w)"

definition actor_run :: "'w sandbox \<Rightarrow> actor_call list \<Rightarrow> instance_actor \<times> 'w \<Rightarrow> instance_actor \<times> 'w" where
  "actor_run sb cs aw = fold (actor_exec sb) cs aw"

lemmas actor_simps = attach_transport_channel_def dispatch_response_def dispatch_cancel_ack_def
  mark_transport_lost_def send_request_def request_cancel_def drain_def on_heartbeat_received_def
  check_heartbeat_deadline_def record_crash_def Let_def

lemma SandboxedProcess_start_handle:
  "SandboxedProcess_start sb p w = (Inr h, p', w') \<Longrightarrow> sp_handle p' = Some h"
  by (auto simp: SandboxedProcess_start_def split: option.splits prod.splits sum.splits)

lemma record_crash_process [simp]: "ia_process (snd (record_crash now a)) = ia_process a"
  by (simp add: record_crash_def Let_def)

text \<open>Everything but start and stop leaves the process and the world alone.\<close>

lemma actor_process_frame [simp]:
  "ia_process (attach_transport_channel a) = ia_process a"
  "ia_process (snd (dispatch_response r alive a)) = ia_process a"
  "ia_process (snd (dispatch_cancel_ack c t alive a)) = ia_process a"
  "ia_process (snd (mark_transport_lost now g f a)) = ia_process a"
  "ia_process (snd (request_cancel c err t a)) = ia_process a"
  "ia_process (drain a) = ia_process a"
  "ia_process (snd (on_heartbeat_received now a)) = ia_process a"
  "ia_process (snd (check_heartbeat_deadline now a)) = ia_process a"
  by (simp_all add: attach_transport_channel_def dispatch_response_def dispatch_cancel_ack_def
      mark_transport_lost_def request_cancel_def drain_def on_heartbeat_received_def
      check_heartbeat_deadline_def Let_def split: option.split)

lemma send_request_process [simp]: "ia_process (snd (send_request now out pend r a)) = ia_process a"
  by (cases out) (simp_all add: send_request_def Let_def)

lemma actor_exec_frame:
  assumes "\<And>now. c \<noteq> CStart now" and "\<And>r. c \<noteq> CStop r"
  shows "ia_process (fst (actor_exec sb c (a, w))) = ia_process a \<and> snd (actor_exec sb c (a, w)) = w"
  using assms by (cases c) (simp_all, blast+)

section \<open>The calls an actor makes on its sandbox\<close>

text \<open>
  A sandbox that keeps a log of its own answers. It wraps any sandbox and answers as that one does, so
  nothing is assumed of the sandbox: a failed launch or stop may have had any effect.
\<close>

datatype port_reply =
  LaunchReply "provider_error + process_handle"
| StopReply process_handle "provider_error + cleanup_report"

definition recorded :: "'w sandbox \<Rightarrow> ('w \<times> port_reply list) sandbox" where
  "recorded sb =
     \<lparr>sb_launch = \<lambda>plan binding (w, log).
        (case sb_launch sb plan binding w of (r, w') \<Rightarrow> (r, w', log @ [LaunchReply r])),
      sb_stop = \<lambda>h request (w, log).
        (case sb_stop sb h request w of (r, w') \<Rightarrow> (r, w', log @ [StopReply h r]))\<rparr>"

text \<open>The processes a log leaves outstanding: launched, and not since reported completely cleaned.\<close>

definition track_reply :: "port_reply \<Rightarrow> process_handle list \<Rightarrow> process_handle list" where
  "track_reply r hs =
     (case r of
        LaunchReply (Inr h) \<Rightarrow> hs @ [h]
      | LaunchReply (Inl _) \<Rightarrow> hs
      | StopReply h (Inr report) \<Rightarrow> if cr_complete report then remove1 h hs else hs
      | StopReply h (Inl _) \<Rightarrow> hs)"

definition outstanding :: "port_reply list \<Rightarrow> process_handle list" where
  "outstanding log = fold track_reply log []"

lemma outstanding_simps [simp]:
  "outstanding [] = []" "outstanding (log @ [r]) = track_reply r (outstanding log)"
  by (simp_all add: outstanding_def)

text \<open>A call is in order when a launch finds nothing outstanding and a stop the one process it names.\<close>

definition in_order :: "process_handle list \<Rightarrow> port_reply \<Rightarrow> bool" where
  "in_order hs r \<longleftrightarrow> (case r of LaunchReply _ \<Rightarrow> hs = [] | StopReply h _ \<Rightarrow> hs = [h])"

definition handles :: "process_handle option \<Rightarrow> process_handle list" where
  "handles h = (case h of None \<Rightarrow> [] | Some x \<Rightarrow> [x])"

definition custody :: "port_reply list \<Rightarrow> process_handle option \<Rightarrow> bool" where
  "custody log h \<longleftrightarrow>
     outstanding log = handles h \<and> (\<forall>i<length log. in_order (outstanding (take i log)) (log ! i))"

lemma custody_snoc:
  assumes "custody log h" and "in_order (handles h) r" and "track_reply r (handles h) = handles h'"
  shows "custody (log @ [r]) h'"
  using assms by (auto simp: custody_def nth_append less_Suc_eq)

lemma start_recorded:
  assumes "custody log (sp_handle p)"
  obtains r p' w' log' where "SandboxedProcess_start sb p w = (r, p', w')"
    and "SandboxedProcess_start (recorded sb) p (w, log) = (r, p', (w', log'))"
    and "custody log' (sp_handle p')"
proof (cases "sp_handle p")
  case (Some h)
  then show thesis using that [of "Inr h" p w log] assms by (simp add: SandboxedProcess_start_def)
next
  case None
  obtain r w' where l: "sb_launch sb (sp_plan p) (sp_binding p) w = (r, w')" by (meson surj_pair)
  then have l': "sb_launch (recorded sb) (sp_plan p) (sp_binding p) (w, log) = (r, w', log @ [LaunchReply r])"
    by (simp add: recorded_def)
  have c: "custody (log @ [LaunchReply r]) (case r of Inr h \<Rightarrow> Some h | Inl _ \<Rightarrow> None)"
    using assms None by (intro custody_snoc [of _ None]) (simp_all add: in_order_def handles_def track_reply_def split: sum.split)
  show thesis
    by (cases r) (use that None l l' c in \<open>simp_all add: SandboxedProcess_start_def\<close>)
qed

lemma stop_recorded:
  assumes "custody log (sp_handle p)"
  obtains r p' w' log' where "SandboxedProcess_stop sb request p w = (r, p', w')"
    and "SandboxedProcess_stop (recorded sb) request p (w, log) = (r, p', (w', log'))"
    and "custody log' (sp_handle p')"
proof (cases "sp_handle p")
  case None
  then show thesis using that assms by (simp add: SandboxedProcess_stop_def)
next
  case (Some h)
  obtain r w' where l: "sb_stop sb h request w = (r, w')" by (meson surj_pair)
  then have l': "sb_stop (recorded sb) h request (w, log) = (r, w', log @ [StopReply h r])"
    by (simp add: recorded_def)
  have c: "custody (log @ [StopReply h r])
      (case r of Inr report \<Rightarrow> if cr_complete report then None else Some h | Inl _ \<Rightarrow> Some h)"
    using assms Some
    by (intro custody_snoc [of _ "Some h"]) (simp_all add: in_order_def handles_def track_reply_def split: sum.split)
  show thesis
    by (cases r) (use that Some l l' c in \<open>simp_all add: SandboxedProcess_stop_def\<close>)
qed

lemma launch_recorded:
  assumes "custody log (sp_handle (ia_process a))"
  obtains r b w' log' where "launch_instance sb now a w = (r, b, w')"
    and "launch_instance (recorded sb) now a (w, log) = (r, b, (w', log'))"
    and "custody log' (sp_handle (ia_process b))"
proof (rule start_recorded [OF assms, of sb w])
  fix r p' w' log'
  assume "SandboxedProcess_start sb (ia_process a) w = (r, p', w')"
    "SandboxedProcess_start (recorded sb) (ia_process a) (w, log) = (r, p', (w', log'))"
    "custody log' (sp_handle p')"
  then show thesis using that by (cases r) (simp_all add: launch_instance_def)
qed

lemma actor_start_recorded:
  assumes "custody log (sp_handle (ia_process a))"
  obtains r b w' log' where "InstanceActor_start sb now a w = (r, b, w')"
    and "InstanceActor_start (recorded sb) now a (w, log) = (r, b, (w', log'))"
    and "custody log' (sp_handle (ia_process b))"
proof -
  consider (quarantined) "ia_state a = IAQuarantined"
    | (restart) "ia_state a = IAStopped" "sp_handle (ia_process a) \<noteq> None"
    | (launch) "ia_state a \<noteq> IAQuarantined" "\<not> (ia_state a = IAStopped \<and> sp_handle (ia_process a) \<noteq> None)"
    by blast
  then show thesis
  proof cases
    case quarantined
    then show ?thesis using that assms by (simp add: InstanceActor_start_def)
  next
    case restart
    obtain r p' w' log' where s: "SandboxedProcess_stop sb RESTART_STOP (ia_process a) w = (r, p', w')"
      "SandboxedProcess_stop (recorded sb) RESTART_STOP (ia_process a) (w, log) = (r, p', (w', log'))"
      "custody log' (sp_handle p')" by (rule stop_recorded [OF assms])
    let ?a = "a\<lparr>ia_process := p', ia_state := IAStarting\<rparr>"
    obtain r2 b2 w2 log2 where l: "launch_instance sb now ?a w' = (r2, b2, w2)"
      "launch_instance (recorded sb) now ?a (w', log') = (r2, b2, (w2, log2))"
      "custody log2 (sp_handle (ia_process b2))"
      by (rule launch_recorded [of log' ?a sb now w']) (use s(3) in simp)
    show ?thesis
      by (cases "case r of Inl _ \<Rightarrow> True | Inr report \<Rightarrow> \<not> cr_complete report")
        (use that restart s l in \<open>simp_all add: InstanceActor_start_def\<close>)
  next
    case launch
    obtain r2 b2 w2 log2 where l: "launch_instance sb now (a\<lparr>ia_state := IAStarting\<rparr>) w = (r2, b2, w2)"
      "launch_instance (recorded sb) now (a\<lparr>ia_state := IAStarting\<rparr>) (w, log) = (r2, b2, (w2, log2))"
      "custody log2 (sp_handle (ia_process b2))"
      by (rule launch_recorded [of log "a\<lparr>ia_state := IAStarting\<rparr>" sb now w]) (use assms in simp)
    show ?thesis using that l launch by (auto simp: InstanceActor_start_def)
  qed
qed

lemma actor_stop_recorded:
  assumes "custody log (sp_handle (ia_process a))"
  obtains r b w' log' where "InstanceActor_stop sb request a w = (r, b, w')"
    and "InstanceActor_stop (recorded sb) request a (w, log) = (r, b, (w', log'))"
    and "custody log' (sp_handle (ia_process b))"
proof (rule stop_recorded [OF assms, of sb request w])
  fix r p' w' log'
  assume "SandboxedProcess_stop sb request (ia_process a) w = (r, p', w')"
    "SandboxedProcess_stop (recorded sb) request (ia_process a) (w, log) = (r, p', (w', log'))"
    "custody log' (sp_handle p')"
  then show thesis using that by (cases r) (simp_all add: InstanceActor_stop_def Let_def)
qed

lemma actor_exec_recorded:
  assumes "custody log (sp_handle (ia_process a))"
  obtains b w' log' where "actor_exec sb c (a, w) = (b, w')"
    and "actor_exec (recorded sb) c (a, (w, log)) = (b, (w', log'))"
    and "custody log' (sp_handle (ia_process b))"
proof -
  consider (start) now where "c = CStart now" | (stop) r where "c = CStop r"
    | (other) "\<And>now. c \<noteq> CStart now" "\<And>r. c \<noteq> CStop r"
    by (cases "(\<exists>now. c = CStart now) \<or> (\<exists>r. c = CStop r)") blast+
  then show thesis
  proof cases
    case start
    show ?thesis by (rule actor_start_recorded [OF assms, of sb now w]) (use that start in simp)
  next
    case stop
    show ?thesis by (rule actor_stop_recorded [OF assms, of sb r w]) (use that stop in simp)
  next
    case other
    have "fst (actor_exec (recorded sb) c (a, (w, log))) = fst (actor_exec sb c (a, w))"
      by (cases c) (use other in simp_all)
    then show ?thesis
      using that [of "fst (actor_exec sb c (a, w))" w log] assms actor_exec_frame [OF other, of sb a w]
        actor_exec_frame [OF other, of "recorded sb" a "(w, log)"] by (metis prod.collapse)
  qed
qed

lemma actor_run_recorded:
  assumes "custody log (sp_handle (ia_process a))"
    and "actor_run (recorded sb) cs (a, (w, log)) = (b, (w', log'))"
  shows "actor_run sb cs (a, w) = (b, w') \<and> custody log' (sp_handle (ia_process b))"
  using assms
proof (induction cs arbitrary: a w log)
  case (Cons c cs)
  obtain a1 w1 log1 where e: "actor_exec sb c (a, w) = (a1, w1)"
    "actor_exec (recorded sb) c (a, (w, log)) = (a1, (w1, log1))" "custody log1 (sp_handle (ia_process a1))"
    by (rule actor_exec_recorded [OF Cons.prems(1)])
  show ?case using Cons.IH [OF e(3), of w1] Cons.prems(2) e by (simp add: actor_run_def)
qed (simp add: actor_run_def)

section \<open>Crash loops\<close>

fun failing_starts :: "'w sandbox \<Rightarrow> nat list \<Rightarrow> instance_actor \<times> 'w \<Rightarrow> instance_actor \<times> 'w" where
  "failing_starts sb [] aw = aw"
| "failing_starts sb (t # ts) aw = failing_starts sb ts (actor_exec sb (CStart t) aw)"

definition never_launches :: "'w sandbox \<Rightarrow> bool" where
  "never_launches sb \<longleftrightarrow> (\<forall>plan binding w. \<exists>e w'. sb_launch sb plan binding w = (Inl e, w'))"

lemma failing_start:
  assumes "never_launches sb" and "sp_handle (ia_process a) = None" and "ia_state a \<noteq> IAQuarantined"
  obtains b w' where "actor_exec sb (CStart t) (a, w) = (b, w')"
    and "sp_handle (ia_process b) = None"
    and "ia_crash_timestamps b = filter (\<lambda>u. t - u \<le> CRASH_WINDOW) (ia_crash_timestamps a @ [t])"
    and "ia_state b = (if length (ia_crash_timestamps b) > 3 then IAQuarantined else IAStopped)"
proof -
  obtain e w' where l: "sb_launch sb (sp_plan (ia_process a)) (sp_binding (ia_process a)) w = (Inl e, w')"
    using assms(1) unfolding never_launches_def by blast
  let ?p = "(ia_process a)\<lparr>sp_state := SPQuarantined\<rparr>"
  let ?a = "a\<lparr>ia_state := IAStarting, ia_process := ?p\<rparr>"
  have "SandboxedProcess_start sb (ia_process a) w = (Inl e, ?p, w')"
    using assms(2) l by (simp add: SandboxedProcess_start_def)
  then have "actor_exec sb (CStart t) (a, w) = (snd (record_crash t ?a), w')"
    using assms(2,3) by (simp add: InstanceActor_start_def launch_instance_def)
  then show thesis
    by (rule that) (use assms(2) in \<open>simp_all add: record_crash_def Let_def\<close>)
qed

text \<open>A burst: the crashes so far all lie in the window of the next ones.\<close>

lemma failing_starts_burst:
  assumes "never_launches sb" and "sp_handle (ia_process a) = None" and "ia_state a \<noteq> IAQuarantined"
    and "\<forall>u\<in>set (ia_crash_timestamps a @ ts). \<forall>t\<in>set ts. t - u \<le> CRASH_WINDOW"
    and "length (ia_crash_timestamps a) + length ts \<le> 4" and "ts \<noteq> []"
    and "length (ia_crash_timestamps a) \<le> 3"
  shows "ia_state (fst (failing_starts sb ts (a, w))) =
    (if length (ia_crash_timestamps a) + length ts = 4 then IAQuarantined else IAStopped)"
  using assms
proof (induction ts arbitrary: a w)
  case (Cons t ts)
  obtain b w' where b: "actor_exec sb (CStart t) (a, w) = (b, w')" "sp_handle (ia_process b) = None"
    "ia_crash_timestamps b = filter (\<lambda>u. t - u \<le> CRASH_WINDOW) (ia_crash_timestamps a @ [t])"
    "ia_state b = (if length (ia_crash_timestamps b) > 3 then IAQuarantined else IAStopped)"
    by (rule failing_start [OF Cons.prems(1-3)])
  have ts: "ia_crash_timestamps b = ia_crash_timestamps a @ [t]"
    using b(3) Cons.prems(4) by (auto simp: filter_id_conv)
  show ?case
  proof (cases "ts = []")
    case True
    then show ?thesis using b ts Cons.prems(5) by auto
  next
    case False
    then have "length ts \<ge> 1" by (cases ts) auto
    then have len: "length (ia_crash_timestamps b) \<le> 3" using ts Cons.prems(5) by simp
    have "ia_state (fst (failing_starts sb ts (b, w'))) =
      (if length (ia_crash_timestamps b) + length ts = 4 then IAQuarantined else IAStopped)"
    proof (rule Cons.IH [OF Cons.prems(1) b(2)])
      show "ia_state b \<noteq> IAQuarantined" using b(4) len by simp
      show "\<forall>u\<in>set (ia_crash_timestamps b @ ts). \<forall>t\<in>set ts. t - u \<le> CRASH_WINDOW"
        using Cons.prems(4) ts by auto
      show "length (ia_crash_timestamps b) + length ts \<le> 4" using Cons.prems(5) ts by simp
    qed (use False len in auto)
    then show ?thesis using b(1) ts by simp
  qed
qed simp

section \<open>Generations\<close>

lemma next_generation_unat:
  "unat (next_generation g) = (if g = - 1 then 1 else unat g + 1)"
proof (cases "g = - 1")
  case True
  then show ?thesis by (simp add: next_generation_def)
next
  case False
  then have "unat g \<noteq> unat (- 1 :: u64)" by (simp add: word_unat_eq_iff)
  moreover have "unat g \<le> unat (- 1 :: u64)" by (simp add: flip: word_le_nat_alt)
  ultimately have "unat g + 1 < 2 ^ 64" by (simp add: unat_max_word)
  then have "unat (g + 1) = unat g + 1" using unat_add_no_overflow [of g 1] by simp
  then show ?thesis using False by (simp add: next_generation_def max_def word_le_nat_alt)
qed

lemma next_generation_changes: "next_generation g \<noteq> g" and next_generation_pos: "next_generation g \<noteq> 0"
proof -
  have m: "unat (- 1 :: u64) = 2 ^ 64 - 1" by (simp add: unat_max_word)
  have "unat (next_generation g) \<noteq> unat g" and "unat (next_generation g) \<noteq> 0"
    using m by (auto simp: next_generation_unat)
  then show "next_generation g \<noteq> g" and "next_generation g \<noteq> 0" by auto
qed

lemma start_generation:
  assumes "InstanceActor_start sb now a w = (Inr h, b, w')"
  shows "ia_generation b = next_generation (ia_generation a) \<and> ia_state b = IAHealthy \<and>
    ia_fence_token b = ia_fence_token a \<and> sp_handle (ia_process b) = Some h"
  using assms SandboxedProcess_start_handle
  by (auto simp: InstanceActor_start_def launch_instance_def split: if_splits prod.splits sum.splits)

text \<open>The starts of a run that the actor accepts, and the generation they lead to.\<close>

fun accepted_starts :: "'w sandbox \<Rightarrow> actor_call list \<Rightarrow> instance_actor \<times> 'w \<Rightarrow> nat" where
  "accepted_starts sb [] aw = 0"
| "accepted_starts sb (c # cs) aw =
     (case c of
        CStart now \<Rightarrow> if is_ok (fst (InstanceActor_start sb now (fst aw) (snd aw))) then 1 else 0
      | _ \<Rightarrow> 0) + accepted_starts sb cs (actor_exec sb c aw)"

lemma start_refused_generation:
  "InstanceActor_start sb now a w = (Inl e, b, w') \<Longrightarrow> ia_generation b = ia_generation a"
  by (auto simp: InstanceActor_start_def launch_instance_def record_crash_def Let_def
      split: if_splits prod.splits sum.splits)

lemma actor_generation_frame:
  assumes "\<And>now. c \<noteq> CStart now"
  shows "ia_generation (fst (actor_exec sb c (a, w))) = ia_generation a"
proof (cases c)
  case (CRequest now out pend r)
  then show ?thesis by (cases out) (simp_all add: send_request_def record_crash_def Let_def)
next
  case (CStop r)
  then show ?thesis by (simp add: InstanceActor_stop_def Let_def split: prod.split sum.split)
qed (use assms in \<open>simp_all add: actor_simps split: option.split\<close>)

lemma run_generation:
  "ia_generation (fst (actor_run sb cs (a, w))) = (next_generation ^^ accepted_starts sb cs (a, w)) (ia_generation a)"
proof (induction cs arbitrary: a w)
  case (Cons c cs)
  obtain b w' where e: "actor_exec sb c (a, w) = (b, w')" by (cases "actor_exec sb c (a, w)")
  have run: "ia_generation (fst (actor_run sb (c # cs) (a, w))) =
      (next_generation ^^ accepted_starts sb cs (b, w')) (ia_generation b)"
    using Cons.IH [of b w'] by (simp add: actor_run_def e)
  show ?case
  proof (cases "\<exists>now. c = CStart now")
    case True
    then obtain now where c: "c = CStart now" by blast
    obtain r b2 w2 where "InstanceActor_start sb now a w = (r, b2, w2)" by (rule prod_cases3)
    then have s: "InstanceActor_start sb now a w = (r, b, w')" using e c by simp
    show ?thesis
      by (cases r) (use run c s e start_generation [of sb now a w _ b w'] start_refused_generation [of sb now a w _ b w']
        in \<open>simp_all add: is_ok_def funpow_swap1\<close>)
  next
    case False
    then have "ia_generation b = ia_generation a" using actor_generation_frame [of c sb a w] e by auto
    then show ?thesis using run e False by (cases c) auto
  qed
qed (simp add: actor_run_def)

lemma generation_cycle:
  "unat ((next_generation ^^ n) 0) = (if n = 0 then 0 else (n - 1) mod (2 ^ 64 - 1) + 1)"
proof (induction n)
  case (Suc n)
  let ?m = "2 ^ 64 - 1 :: nat"
  have g: "unat (- 1 :: u64) = ?m" by (simp add: unat_max_word)
  have step: "unat ((next_generation ^^ Suc n) 0) =
      (if unat ((next_generation ^^ n) 0) = ?m then 1 else unat ((next_generation ^^ n) 0) + 1)"
    by (simp add: next_generation_unat word_unat_eq_iff g)
  show ?case
  proof (cases n)
    case 0
    then show ?thesis using step by simp
  next
    case (Suc k)
    then have ih: "unat ((next_generation ^^ n) 0) = k mod ?m + 1" using Suc.IH by simp
    have "Suc k mod ?m = (if Suc (k mod ?m) = ?m then 0 else Suc (k mod ?m))" by (rule mod_Suc)
    then show ?thesis unfolding step ih using Suc by simp
  qed
qed simp

section \<open>Properties\<close>

text \<open>A small sandbox for the examples: its world is the set of running processes.\<close>

definition ix_handle :: process_handle where
  "ix_handle = \<lparr>ph_pid = 7, ph_cgroup_path = ''cg'', ph_start_time_ticks = Some 9, ph_transport_socket = None\<rparr>"

definition ix_stopped :: cleanup_report where
  "ix_stopped = not_running_report\<lparr>cr_reason_code := ''STOPPED''\<rparr>"

definition ix_sandbox :: "process_handle set sandbox" where
  "ix_sandbox =
     \<lparr>sb_launch = \<lambda>_ _ w. (Inr ix_handle, insert ix_handle w),
      sb_stop = \<lambda>h _ w. (Inr ix_stopped, w - {h})\<rparr>"

definition ix_broken :: "unit sandbox" where
  "ix_broken =
     \<lparr>sb_launch = \<lambda>_ _ w. (Inl (iw_err ''SPAWN'' ''no''), w), sb_stop = \<lambda>_ _ w. (Inl (iw_err ''STOP'' ''no''), w)\<rparr>"

definition ix_plan :: launch_plan where
  "ix_plan =
     \<lparr>lp_instance_name = ''w'', lp_executable = ''x'', lp_args = [], lp_environment = [],
      lp_cgroup_name = ''cg'',
      lp_limits = \<lparr>cl_cpu_max_millicores = None, cl_memory_max_bytes = None, cl_cpuset_cpus = None\<rparr>,
      lp_working_dir = None, lp_transport_socket = None\<rparr>"

definition ix_binding :: device_binding where
  "ix_binding =
     \<lparr>db_resource_id = ''r'', db_nodes = [], db_environment = [], db_joinable_environment_keys = [],
      db_required_gids = [], db_enforcement = Hard, db_adapter_id = ''a'', db_reason_code = ''OK''\<rparr>"

definition ix_actor :: instance_actor where
  "ix_actor = InstanceActor_new ''w'' ''l'' 3 ix_plan ix_binding 20"

lemma ix_broken_never: "never_launches ix_broken"
  by (simp add: never_launches_def ix_broken_def)

text \<open>C29. An actor has at most one process in custody and never drops one, whatever the sandbox does
  and answers. Run a new actor through any calls on any sandbox, writing down each answer the sandbox
  gives. A launch is requested only when every process launched before was reported completely
  cleaned; a stop is requested only for the one process that was not; and at the end the actor holds
  the handle of exactly the launched process not yet reported clean. Writing the answers down does
  not change the run. (A process that a sandbox leaves behind although it answers a launch with an
  error is not among these: the actor never learns of it.)\<close>

theorem actor_owns_processes:
  assumes "actor_run (recorded sb) cs (InstanceActor_new i l f plan binding deadline, (w, [])) = (a, (w', log))"
  shows "actor_run sb cs (InstanceActor_new i l f plan binding deadline, w) = (a, w') \<and>
    outstanding log = (case sp_handle (ia_process a) of None \<Rightarrow> [] | Some h \<Rightarrow> [h]) \<and>
    (\<forall>k<length log. case log ! k of
       LaunchReply _ \<Rightarrow> outstanding (take k log) = []
     | StopReply h _ \<Rightarrow> outstanding (take k log) = [h])"
proof -
  have "custody [] (sp_handle (ia_process (InstanceActor_new i l f plan binding deadline)))"
    by (simp add: custody_def handles_def InstanceActor_new_def SandboxedProcess_new_def)
  from actor_run_recorded [OF this assms] show ?thesis
    by (auto simp: custody_def handles_def in_order_def)
qed

theorem actor_owns_processes_witness:
  "\<exists>a. actor_run (recorded ix_sandbox) [CStart 5, CHeartbeat 6, CStart 7, CStop RESTART_STOP, CStart 8] (ix_actor, ({}, [])) =
       (a, ({ix_handle}, [LaunchReply (Inr ix_handle), StopReply ix_handle (Inr ix_stopped), LaunchReply (Inr ix_handle)])) \<and>
     outstanding [LaunchReply (Inr ix_handle), StopReply ix_handle (Inr ix_stopped), LaunchReply (Inr ix_handle)] =
       (case sp_handle (ia_process a) of None \<Rightarrow> [] | Some h \<Rightarrow> [h])"
proof -
  let ?log = "[LaunchReply (Inr ix_handle), StopReply ix_handle (Inr ix_stopped), LaunchReply (Inr ix_handle)]"
  let ?r = "actor_run (recorded ix_sandbox) [CStart 5, CHeartbeat 6, CStart 7, CStop RESTART_STOP, CStart 8] (ix_actor, ({}, []))"
  have "snd ?r = ({ix_handle}, ?log)"
    by (simp add: actor_run_def ix_actor_def InstanceActor_new_def InstanceActor_start_def InstanceActor_stop_def
        launch_instance_def SandboxedProcess_start_def SandboxedProcess_stop_def SandboxedProcess_new_def
        ix_sandbox_def recorded_def on_heartbeat_received_def ix_stopped_def not_running_report_def Let_def)
  then have run: "?r = (fst ?r, ({ix_handle}, ?log))" by (metis prod.collapse)
  from actor_owns_processes [OF run [unfolded ix_actor_def]] run show ?thesis
    by (auto simp: ix_actor_def)
qed

text \<open>C30. A crash loop ends in quarantine: when every launch fails, one to three attempts within
  the sixty-second window leave the actor stopped, and the fourth quarantines it.\<close>

theorem crash_loop_quarantines:
  assumes "never_launches sb" and "\<forall>t\<in>set ts. \<forall>u\<in>set ts. t - u \<le> CRASH_WINDOW"
    and "ts \<noteq> []" and "length ts \<le> 4"
  shows "ia_state (fst (failing_starts sb ts (InstanceActor_new i l f plan binding deadline, w))) =
    (if length ts = 4 then IAQuarantined else IAStopped)"
proof -
  let ?a = "InstanceActor_new i l f plan binding deadline"
  have "ia_crash_timestamps ?a = []" "sp_handle (ia_process ?a) = None" "ia_state ?a \<noteq> IAQuarantined"
    by (simp_all add: InstanceActor_new_def SandboxedProcess_new_def)
  with failing_starts_burst [of sb ?a ts w] assms show ?thesis by auto
qed

theorem crash_loop_quarantines_witness:
  "ia_state (fst (failing_starts ix_broken [1, 2, 3, 4] (ix_actor, ()))) = IAQuarantined"
  using crash_loop_quarantines [OF ix_broken_never, of "[1, 2, 3, 4]"]
  by (simp add: ix_actor_def CRASH_WINDOW_def)

text \<open>C31. The generation counts the accepted starts. After any run of a new actor it is the number of
  starts the actor accepted, reduced into 1 .. 2^64 - 1 (and zero only before the first), so no started
  process has generation zero and two consecutive accepted starts never share a generation. A start
  of an actor whose process is up is accepted too: it launches nothing, returns the same handle and
  still moves to the next generation.\<close>

theorem generation_counts_starts:
  "(let k = accepted_starts sb cs (InstanceActor_new i l f plan binding deadline, w) in
    unat (ia_generation (fst (actor_run sb cs (InstanceActor_new i l f plan binding deadline, w)))) =
      (if k = 0 then 0 else (k - 1) mod (2 ^ 64 - 1) + 1)) \<and>
   (\<forall>h. sp_handle (ia_process a) = Some h \<and> ia_state a \<noteq> IAQuarantined \<and> ia_state a \<noteq> IAStopped \<longrightarrow>
     InstanceActor_start sb now a v =
       (Inr h, a\<lparr>ia_generation := next_generation (ia_generation a), ia_state := IAHealthy,
                 ia_last_heartbeat := Some now\<rparr>, v) \<and>
     next_generation (ia_generation a) \<noteq> ia_generation a)"
proof -
  have "ia_generation (InstanceActor_new i l f plan binding deadline) = 0" by (simp add: InstanceActor_new_def)
  then show ?thesis
    using generation_cycle next_generation_changes
    by (simp add: run_generation Let_def InstanceActor_start_def launch_instance_def SandboxedProcess_start_def)
qed

theorem generation_counts_starts_witness:
  "\<exists>b w'. InstanceActor_start ix_sandbox 5 ix_actor {} = (Inr ix_handle, b, w') \<and>
     accepted_starts ix_sandbox [CStart 5, CStart 7] (ix_actor, {}) = 2 \<and>
     unat (ia_generation (fst (actor_run ix_sandbox [CStart 5, CStart 7] (ix_actor, {})))) = 2 \<and>
     fst (InstanceActor_start ix_sandbox 7 b w') = Inr ix_handle \<and>
     snd (snd (InstanceActor_start ix_sandbox 7 b w')) = w'"
proof -
  obtain b w' where s: "InstanceActor_start ix_sandbox 5 ix_actor {} = (Inr ix_handle, b, w')"
    by (simp add: ix_actor_def InstanceActor_new_def InstanceActor_start_def
        launch_instance_def SandboxedProcess_start_def SandboxedProcess_new_def ix_sandbox_def)
  have b: "sp_handle (ia_process b) = Some ix_handle" "ia_state b = IAHealthy"
    using start_generation [OF s] by simp_all
  note g = generation_counts_starts [of ix_sandbox "[CStart 5, CStart 7]" "''w''" "''l''" 3 ix_plan ix_binding 20 "{}" b 7 w']
  have again: "fst (InstanceActor_start ix_sandbox 7 b w') = Inr ix_handle"
    "snd (snd (InstanceActor_start ix_sandbox 7 b w')) = w'"
    using g b by simp_all
  then have "accepted_starts ix_sandbox [CStart 5, CStart 7] (ix_actor, {}) = 2" using s by (simp add: is_ok_def)
  then show ?thesis using s again g by (auto simp: ix_actor_def)
qed

text \<open>A restart fences off its predecessor: after a successful start, a response or a
  transport loss reported under the previous generation is refused and changes nothing.\<close>

theorem stale_generation_refused:
  assumes "InstanceActor_start sb now a w = (Inr h, b, w')"
  shows "dispatch_response (r\<lparr>wtr_generation := ia_generation a\<rparr>) alive b = (False, b) \<and>
    mark_transport_lost later (ia_generation a) f b = (False, b)"
  using start_generation [OF assms] next_generation_changes [of "ia_generation a"]
  by (simp add: dispatch_response_def mark_transport_lost_def)

theorem stale_generation_refused_witness:
  "\<exists>b w'. InstanceActor_start ix_sandbox 5 ix_actor {} = (Inr ix_handle, b, w') \<and>
     mark_transport_lost 6 (ia_generation ix_actor) 3 b = (False, b)"
proof -
  obtain b w' where s: "InstanceActor_start ix_sandbox 5 ix_actor {} = (Inr ix_handle, b, w')"
    by (simp add: ix_actor_def InstanceActor_new_def InstanceActor_start_def
        launch_instance_def SandboxedProcess_start_def SandboxedProcess_new_def ix_sandbox_def)
  from stale_generation_refused [OF s] s show ?thesis by blast
qed

text \<open>C33. How quarantine ends. A start is refused, and every call but a stop and a further crash report
  keeps a quarantined actor quarantined. A stop leaves quarantine exactly when its cleanup is complete,
  and a crash reported through \<open>record_crash\<close> leaves it exactly when fewer than three earlier crashes
  lie in its sixty-second window; in both cases the actor is merely stopped and a start launches again.\<close>

theorem quarantine_exits:
  assumes "ia_state a = IAQuarantined"
  shows "(\<forall>c. (\<forall>r. c \<noteq> CStop r) \<and> (\<forall>now. c \<noteq> CRecordCrash now) \<longrightarrow>
       ia_state (fst (actor_exec sb c (a, w))) = IAQuarantined) \<and>
    (\<forall>now. \<exists>e. InstanceActor_start sb now a w = (Inl e, a, w)) \<and>
    (\<forall>request. ia_state (fst (actor_exec sb (CStop request) (a, w))) =
       (case fst (SandboxedProcess_stop sb request (ia_process a) w) of
          Inl _ \<Rightarrow> IAQuarantined
        | Inr report \<Rightarrow> if cr_complete report then IAStopped else IAQuarantined)) \<and>
    (\<forall>now. ia_state (fst (actor_exec sb (CRecordCrash now) (a, w))) =
       (if length (filter (\<lambda>t. now - t \<le> CRASH_WINDOW) (ia_crash_timestamps a)) < 3
        then IAStopped else IAQuarantined))"
proof (intro conjI allI impI)
  fix c
  assume "(\<forall>r. c \<noteq> CStop r) \<and> (\<forall>now. c \<noteq> CRecordCrash now)"
  then show "ia_state (fst (actor_exec sb c (a, w))) = IAQuarantined"
    using assms
    by (cases c) (simp_all add: attach_transport_channel_def dispatch_response_def
        dispatch_cancel_ack_def mark_transport_lost_def send_request_def request_cancel_def drain_def
        on_heartbeat_received_def check_heartbeat_deadline_def InstanceActor_start_def Let_def
        split: option.split)
next
  fix now
  show "\<exists>e. InstanceActor_start sb now a w = (Inl e, a, w)"
    using assms by (simp add: InstanceActor_start_def)
next
  fix request
  show "ia_state (fst (actor_exec sb (CStop request) (a, w))) =
       (case fst (SandboxedProcess_stop sb request (ia_process a) w) of
          Inl _ \<Rightarrow> IAQuarantined
        | Inr report \<Rightarrow> if cr_complete report then IAStopped else IAQuarantined)"
    by (simp add: InstanceActor_stop_def Let_def split: prod.split sum.split)
next
  fix now
  show "ia_state (fst (actor_exec sb (CRecordCrash now) (a, w))) =
       (if length (filter (\<lambda>t. now - t \<le> CRASH_WINDOW) (ia_crash_timestamps a)) < 3
        then IAStopped else IAQuarantined)"
    by (auto simp: record_crash_def Let_def)
qed

theorem quarantine_exits_witness:
  "\<exists>a. ia_state a = IAQuarantined \<and>
     ia_state (fst (actor_exec ix_sandbox (CStop RESTART_STOP) (a, {}))) = IAStopped \<and>
     ia_state (fst (actor_exec ix_sandbox (CRecordCrash 9) (a, {}))) = IAStopped \<and>
     ia_state (fst (actor_exec ix_sandbox (CHeartbeat 9) (a, {}))) = IAQuarantined"
proof -
  let ?a = "ix_actor\<lparr>ia_state := IAQuarantined\<rparr>"
  have "fst (SandboxedProcess_stop ix_sandbox RESTART_STOP (ia_process ?a) {}) = Inr not_running_report"
    "cr_complete not_running_report" "ia_crash_timestamps ?a = []"
    by (simp_all add: ix_actor_def InstanceActor_new_def SandboxedProcess_new_def SandboxedProcess_stop_def
        not_running_report_def)
  moreover have "ia_state ?a = IAQuarantined" by simp
  note q = quarantine_exits [OF this, of ix_sandbox "{}"]
  have "ia_state (fst (actor_exec ix_sandbox (CHeartbeat 9) (?a, {}))) = IAQuarantined" using q by blast
  ultimately show ?thesis using q by (intro exI [of _ ?a]) (simp del: actor_exec.simps)
qed

text \<open>Draining does not survive a missed heartbeat: when a draining actor is overdue, the
  deadline check makes it degraded, after which a request is no longer refused as draining, and
  the next heartbeat makes it healthy.\<close>

theorem draining_reopened:
  assumes "ia_state a = IADraining" and "ia_last_heartbeat a = Some t"
    and "now - t > ia_heartbeat_deadline a" and "ia_transport a" and "rid \<noteq> []"
  shows "(\<exists>e. fst (send_request now out pend rid a) = Inl e \<and> pe_reason_code e = ''INSTANCE_DRAINING'') \<and>
    fst (send_request now (Replied \<lparr>wtr_request_id = rid, wtr_generation = g, wtr_fence_token = f, wtr_payload = body\<rparr>)
      pend rid (snd (check_heartbeat_deadline now a))) = Inr body \<and>
    ia_state (snd (on_heartbeat_received now (snd (check_heartbeat_deadline now a)))) = IAHealthy"
  using assms
  by (simp add: send_request_def check_heartbeat_deadline_def on_heartbeat_received_def iw_err_def
      provider_err_def)

theorem draining_reopened_witness:
  "ia_state (snd (on_heartbeat_received 50 (snd (check_heartbeat_deadline 50
     (ix_actor\<lparr>ia_state := IADraining, ia_last_heartbeat := Some 1, ia_transport := True\<rparr>))))) = IAHealthy"
  using draining_reopened [of "ix_actor\<lparr>ia_state := IADraining, ia_last_heartbeat := Some 1, ia_transport := True\<rparr>"
      1 50 "''r''"]
  by (simp add: ix_actor_def InstanceActor_new_def)

end
