(* ===== verification/Authority_State.thy ===== *)
theory Authority_State
  imports Resource_Manager Instance_Actor
begin

text \<open>
  State and shared helpers of the local Kernel authority
  (\<open>cy-kernel-daemon/src/authority.rs\<close> and the calls of \<open>daemon.rs\<close> it makes): ports,
  namespaces, lease and worker lookup, journal records and the semantic event stream. Every
  port works on a world state \<open>'w\<close>, so clocks, stores and the sandbox may answer each call
  differently. A handler is an action on the authority state that returns a value, rejects or
  panics; the state it had reached is kept in all three cases. Each handler is one step:
  interleavings inside a handler and poisoned locks are not represented. The hash map of
  instances is iterated in key order.
\<close>

section \<open>Ports and state\<close>

datatype authority_error = Rejected rejection | Panicked string

record 'w ports =
  pt_node_id :: string
  pt_node_epoch :: u64
  pt_graceful_stop :: nat
  pt_heartbeat_timeout :: nat
  pt_heartbeat_interval :: nat
  pt_heartbeat_socket :: string
  pt_backend_id :: string
  pt_now :: "'w \<Rightarrow> u64 \<times> 'w"
  pt_instant :: "'w \<Rightarrow> nat \<times> 'w"
  pt_append :: "runtime_journal_record \<Rightarrow> 'w \<Rightarrow> (provider_error + unit) \<times> 'w"
  pt_append_event :: "durable_event_record \<Rightarrow> 'w \<Rightarrow> (provider_error + unit) \<times> 'w"
  pt_events_for_source ::
    "identity \<Rightarrow> string \<Rightarrow> 'w \<Rightarrow> (provider_error + durable_event_record list option) \<times> 'w"
  pt_sandbox :: "'w sandbox"
  pt_preflight_for_binding :: "device_binding \<Rightarrow> 'w \<Rightarrow> node_capabilities \<times> 'w"
  pt_probe_inventory :: "'w \<Rightarrow> (provider_error + inventory_snapshot) \<times> 'w"
  pt_create_binding :: "resource \<Rightarrow> u64 \<Rightarrow> 'w \<Rightarrow> (provider_error + device_binding) \<times> 'w"
  pt_resolve_worker :: "worker \<Rightarrow> 'w \<Rightarrow> (provider_error + launch_plan) \<times> 'w"
  pt_cancel_channel :: "'w \<Rightarrow> (string \<times> string option) \<times> 'w"

text \<open>Protobuf-only fields of the legacy service (plugin, runtime state, health) are left out.\<close>

record managed_process =
  mp_actor :: instance_actor
  mp_lease :: "(string \<times> u64) option"
  mp_semantic_worker :: "worker option"
  mp_generation :: u64
  mp_accepted_sequence :: u64
  mp_last_heartbeat_at :: "u64 option"
  mp_restart_count :: u32
  mp_watchdog_triggered :: bool
  mp_transport_disconnected :: bool
  mp_control :: "u64 option"
  mp_semantic_control :: "u64 option"
  mp_pending_shutdown :: "(string \<times> bool \<times> bool) option"

datatype provider_inventory_scope = ScopeFull | ScopeResourceFactsOnly

record provider_record =
  pv_provider :: provider
  pv_principal :: principal
  pv_inventory_scope :: provider_inventory_scope
  pv_inventory :: "provider_snapshot option"
  pv_reconciled_snapshot_generation :: "u64 option"
  pv_pending_stale_workers :: "(identity \<times> u64) list"

record namespace_event_history =
  eh_next_sequence :: "u64 option"
  eh_events :: "event list"

record 'w authority =
  au_ledger :: rm_state
  au_instances :: "(string, managed_process) btree_map"
  au_workers :: "(object_ref, string) btree_map"
  au_leases :: "(object_ref, string) btree_map"
  au_operations :: "(object_ref, operation) btree_map"
  au_events :: "(namespace_id, namespace_event_history) btree_map"
  au_endpoints :: "(object_ref, endpoint) btree_map"
  au_grants :: "(object_ref, endpoint_grant) btree_map"
  au_providers :: "(namespace_id \<times> string, provider_record) btree_map"
  au_owners :: "(namespace_id, identity) btree_map"
  au_world :: 'w

definition authority_new :: "rm_state \<Rightarrow> 'w \<Rightarrow> 'w authority" where
  "authority_new ledger w =
     \<lparr>au_ledger = ledger, au_instances = [], au_workers = [], au_leases = [], au_operations = [],
      au_events = [], au_endpoints = [], au_grants = [], au_providers = [], au_owners = [],
      au_world = w\<rparr>"

section \<open>Actions\<close>

type_synonym ('w, 'a) act = "'w authority \<Rightarrow> (authority_error + 'a) \<times> 'w authority"

named_theorems act_simps "unfolding of the action combinators"

definition ret :: "'a \<Rightarrow> ('w, 'a) act" where
  [act_simps]: "ret x s = (Inr x, s)"

definition reject :: "string \<Rightarrow> string \<Rightarrow> ('w, 'a) act" where
  [act_simps]: "reject code msg s = (Inl (Rejected (rejection code msg)), s)"

definition panic :: "string \<Rightarrow> ('w, 'a) act" where
  [act_simps]: "panic msg s = (Inl (Panicked msg), s)"

definition bind_act :: "('w, 'a) act \<Rightarrow> ('a \<Rightarrow> ('w, 'b) act) \<Rightarrow> ('w, 'b) act" where
  [act_simps]: "bind_act m f s = (case m s of (Inl e, s') \<Rightarrow> (Inl e, s') | (Inr x, s') \<Rightarrow> f x s')"

definition then_act :: "('w, 'a) act \<Rightarrow> ('w, 'b) act \<Rightarrow> ('w, 'b) act" where
  [act_simps]: "then_act m n = bind_act m (\<lambda>_. n)"

definition guard :: "bool \<Rightarrow> string \<Rightarrow> string \<Rightarrow> ('w, unit) act" where
  [act_simps]: "guard c code msg = (if c then ret () else reject code msg)"

definition gets :: "('w authority \<Rightarrow> 'a) \<Rightarrow> ('w, 'a) act" where
  [act_simps]: "gets f s = (Inr (f s), s)"

definition modify :: "('w authority \<Rightarrow> 'w authority) \<Rightarrow> ('w, unit) act" where
  [act_simps]: "modify f s = (Inr (), f s)"

definition of_rejection :: "rejection + 'a \<Rightarrow> ('w, 'a) act" where
  [act_simps]: "of_rejection r s = (map_err Rejected r, s)"

definition provider_rejection :: "provider_error \<Rightarrow> rejection" where
  "provider_rejection e = rejection (pe_reason_code e) (pe_message e)"

definition of_provider :: "provider_error + 'a \<Rightarrow> ('w, 'a) act" where
  [act_simps]: "of_provider r = of_rejection (map_err provider_rejection r)"

definition of_contract :: "contract_error + 'a \<Rightarrow> ('w, 'a) act" where
  [act_simps]: "of_contract r = of_rejection (map_err (\<lambda>e. rejection (ce_reason_code e) (ce_message e)) r)"

text \<open>A port call and a ledger call return the answer as a value.\<close>

definition port :: "('w \<Rightarrow> 'a \<times> 'w) \<Rightarrow> ('w, 'a) act" where
  [act_simps]: "port f s = (let (x, w) = f (au_world s) in (Inr x, s\<lparr>au_world := w\<rparr>))"

definition ledger :: "(rm_state \<Rightarrow> 'a \<times> rm_state) \<Rightarrow> ('w, 'a) act" where
  [act_simps]: "ledger f s = (let (x, l) = f (au_ledger s) in (Inr x, s\<lparr>au_ledger := l\<rparr>))"

text \<open>\<open>match\<close> or \<open>let _ =\<close> on a result: a rejection becomes a value, a panic does not.\<close>

definition attempt :: "('w, 'a) act \<Rightarrow> ('w, rejection + 'a) act" where
  [act_simps]: "attempt m s =
     (case m s of
        (Inr x, s') \<Rightarrow> (Inr (Inr x), s')
      | (Inl (Rejected r), s') \<Rightarrow> (Inr (Inl r), s')
      | (Inl (Panicked p), s') \<Rightarrow> (Inl (Panicked p), s'))"

fun each :: "('x \<Rightarrow> ('w, unit) act) \<Rightarrow> 'x list \<Rightarrow> ('w, unit) act" where
  "each f [] = ret ()"
| "each f (x # xs) = then_act (f x) (each f xs)"

section \<open>Ledger calls of daemon.rs\<close>

definition daemon_lease :: "'w ports \<Rightarrow> string \<Rightarrow> ('w, resource_lease) act" where
  "daemon_lease P name =
     bind_act (port (pt_now P)) (\<lambda>now.
     bind_act (ledger (get_lease now name)) of_provider)"

definition daemon_leases :: "'w ports \<Rightarrow> ('w, resource_lease list) act" where
  "daemon_leases P = bind_act (port (pt_now P)) (\<lambda>now. ledger (leases now))"

definition daemon_is_allocated :: "string \<Rightarrow> ('w, bool) act" where
  "daemon_is_allocated name = gets (\<lambda>s. lease_is_allocated name (au_ledger s))"

text \<open>The ledger reads the clock twice during an acquisition; both readings are taken first.\<close>

definition daemon_acquire_lease :: "'w ports \<Rightarrow> resource_request \<Rightarrow> ('w, resource_lease) act" where
  "daemon_acquire_lease P request =
     bind_act (gets (\<lambda>s. inventory (au_ledger s))) (\<lambda>snapshot.
     if \<not> nc_ready (inv_capabilities snapshot)
     then of_provider (Inl (provider_err ''kernel-daemon'' ''ADAPTER_DEGRADED''
            ''required hardware adapter capability is not ready''))
     else bind_act (port (pt_now P)) (\<lambda>now.
       bind_act (port (pt_now P)) (\<lambda>now'.
       bind_act (ledger (acquire_lease now now' request)) of_provider)))"

definition daemon_renew_lease :: "'w ports \<Rightarrow> string \<Rightarrow> u64 \<Rightarrow> u64 \<Rightarrow> ('w, resource_lease) act" where
  "daemon_renew_lease P name fence_token expires =
     bind_act (port (pt_now P)) (\<lambda>now.
     bind_act (ledger (renew_lease now name fence_token expires)) of_provider)"

definition daemon_begin_release :: "'w ports \<Rightarrow> string \<Rightarrow> u64 \<Rightarrow> ('w, resource_lease) act" where
  "daemon_begin_release P name fence_token =
     bind_act (port (pt_now P)) (\<lambda>now.
     bind_act (ledger (begin_release now name fence_token)) of_provider)"

definition daemon_complete_release :: "string \<Rightarrow> u64 \<Rightarrow> ('w, resource_lease) act" where
  "daemon_complete_release name fence_token =
     bind_act (ledger (complete_release name fence_token)) of_provider"

definition daemon_fail_release :: "string \<Rightarrow> u64 \<Rightarrow> ('w, resource_lease) act" where
  "daemon_fail_release name fence_token =
     bind_act (ledger (fail_release name fence_token)) of_provider"

definition daemon_revoke :: "'w ports \<Rightarrow> string \<Rightarrow> u64 \<Rightarrow> ('w, resource_lease) act" where
  "daemon_revoke P name fence_token =
     bind_act (port (pt_now P)) (\<lambda>now.
     bind_act (ledger (revoke now name fence_token)) of_provider)"

definition daemon_complete_revocation :: "string \<Rightarrow> u64 \<Rightarrow> ('w, resource_lease) act" where
  "daemon_complete_revocation name fence_token =
     bind_act (ledger (complete_revocation name fence_token)) of_provider"

section \<open>Namespaces\<close>

definition validate_context :: "authority_call_context \<Rightarrow> ('w, unit) act" where
  "validate_context ctx = of_rejection (AuthorityCallContext_validate_for ctx ContractRevision_current)"

definition NAMESPACE_DENIED :: rejection where
  "NAMESPACE_DENIED =
     rejection ''NAMESPACE_AUTHORITY_DENIED'' ''authenticated Principal does not own this namespace''"

definition bind_namespace :: "authority_call_context \<Rightarrow> principal \<Rightarrow> ('w, unit) act" where
  "bind_namespace ctx p s =
     (case map_of (au_owners s) (ctx_namespace ctx) of
        None \<Rightarrow>
          (Inr (), s\<lparr>au_owners := bm_insert (ctx_namespace ctx) (principal_identity p) (au_owners s)\<rparr>)
      | Some owner \<Rightarrow>
          if owner = principal_identity p then (Inr (), s) else (Inl (Rejected NAMESPACE_DENIED), s))"

definition require_namespace_owner :: "authority_call_context \<Rightarrow> principal \<Rightarrow> ('w, unit) act" where
  "require_namespace_owner ctx p s =
     (case map_of (au_owners s) (ctx_namespace ctx) of
        Some owner \<Rightarrow>
          if owner \<noteq> principal_identity p then (Inl (Rejected NAMESPACE_DENIED), s) else (Inr (), s)
      | None \<Rightarrow> (Inr (), s))"

section \<open>Names and lookups\<close>

definition release_name :: "authority_call_context \<Rightarrow> string" where
  "release_name ctx = ''lease-'' @ effective_idempotency_key ctx"

definition lease_name :: "authority_call_context \<Rightarrow> identity" where
  "lease_name ctx = Identity (release_name ctx) 1"

definition scoped_runtime_name :: "string \<Rightarrow> object_ref \<Rightarrow> string" where
  "scoped_runtime_name prefix obj =
     (if or_namespace obj = NamespaceId_default then ident_id (or_identity obj)
      else prefix @ ''-n'' @ dec (length (ns_as_str (or_namespace obj))) @ ''-'' @
           ns_as_str (or_namespace obj) @ ''-i'' @ dec (length (ident_id (or_identity obj))) @ ''-'' @
           ident_id (or_identity obj) @ ''-g'' @ show_u64 (ident_generation (or_identity obj)))"

definition lease_internal_name :: "authority_call_context \<Rightarrow> identity \<Rightarrow> string" where
  "lease_internal_name ctx i = scoped_runtime_name ''lease'' (AuthorityCallContext_object_ref ctx i)"

definition lease_for :: "'w ports \<Rightarrow> authority_call_context \<Rightarrow> identity \<Rightarrow> ('w, resource_lease) act" where
  "lease_for P ctx i =
     bind_act (gets (\<lambda>s. map_of (au_leases s) (AuthorityCallContext_object_ref ctx i))) (\<lambda>name.
     case name of
       None \<Rightarrow> reject ''LEASE_NOT_FOUND'' ''lease is unknown in this namespace''
     | Some name \<Rightarrow> daemon_lease P name)"

definition worker_instance_name :: "authority_call_context \<Rightarrow> identity \<Rightarrow> ('w, string) act" where
  "worker_instance_name ctx i =
     bind_act (gets (\<lambda>s. map_of (au_workers s) (AuthorityCallContext_object_ref ctx i))) (\<lambda>name.
     case name of
       Some name \<Rightarrow> ret name
     | None \<Rightarrow>
         if ctx_namespace ctx = NamespaceId_default then ret (ident_id i)
         else reject ''WORKER_NOT_FOUND'' ''worker is not managed by this Kernel'')"

text \<open>The semantic worker stored under an instance name, if any.\<close>

definition worker_of :: "string \<Rightarrow> 'w authority \<Rightarrow> worker option" where
  "worker_of name s = Option.bind (map_of (au_instances s) name) mp_semantic_worker"

definition update_instance :: "string \<Rightarrow> (managed_process \<Rightarrow> managed_process) \<Rightarrow> ('w, unit) act" where
  "update_instance name f = modify (\<lambda>s. s\<lparr>au_instances := bm_update name f (au_instances s)\<rparr>)"

definition set_worker_state :: "worker_state \<Rightarrow> managed_process \<Rightarrow> managed_process" where
  "set_worker_state st p =
     p\<lparr>mp_semantic_worker := map_option (\<lambda>w. w\<lparr>wk_state := st\<rparr>) (mp_semantic_worker p)\<rparr>"

text \<open>\<open>process.actor.stop\<close> on the process stored under a name.\<close>

definition stop_actor ::
    "'w ports \<Rightarrow> stop_request \<Rightarrow> string \<Rightarrow> managed_process \<Rightarrow>
     ('w, provider_error + cleanup_report) act" where
  "stop_actor P request name p s =
     (case InstanceActor_stop (pt_sandbox P) request (mp_actor p) (au_world s) of
        (res, a, w) \<Rightarrow>
          (Inr res,
           s\<lparr>au_instances := bm_update name (\<lambda>q. q\<lparr>mp_actor := a\<rparr>) (au_instances s),
             au_world := w\<rparr>))"

section \<open>Runtime journal\<close>

definition record_runtime ::
    "'w ports \<Rightarrow> runtime_journal_event \<Rightarrow> string option \<Rightarrow> resource_lease option \<Rightarrow> string \<Rightarrow> ('w, unit) act" where
  "record_runtime P event instance_name lease reason_code =
     bind_act
       (port (pt_append P
          \<lparr>jr_event = event, jr_node_id = pt_node_id P, jr_node_epoch = pt_node_epoch P,
           jr_instance_name = instance_name, jr_lease_name = map_option rl_name lease,
           jr_fence_token = map_option rl_fence_token lease, jr_reason_code = reason_code,
           jr_runtime_evidence = None\<rparr>))
       of_provider"

definition record_runtime_launch ::
    "'w ports \<Rightarrow> string \<Rightarrow> resource_lease \<Rightarrow> runtime_process_evidence \<Rightarrow> ('w, unit) act" where
  "record_runtime_launch P instance_name lease evidence =
     bind_act
       (port (pt_append P
          \<lparr>jr_event = InstanceLaunched, jr_node_id = pt_node_id P, jr_node_epoch = pt_node_epoch P,
           jr_instance_name = Some instance_name, jr_lease_name = Some (rl_name lease),
           jr_fence_token = Some (rl_fence_token lease), jr_reason_code = ''WORKER_LAUNCHED'',
           jr_runtime_evidence = Some evidence\<rparr>))
       of_provider"

section \<open>Semantic events\<close>

definition OPERATION_EVENT_HISTORY_CAPACITY :: nat where
  "OPERATION_EVENT_HISTORY_CAPACITY = 256"

definition semantic_event_source_for :: "'w ports \<Rightarrow> namespace_id \<Rightarrow> identity" where
  "semantic_event_source_for P ns =
     Identity
       (if ns = NamespaceId_default then ''kernel/'' @ pt_node_id P
        else ''kernel/'' @ pt_node_id P @ ''/namespace/'' @ ns_as_str ns)
       (pt_node_epoch P)"

fun check_durable ::
    "namespace_id \<Rightarrow> identity \<Rightarrow> u64 option \<Rightarrow> durable_event_record list \<Rightarrow> rejection + event list" where
  "check_durable ns source previous [] = Inr []"
| "check_durable ns source previous (r # rs) =
     (if de_namespace r \<noteq> ns_as_str ns \<or> ev_source (de_event r) \<noteq> source \<or>
         \<not> is_ok (Event_validate (de_event r)) \<or>
         (case previous of None \<Rightarrow> False | Some p \<Rightarrow> ev_sequence (de_event r) \<le> p)
      then Inl (rejection ''EVENT_STORE_INVALID''
             ''durable event history did not match the requested ordered source'')
      else bind_res (check_durable ns source (Some (ev_sequence (de_event r))) rs)
             (\<lambda>es. Inr (de_event r # es)))"

definition in_memory_events :: "namespace_id \<Rightarrow> 'w authority \<Rightarrow> event list" where
  "in_memory_events ns s = (case map_of (au_events s) ns of None \<Rightarrow> [] | Some h \<Rightarrow> eh_events h)"

definition event_history_for :: "'w ports \<Rightarrow> namespace_id \<Rightarrow> identity \<Rightarrow> ('w, event list) act" where
  "event_history_for P ns source =
     bind_act (bind_act (port (pt_events_for_source P source (ns_as_str ns))) of_provider) (\<lambda>durable.
     case durable of
       Some records \<Rightarrow> of_rejection (check_durable ns source None records)
     | None \<Rightarrow> gets (in_memory_events ns))"

definition first_sequence :: "event list \<Rightarrow> u64" where
  "first_sequence es = (case es of [] \<Rightarrow> 0 | e # _ \<Rightarrow> ev_sequence e)"

definition last_sequence :: "event list \<Rightarrow> u64" where
  "last_sequence es = (if es = [] then 0 else ev_sequence (last es))"

definition in_memory_event_range :: "namespace_id \<Rightarrow> 'w authority \<Rightarrow> u64 \<times> u64" where
  "in_memory_event_range ns s =
     (first_sequence (in_memory_events ns s), last_sequence (in_memory_events ns s))"

definition push_event :: "event \<Rightarrow> event list \<Rightarrow> event list" where
  "push_event e es =
     (if length es = OPERATION_EVENT_HISTORY_CAPACITY then tl es else es) @ [e]"

definition put_history :: "namespace_id \<Rightarrow> namespace_event_history \<Rightarrow> ('w, unit) act" where
  "put_history ns h = modify (\<lambda>s. s\<lparr>au_events := bm_insert ns h (au_events s)\<rparr>)"

text \<open>From the history on: draw the sequence, validate, append durably, then show the event.\<close>

definition publish_into ::
    "'w ports \<Rightarrow> namespace_id \<Rightarrow> identity \<Rightarrow> string \<Rightarrow> string \<Rightarrow> u8 list \<Rightarrow>
     namespace_event_history \<Rightarrow> ('w, unit) act" where
  "publish_into P ns subject kind schema_id body h =
     then_act (put_history ns h)
       (case eh_next_sequence h of
          None \<Rightarrow> ret ()
        | Some seq \<Rightarrow>
            bind_act (port (pt_now P)) (\<lambda>now.
            let e = \<lparr>ev_sequence = seq, ev_source = semantic_event_source_for P ns, ev_subject = subject,
                     ev_kind = kind, ev_observed_at_unix_ms = now, ev_schema_id = schema_id,
                     ev_body = body\<rparr>
            in if \<not> is_ok (Event_validate e) then ret ()
               else bind_act (port (pt_append_event P \<lparr>de_namespace = ns_as_str ns, de_event = e\<rparr>))
                 (\<lambda>stored. if \<not> is_ok stored then put_history ns (h\<lparr>eh_next_sequence := None\<rparr>)
                   else put_history ns
                     (h\<lparr>eh_next_sequence := checked_add seq 1, eh_events := push_event e (eh_events h)\<rparr>))))"

definition publish_semantic_event_in ::
    "'w ports \<Rightarrow> namespace_id \<Rightarrow> identity \<Rightarrow> string \<Rightarrow> string \<Rightarrow> u8 list \<Rightarrow> ('w, unit) act" where
  "publish_semantic_event_in P ns subject kind schema_id body =
     bind_act (gets (\<lambda>s. map_of (au_events s) ns)) (\<lambda>history.
     case history of
       Some h \<Rightarrow> publish_into P ns subject kind schema_id body h
     | None \<Rightarrow>
         bind_act (attempt (event_history_for P ns (semantic_event_source_for P ns))) (\<lambda>r.
         case r of
           Inl _ \<Rightarrow> ret ()
         | Inr events \<Rightarrow>
             publish_into P ns subject kind schema_id body
               \<lparr>eh_next_sequence =
                  (if events = [] then Some 1 else checked_add (ev_sequence (last events)) 1),
                eh_events = []\<rparr>))"

definition page :: "identity \<Rightarrow> replay_status \<Rightarrow> event list \<Rightarrow> u64 \<Rightarrow> u64 \<Rightarrow> u64 \<Rightarrow> event_page" where
  "page source status events oldest latest nxt =
     \<lparr>pg_source = source, pg_status = status, pg_events = events,
      pg_oldest_available_sequence = oldest, pg_latest_available_sequence = latest,
      pg_next_sequence = nxt\<rparr>"

definition read_events_page ::
    "'w ports \<Rightarrow> namespace_id \<Rightarrow> event_cursor \<Rightarrow> nat \<Rightarrow> ('w, event_page) act" where
  "read_events_page P ns cursor limit =
     (let source = semantic_event_source_for P ns in
      if cur_source cursor \<noteq> source
      then bind_act (gets (in_memory_event_range ns)) (\<lambda>(oldest, latest).
        ret (page source ReplaySourceChanged [] oldest latest (cur_sequence cursor)))
      else bind_act (gets (\<lambda>s. map_of (au_events s) ns)) (\<lambda>history.
        if (case history of None \<Rightarrow> False | Some h \<Rightarrow> eh_next_sequence h = None)
        then bind_act (gets (in_memory_event_range ns)) (\<lambda>(oldest, latest).
          ret (page source ReplayGap [] oldest latest (cur_sequence cursor)))
        else bind_act (event_history_for P ns source) (\<lambda>events.
          let oldest = first_sequence events; latest = last_sequence events;
              status = EventCursor_status_against cursor source oldest
          in if status \<noteq> ReplayCurrent
             then ret (page source status [] oldest latest (cur_sequence cursor))
             else let es = take limit (filter (\<lambda>e. ev_sequence e > cur_sequence cursor) events)
                  in ret (page source status es oldest latest
                       (if es = [] then cur_sequence cursor else ev_sequence (last es))))))"

fun semantic_operation_event_kind :: "operation_state \<Rightarrow> string" where
  "semantic_operation_event_kind OpCreated = ''operation.created''"
| "semantic_operation_event_kind OpPending = ''operation.pending''"
| "semantic_operation_event_kind OpRunning = ''operation.running''"
| "semantic_operation_event_kind OpSucceeded = ''operation.succeeded''"
| "semantic_operation_event_kind OpFailed = ''operation.failed''"
| "semantic_operation_event_kind OpCancelling = ''operation.cancelling''"
| "semantic_operation_event_kind OpCancelled = ''operation.cancelled''"
| "semantic_operation_event_kind OpLost = ''operation.lost''"

definition publish_operation :: "'w ports \<Rightarrow> namespace_id \<Rightarrow> identity \<Rightarrow> string \<Rightarrow> ('w, unit) act" where
  "publish_operation P ns i kind = publish_semantic_event_in P ns i kind ''cyrene.operation.v1'' []"

definition publish_worker :: "'w ports \<Rightarrow> namespace_id \<Rightarrow> identity \<Rightarrow> string \<Rightarrow> ('w, unit) act" where
  "publish_worker P ns i kind = publish_semantic_event_in P ns i kind ''cyrene.worker.v1'' []"

definition publish_provider :: "'w ports \<Rightarrow> namespace_id \<Rightarrow> identity \<Rightarrow> string \<Rightarrow> ('w, unit) act" where
  "publish_provider P ns i kind = publish_semantic_event_in P ns i kind ''cyrene.provider.v1'' []"

end
