(* ===== verification/Authority_Actions.thy ===== *)
theory Authority_Actions
  imports Authority_State
begin

text \<open>
  The handlers of the Kernel authority: leases, workers, heartbeats, operations, endpoints and
  event reads (\<open>authority/authority_actions.rs\<close>), with the helpers they share in
  \<open>authority.rs\<close>, \<open>daemon.rs\<close> and \<open>convert/worker.rs\<close>.
\<close>

section \<open>Shared helpers\<close>

definition purge_endpoint_authority :: "identity \<Rightarrow> ('w, identity list) act" where
  "purge_endpoint_authority w s =
     (let removed = map (\<lambda>(_, e). ep_identity e) (filter (\<lambda>(_, e). ep_owner e = w) (au_endpoints s))
      in (Inr removed,
          s\<lparr>au_endpoints := bm_retain (\<lambda>_ e. ep_owner e \<noteq> w) (au_endpoints s),
            au_grants :=
              bm_retain (\<lambda>_ g. grant_endpoint g \<notin> set removed \<and> grant_grantee g \<noteq> w) (au_grants s)\<rparr>))"

definition remember_operation :: "'w ports \<Rightarrow> authority_call_context \<Rightarrow> operation \<Rightarrow> ('w, operation) act" where
  "remember_operation P ctx op =
     then_act (modify (\<lambda>s. s\<lparr>au_operations :=
         bm_insert (AuthorityCallContext_object_ref ctx (op_identity op)) op (au_operations s)\<rparr>))
    (then_act (publish_operation P (ctx_namespace ctx) (op_identity op)
                 (semantic_operation_event_kind (op_state op)))
     (ret op))"

definition lease_expired :: "resource_lease \<Rightarrow> u64 \<Rightarrow> bool" where
  "lease_expired l now \<longleftrightarrow> (case rl_expires_at_unix_ms l of None \<Rightarrow> False | Some e \<Rightarrow> e \<le> now)"

text \<open>
  \<open>x || expiry.is_some_and(.. now ..)\<close>: the clock is read only when the earlier disjuncts are
  false and the lease has an expiry.
\<close>

definition or_expired :: "'w ports \<Rightarrow> bool \<Rightarrow> resource_lease \<Rightarrow> ('w, bool) act" where
  "or_expired P c l =
     (if c then ret True
      else case rl_expires_at_unix_ms l of
        None \<Rightarrow> ret False
      | Some _ \<Rightarrow> bind_act (port (pt_now P)) (\<lambda>now. ret (lease_expired l now)))"

section \<open>Leases\<close>

fun best_minor :: "contract_revision list \<Rightarrow> contract_revision option" where
  "best_minor [] = None"
| "best_minor (r # rs) =
     (case best_minor rs of
        None \<Rightarrow> Some r
      | Some b \<Rightarrow> if rev_minor r > rev_minor b then Some r else Some b)"

definition Authority_negotiate :: "contract_revision list \<Rightarrow> rejection + contract_revision" where
  "Authority_negotiate offered =
     ok_or (best_minor (List.map_filter (negotiate ContractRevision_current) offered))
       (rejection ''CONTRACT_INCOMPATIBLE''
          ''no offered semantic contract revision is compatible with this Kernel'')"

definition Authority_acquire_lease ::
    "'w ports \<Rightarrow> authority_call_context \<Rightarrow> principal \<Rightarrow> identity \<Rightarrow> resource_query \<Rightarrow> u64 \<Rightarrow> ('w, lease) act" where
  "Authority_acquire_lease P ctx p holder query expires =
     then_act (validate_context ctx)
    (then_act (bind_namespace ctx p)
    (bind_act (port (pt_now P)) (\<lambda>now.
     then_act (guard (\<not> expires \<le> now) ''LEASE_EXPIRY_INVALID'' ''lease expiry must be in the future'')
    (let obj = AuthorityCallContext_object_ref ctx (lease_name ctx) in
     bind_act (gets (\<lambda>s. inv_generation (inventory (au_ledger s)))) (\<lambda>generation.
     bind_act (daemon_acquire_lease P
        \<lparr>rr_lease_name = lease_internal_name ctx (or_identity obj),
         rr_expected_inventory_generation = generation, rr_holder = holder, rr_query = query,
         rr_expires_at_unix_ms = Some expires,
         rr_limits = \<lparr>cl_cpu_max_millicores = None, cl_memory_max_bytes = None, cl_cpuset_cpus = None\<rparr>\<rparr>)
      (\<lambda>l.
     bind_act (attempt (record_runtime P LeaseAcquired None (Some l) ''LEASE_ACQUIRED'')) (\<lambda>recorded.
     case recorded of
       Inl e \<Rightarrow>
         then_act (attempt (daemon_begin_release P (rl_name l) (rl_fence_token l)))
        (then_act (attempt (daemon_complete_release (rl_name l) (rl_fence_token l)))
         (of_rejection (Inl e)))
     | Inr _ \<Rightarrow>
         then_act (modify (\<lambda>s. s\<lparr>au_leases := bm_insert obj (rl_name l) (au_leases s)\<rparr>))
         (ret (semantic_lease obj l)))))))))"

definition Authority_renew_lease ::
    "'w ports \<Rightarrow> authority_call_context \<Rightarrow> principal \<Rightarrow> identity \<Rightarrow> u64 \<Rightarrow> u64 \<Rightarrow> ('w, lease) act" where
  "Authority_renew_lease P ctx p i fence_token expires =
     then_act (validate_context ctx)
    (then_act (require_namespace_owner ctx p)
    (bind_act (lease_for P ctx i) (\<lambda>current.
     then_act (guard (rl_generation current = ident_generation i) ''LEASE_GENERATION_STALE''
                 ''lease generation no longer has authority'')
    (bind_act (daemon_renew_lease P (rl_name current) fence_token expires) (\<lambda>l.
     ret (semantic_lease (AuthorityCallContext_object_ref ctx i) l))))))"

definition holds_lease :: "string \<Rightarrow> u64 \<Rightarrow> managed_process \<Rightarrow> bool" where
  "holds_lease name fence_token p \<longleftrightarrow> mp_lease p = Some (name, fence_token)"

definition fail_then_reject :: "string \<Rightarrow> u64 \<Rightarrow> rejection \<Rightarrow> ('w, 'a) act" where
  "fail_then_reject name fence_token e =
     then_act (attempt (daemon_fail_release name fence_token)) (of_rejection (Inl e))"

text \<open>The block of \<open>release_with_cleanup\<close> that stops the process holding the lease.\<close>

definition stop_holder ::
    "'w ports \<Rightarrow> string \<Rightarrow> u64 \<Rightarrow> resource_lease \<Rightarrow> bool \<Rightarrow> ('w, string option \<times> string) act" where
  "stop_holder P name fence_token releasing retrying =
     bind_act (gets (\<lambda>s. find (\<lambda>(_, p). holds_lease name fence_token p) (au_instances s))) (\<lambda>found.
     case found of
       None \<Rightarrow>
         if retrying
         then fail_then_reject (rl_name releasing) fence_token
                (rejection ''CLEANUP_INCOMPLETE''
                   ''a failed lease has no managed actor to prove physical cleanup'')
         else ret (None, [])
     | Some (worker_id, p) \<Rightarrow>
         then_act (update_instance worker_id (set_worker_state WkDraining))
        (bind_act (stop_actor P \<lparr>sr_grace_period = pt_graceful_stop P, sr_immediate = False\<rparr> worker_id p)
          (\<lambda>res.
         case res of
           Inr report \<Rightarrow>
             if \<not> cr_complete report
             then then_act (update_instance worker_id (set_worker_state WkFailed))
                 (then_act (attempt (daemon_fail_release (rl_name releasing) fence_token))
                 (then_act (attempt (record_runtime P InstanceCleanupFailed (Some worker_id)
                              (Some releasing) (cr_reason_code report)))
                  (reject ''CLEANUP_INCOMPLETE'' (cr_reason_code report))))
             else then_act (update_instance worker_id (set_worker_state WkStopped))
                 (ret (Some worker_id,
                    (case mp_semantic_worker p of
                       Some w \<Rightarrow> ident_id (wk_identity w) | None \<Rightarrow> worker_id)))
         | Inl e \<Rightarrow> fail_then_reject (rl_name releasing) fence_token (provider_rejection e))))"

definition release_with_cleanup ::
    "'w ports \<Rightarrow> authority_call_context \<Rightarrow> identity \<Rightarrow> u64 \<Rightarrow> ('w, lease) act" where
  "release_with_cleanup P ctx i fence_token =
     bind_act (lease_for P ctx i) (\<lambda>current.
     then_act (guard (rl_generation current = ident_generation i) ''STALE_GENERATION''
                 ''lease generation no longer has authority'')
    (then_act (record_runtime P LeaseReleaseStarted None (Some current) ''LEASE_RELEASE_STARTED'')
    (bind_act (daemon_begin_release P (rl_name current) fence_token) (\<lambda>releasing.
     bind_act (stop_holder P (rl_name current) fence_token releasing (rl_state current = LFailed))
      (\<lambda>(worker_id, journal_instance_name).
     then_act (if worker_id \<noteq> None
               then record_runtime P InstanceTerminated (Some journal_instance_name) (Some releasing)
                      ''CLEANUP_COMPLETE''
               else ret ())
    (then_act (record_runtime P JLeaseReleased worker_id (Some releasing) ''LEASE_RELEASED'')
    (bind_act (daemon_complete_release (rl_name current) fence_token) (\<lambda>released.
     then_act (purge_endpoint_authority (rl_holder current))
     (ret (semantic_lease (AuthorityCallContext_object_ref ctx i) released))))))))))"

definition Authority_release_lease ::
    "'w ports \<Rightarrow> authority_call_context \<Rightarrow> principal \<Rightarrow> identity \<Rightarrow> u64 \<Rightarrow> ('w, lease) act" where
  "Authority_release_lease P ctx p i fence_token =
     then_act (validate_context ctx)
    (then_act (require_namespace_owner ctx p)
     (release_with_cleanup P ctx i fence_token))"

section \<open>Launching workers\<close>

fun bindings_for ::
    "'w ports \<Rightarrow> inventory_snapshot \<Rightarrow> resource_allocation list \<Rightarrow> ('w, device_binding list) act" where
  "bindings_for P snapshot [] = ret []"
| "bindings_for P snapshot (a # as) =
     (case find (\<lambda>r. res_identity r = alloc_resource a) (inv_resources snapshot) of
        None \<Rightarrow>
          of_provider (Inl (provider_err ''kernel-daemon'' ''LEASE_RESOURCE_NOT_IN_INVENTORY''
            (ident_id (alloc_resource a))))
      | Some r \<Rightarrow>
          bind_act (bind_act (port (pt_create_binding P r 0)) of_provider) (\<lambda>b.
          bind_act (bindings_for P snapshot as) (\<lambda>bs. ret (b # bs))))"

definition binding_for_lease :: "'w ports \<Rightarrow> resource_lease \<Rightarrow> ('w, device_binding) act" where
  "binding_for_lease P l =
     bind_act (bind_act (port (pt_probe_inventory P)) of_provider) (\<lambda>snapshot.
     bind_act (bindings_for P snapshot (rl_allocations l)) (\<lambda>bindings.
     of_provider (merge_all bindings)))"

definition has_isolation_proof :: "node_capabilities \<Rightarrow> bool" where
  "has_isolation_proof c =
     list_ex (\<lambda>f. fact_name f = ''device-bpf-capable'' \<and> fact_required f \<and> fact_available f) (nc_facts c)"

definition preflight_binding :: "'w ports \<Rightarrow> device_binding \<Rightarrow> ('w, unit) act" where
  "preflight_binding P b =
     bind_act (port (pt_preflight_for_binding P b)) (\<lambda>c.
     let hard = (db_enforcement b = Hard) in
     if nc_ready c \<and> (\<not> hard \<or> has_isolation_proof c) then ret ()
     else of_provider (Inl (provider_err (pt_backend_id P) ''BINDING_PREFLIGHT_FAILED''
       (case find (\<lambda>f. fact_required f \<and> \<not> fact_available f) (nc_facts c) of
          Some f \<Rightarrow> fact_name f @ '': '' @ fact_detail f
        | None \<Rightarrow>
            if hard \<and> \<not> has_isolation_proof c
            then ''HARD binding requires an available required device-bpf-capable fact''
            else ''required sandbox capabilities are unavailable''))))"

definition limit_unsupported :: "string \<Rightarrow> rejection" where
  "limit_unsupported name =
     rejection ''WORKER_LIMIT_UNSUPPORTED'' (''unsupported Worker limit or unit: '' @ name)"

definition enforce_limit :: "cgroup_limits \<Rightarrow> string \<times> quantity \<Rightarrow> rejection + cgroup_limits" where
  "enforce_limit limits entry =
     (let name = fst entry; quantity = snd entry in
      if q_value quantity = 0 then Inl (limit_unsupported name)
      else if name = ''memory.bytes'' \<and> q_unit quantity = ''byte''
      then Inr (limits\<lparr>cl_memory_max_bytes :=
             Some (case cl_memory_max_bytes limits of
                     None \<Rightarrow> q_value quantity | Some v \<Rightarrow> min v (q_value quantity))\<rparr>)
      else if name = ''cpu.time'' \<and> q_unit quantity = ''millicore''
      then (if unat (q_value quantity) \<ge> 2 ^ 32 then Inl (limit_unsupported name)
            else let v = (ucast (q_value quantity) :: u32)
                 in Inr (limits\<lparr>cl_cpu_max_millicores :=
                      Some (case cl_cpu_max_millicores limits of None \<Rightarrow> v | Some c \<Rightarrow> min c v)\<rparr>))
      else Inl (limit_unsupported name))"

definition enforced_worker_limits ::
    "cgroup_limits \<Rightarrow> (string, quantity) btree_map \<Rightarrow> rejection + cgroup_limits" where
  "enforced_worker_limits lease requested = fold_res enforce_limit lease requested"

definition injected_environment :: "'w ports \<Rightarrow> string \<Rightarrow> u64 \<Rightarrow> (string \<times> string) list" where
  "injected_environment P instance_name generation =
     [(''CYRENE_HEARTBEAT_SOCKET'', pt_heartbeat_socket P),
      (''CYRENE_WORKER_CONTROL_SOCKET'', pt_heartbeat_socket P),
      (''CYRENE_PLUGIN_INSTANCE_NAME'', instance_name),
      (''CYRENE_PLUGIN_INSTANCE_GENERATION'', show_u64 generation),
      (''CYRENE_HEARTBEAT_INTERVAL_MS'', dec (pt_heartbeat_interval P div 10 ^ 6))]"

definition inject_heartbeat_environment ::
    "'w ports \<Rightarrow> string \<Rightarrow> u64 \<Rightarrow> (string, string) btree_map \<Rightarrow>
     provider_error + (string, string) btree_map" where
  "inject_heartbeat_environment P instance_name generation environment =
     (let injected = injected_environment P instance_name generation in
      if list_ex (\<lambda>(key, _). bm_contains environment key) injected
      then Inl (provider_err ''kernel-daemon'' ''RESERVED_HEARTBEAT_ENVIRONMENT''
             ''installation record attempted to override Kernel heartbeat configuration'')
      else Inr (bm_extend environment injected))"

definition IMMEDIATE_STOP :: stop_request where
  "IMMEDIATE_STOP = \<lparr>sr_grace_period = 0, sr_immediate = True\<rparr>"

text \<open>A spawned process that cannot be recorded is stopped; a failed cleanup leaves a record.\<close>

definition reap_unrecorded ::
    "'w ports \<Rightarrow> string \<Rightarrow> resource_lease \<Rightarrow> instance_actor \<Rightarrow> rejection \<Rightarrow> ('w, 'a) act" where
  "reap_unrecorded P worker_id l a e =
     bind_act (port (\<lambda>w. case InstanceActor_stop (pt_sandbox P) IMMEDIATE_STOP a w of (res, _, w') \<Rightarrow> (res, w')))
      (\<lambda>stopped.
     then_act
       (case stopped of
          Inr report \<Rightarrow>
            if \<not> cr_complete report
            then then_act (attempt (record_runtime P InstanceCleanupFailed (Some worker_id) (Some l)
                              (cr_reason_code report))) (ret ())
            else ret ()
        | Inl _ \<Rightarrow> ret ())
       (of_rejection (Inl e)))"

definition new_process :: "instance_actor \<Rightarrow> resource_lease \<Rightarrow> worker \<Rightarrow> managed_process" where
  "new_process a l w =
     \<lparr>mp_actor = a, mp_lease = Some (rl_name l, rl_fence_token l), mp_semantic_worker = Some w,
      mp_generation = rl_fence_token l, mp_accepted_sequence = 0, mp_last_heartbeat_at = None,
      mp_restart_count = 0, mp_watchdog_triggered = False, mp_transport_disconnected = False,
      mp_control = None, mp_semantic_control = None, mp_pending_shutdown = None\<rparr>"

definition worker_operation :: "string \<Rightarrow> string \<Rightarrow> operation_state \<Rightarrow> worker \<Rightarrow> operation" where
  "worker_operation prefix kind st w =
     \<lparr>op_identity = Identity (prefix @ ident_id (wk_identity w)) (ident_generation (wk_identity w)),
      op_owner = wk_principal w, op_executor = wk_provider w, op_kind = kind, op_state = st,
      op_deadline_unix_ms = None, op_parent = None,
      op_metadata = [(''worker.id'', ident_id (wk_identity w))]\<rparr>"

text \<open>The launch itself, from the durable intent to the visible worker.\<close>

definition launch_worker ::
    "'w ports \<Rightarrow> authority_call_context \<Rightarrow> worker \<Rightarrow> resource_lease \<Rightarrow> string \<Rightarrow> instance_actor \<Rightarrow>
     ('w, operation) act" where
  "launch_worker P ctx w l instance_name a =
     (let worker_id = ident_id (wk_identity w) in
     then_act (record_runtime P InstanceLaunching (Some worker_id) (Some l) ''WORKER_LAUNCHING'')
    (bind_act (port (pt_instant P)) (\<lambda>now.
     bind_act (port (\<lambda>wd. case InstanceActor_start (pt_sandbox P) now a wd of (res, b, wd') \<Rightarrow> ((res, b), wd')))
      (\<lambda>(started, b).
     then_act (of_provider started)
     (case actor_recovery_evidence b of
        Inl e \<Rightarrow> reap_unrecorded P worker_id l b (provider_rejection e)
      | Inr evidence \<Rightarrow>
          bind_act (attempt (record_runtime_launch P worker_id l evidence)) (\<lambda>recorded.
          case recorded of
            Inl e \<Rightarrow> reap_unrecorded P worker_id l b e
          | Inr _ \<Rightarrow>
              let w' = w\<lparr>wk_state := WkStarting\<rparr> in
              then_act (modify (\<lambda>s. s\<lparr>
                  au_instances := bm_insert instance_name (new_process b l w') (au_instances s),
                  au_workers := bm_insert (AuthorityCallContext_object_ref ctx (wk_identity w)) instance_name
                    (au_workers s)\<rparr>))
             (then_act (publish_worker P (ctx_namespace ctx) (wk_identity w) ''worker.starting'')
              (remember_operation P ctx
                 (worker_operation ''operation/start/'' ''worker.start'' OpRunning w')))))))))"

definition Authority_start_worker ::
    "'w ports \<Rightarrow> authority_call_context \<Rightarrow> principal \<Rightarrow> worker \<Rightarrow> ('w, operation) act" where
  "Authority_start_worker P ctx p w0 =
     then_act (validate_context ctx)
    (then_act (require_namespace_owner ctx p)
    (let w = w0\<lparr>wk_principal := principal_identity p\<rparr>;
         obj = AuthorityCallContext_object_ref ctx (wk_identity w) in
     then_act (guard (wk_state w = WkRegistered \<or> wk_state w = WkStarting) ''STATE_TRANSITION_INVALID''
                 ''StartWorker requires REGISTERED or STARTING state'')
    (bind_act (gets (\<lambda>s. bm_contains (au_workers s) obj)) (\<lambda>known.
     then_act (guard (\<not> known) ''WORKER_EXISTS'' ''worker identity is already managed by this Kernel'')
    (bind_act (lease_for P ctx (wk_lease w)) (\<lambda>l.
     bind_act (or_expired P (rl_generation l \<noteq> ident_generation (wk_lease w) \<or>
                 rl_holder l \<noteq> wk_identity w \<or> rl_state l \<noteq> LActive) l) (\<lambda>inactive.
     then_act (guard (\<not> inactive) ''LEASE_NOT_ACTIVE''
                 ''worker does not hold the referenced active Lease incarnation'')
    (bind_act (binding_for_lease P l) (\<lambda>binding.
     then_act (preflight_binding P binding)
    (bind_act (bind_act (port (pt_resolve_worker P w)) of_provider) (\<lambda>plan.
     then_act (guard (lp_instance_name plan = ident_id (wk_identity w)) ''EXECUTION_REFERENCE_MISMATCH''
                 ''resolver returned a plan for another Worker identity'')
    (let instance_name = scoped_runtime_name ''worker'' obj in
     bind_act (of_rejection (enforced_worker_limits (rl_limits l) (wk_limits w))) (\<lambda>limits.
     bind_act (of_provider (inject_heartbeat_environment P instance_name (rl_fence_token l)
                 (lp_environment plan))) (\<lambda>environment.
     then_act (of_provider (merge_environment binding environment))
     (launch_worker P ctx w l instance_name
        (InstanceActor_new instance_name (rl_name l) (rl_fence_token l)
           (plan\<lparr>lp_instance_name := instance_name, lp_limits := limits, lp_environment := environment\<rparr>)
           binding (pt_heartbeat_timeout P)))))))))))))))))"

section \<open>Stopping workers and heartbeats\<close>

text \<open>The block of \<open>stop_worker\<close> that drains and stops the named process.\<close>

definition stop_named_worker ::
    "'w ports \<Rightarrow> string \<Rightarrow> identity \<Rightarrow> identity \<Rightarrow> u64 \<Rightarrow> nat \<Rightarrow> resource_lease \<Rightarrow>
     ('w, worker \<times> cleanup_report) act" where
  "stop_named_worker P worker_name worker_ident lease_ident fence_token grace releasing =
     bind_act (gets (\<lambda>s. map_of (au_instances s) worker_name)) (\<lambda>found.
     case found of
       None \<Rightarrow> fail_then_reject (rl_name releasing) fence_token
                 (rejection ''WORKER_NOT_FOUND'' ''worker is not managed by this Kernel'')
     | Some p \<Rightarrow>
         (case mp_semantic_worker p of
            None \<Rightarrow> fail_then_reject (rl_name releasing) fence_token
                      (rejection ''WORKER_COMPATIBILITY_ONLY'' ''legacy plugin process is not a semantic Worker'')
          | Some w \<Rightarrow>
              if wk_identity w \<noteq> worker_ident \<or> wk_lease w \<noteq> lease_ident
              then fail_then_reject (rl_name releasing) fence_token
                     (rejection ''STALE_GENERATION'' ''worker identity or lease generation is stale'')
              else
                then_act (update_instance worker_name (set_worker_state WkDraining))
               (bind_act (stop_actor P \<lparr>sr_grace_period = grace, sr_immediate = False\<rparr> worker_name p) (\<lambda>res.
                case res of
                  Inl e \<Rightarrow> fail_then_reject (rl_name releasing) fence_token (provider_rejection e)
                | Inr report \<Rightarrow>
                    let st = (if cr_complete report then WkStopped else WkFailed) in
                    then_act (update_instance worker_name (set_worker_state st))
                    (ret (w\<lparr>wk_state := st\<rparr>, report))))))"

definition Authority_stop_worker ::
    "'w ports \<Rightarrow> authority_call_context \<Rightarrow> principal \<Rightarrow> identity \<Rightarrow> identity \<Rightarrow> u64 \<Rightarrow> nat \<Rightarrow> ('w, operation) act" where
  "Authority_stop_worker P ctx p worker_ident lease_ident fence_token grace =
     then_act (validate_context ctx)
    (then_act (require_namespace_owner ctx p)
    (bind_act (lease_for P ctx lease_ident) (\<lambda>l.
     bind_act (worker_instance_name ctx worker_ident) (\<lambda>worker_name.
     then_act (guard (rl_generation l = ident_generation lease_ident \<and> rl_fence_token l = fence_token \<and>
                 rl_holder l = worker_ident \<and> rl_state l = LActive) ''FENCE_MISMATCH''
                 ''worker stop no longer has active lease authority'')
    (then_act (record_runtime P LeaseReleaseStarted (Some (ident_id worker_ident)) (Some l)
                 ''LEASE_RELEASE_STARTED'')
    (bind_act (daemon_begin_release P (rl_name l) fence_token) (\<lambda>releasing.
     bind_act (stop_named_worker P worker_name worker_ident lease_ident fence_token grace releasing)
      (\<lambda>(w, report).
     then_act
       (if cr_complete report then
          then_act (record_runtime P InstanceTerminated (Some (ident_id worker_ident)) (Some releasing)
                      (cr_reason_code report))
         (then_act (record_runtime P JLeaseReleased (Some (ident_id worker_ident)) (Some releasing)
                      ''LEASE_RELEASED'')
         (then_act (daemon_complete_release (rl_name l) fence_token)
         (then_act (purge_endpoint_authority worker_ident) (ret ()))))
        else
          then_act (attempt (daemon_fail_release (rl_name releasing) fence_token))
         (then_act (attempt (record_runtime P InstanceCleanupFailed (Some (ident_id worker_ident))
                      (Some releasing) (cr_reason_code report))) (ret ())))
    (then_act (publish_worker P (ctx_namespace ctx) (wk_identity w)
                 (if cr_complete report then ''worker.stopped'' else ''worker.failed''))
     (remember_operation P ctx
        (worker_operation ''operation/stop/'' ''worker.stop''
           (if cr_complete report then OpSucceeded else OpFailed) w)))))))))))"

text \<open>The mutation both heartbeat paths perform on a stored worker.\<close>

definition beat_worker :: "'w ports \<Rightarrow> string \<Rightarrow> worker \<Rightarrow> ('w, worker) act" where
  "beat_worker P worker_name w =
     then_act (guard (WorkerState_can_transition_to (wk_state w) WkRunning) ''STATE_TRANSITION_INVALID''
                 ''worker cannot enter RUNNING from its current state'')
    (bind_act (port (pt_instant P)) (\<lambda>instant.
     bind_act (port (pt_now P)) (\<lambda>timestamp.
     then_act (update_instance worker_name (\<lambda>p. (set_worker_state WkRunning p)\<lparr>
         mp_actor := snd (on_heartbeat_received instant (mp_actor p)),
         mp_last_heartbeat_at := Some timestamp\<rparr>))
     (ret (w\<lparr>wk_state := WkRunning\<rparr>)))))"

definition stored_worker :: "string \<Rightarrow> string \<Rightarrow> ('w, worker) act" where
  "stored_worker worker_name legacy_message =
     bind_act (gets (\<lambda>s. map_of (au_instances s) worker_name)) (\<lambda>found.
     case found of
       None \<Rightarrow> reject ''WORKER_NOT_FOUND'' ''worker is not managed by this Kernel''
     | Some p \<Rightarrow>
         (case mp_semantic_worker p of
            None \<Rightarrow> reject ''WORKER_COMPATIBILITY_ONLY'' legacy_message
          | Some w \<Rightarrow> ret w))"

definition Authority_report_heartbeat ::
    "'w ports \<Rightarrow> authority_call_context \<Rightarrow> principal \<Rightarrow> identity \<Rightarrow> identity \<Rightarrow> u64 \<Rightarrow> ('w, worker) act" where
  "Authority_report_heartbeat P ctx p worker_ident lease_ident fence_token =
     then_act (validate_context ctx)
    (then_act (require_namespace_owner ctx p)
    (bind_act (lease_for P ctx lease_ident) (\<lambda>l.
     bind_act (or_expired P (rl_generation l \<noteq> ident_generation lease_ident \<or>
                 rl_fence_token l \<noteq> fence_token \<or> rl_holder l \<noteq> worker_ident \<or> rl_state l \<noteq> LActive) l)
      (\<lambda>stale.
     then_act (guard (\<not> stale) ''FENCE_MISMATCH'' ''worker heartbeat no longer has active lease authority'')
    (bind_act (worker_instance_name ctx worker_ident) (\<lambda>worker_name.
     bind_act (stored_worker worker_name ''legacy plugin process is not a semantic Worker'') (\<lambda>w.
     then_act (guard (wk_identity w = worker_ident \<and> wk_lease w = lease_ident) ''STALE_GENERATION''
                 ''worker identity or lease generation is stale'')
    (bind_act (beat_worker P worker_name w) (\<lambda>w'.
     then_act (publish_worker P (ctx_namespace ctx) (wk_identity w') ''worker.running'')
     (ret w'))))))))))"

definition verify_worker_control ::
    "'w ports \<Rightarrow> authority_call_context \<Rightarrow> identity \<Rightarrow> identity \<Rightarrow> u64 \<Rightarrow> ('w, worker) act" where
  "verify_worker_control P ctx worker_ident lease_ident fence_token =
     then_act (validate_context ctx)
    (bind_act (lease_for P ctx lease_ident) (\<lambda>l.
     then_act (guard (rl_generation l = ident_generation lease_ident \<and> rl_fence_token l = fence_token \<and>
                 rl_holder l = worker_ident \<and> rl_state l = LActive) ''FENCE_MISMATCH''
                 ''worker control no longer has active lease authority'')
    (bind_act (worker_instance_name ctx worker_ident) (\<lambda>worker_name.
     bind_act (stored_worker worker_name ''legacy plugin process cannot use semantic Worker control'') (\<lambda>w.
     then_act (guard (wk_identity w = worker_ident \<and> wk_lease w = lease_ident) ''STALE_GENERATION''
                 ''worker identity or lease generation is stale'')
     (ret w))))))"

definition accept_worker_control_heartbeat ::
    "'w ports \<Rightarrow> authority_call_context \<Rightarrow> identity \<Rightarrow> identity \<Rightarrow> u64 \<Rightarrow> ('w, worker) act" where
  "accept_worker_control_heartbeat P ctx worker_ident lease_ident fence_token =
     then_act (verify_worker_control P ctx worker_ident lease_ident fence_token)
    (bind_act (worker_instance_name ctx worker_ident) (\<lambda>worker_name.
     bind_act (stored_worker worker_name ''legacy plugin process cannot use semantic Worker control'') (\<lambda>w.
     bind_act (beat_worker P worker_name w) (\<lambda>w'.
     then_act (publish_worker P (ctx_namespace ctx) (wk_identity w') ''worker.running'')
     (ret w')))))"

section \<open>Operations\<close>

definition put_operation :: "authority_call_context \<Rightarrow> operation \<Rightarrow> ('w, unit) act" where
  "put_operation ctx op =
     modify (\<lambda>s. s\<lparr>au_operations :=
       bm_insert (AuthorityCallContext_object_ref ctx (op_identity op)) op (au_operations s)\<rparr>)"

definition newer_operation :: "authority_call_context \<Rightarrow> identity \<Rightarrow> 'w authority \<Rightarrow> bool" where
  "newer_operation ctx i s =
     list_ex (\<lambda>(obj, existing). or_namespace obj = ctx_namespace ctx \<and>
       ident_id (op_identity existing) = ident_id i \<and>
       ident_generation (op_identity existing) > ident_generation i) (au_operations s)"

definition Authority_create_operation ::
    "'w ports \<Rightarrow> authority_call_context \<Rightarrow> principal \<Rightarrow> operation \<Rightarrow> ('w, operation) act" where
  "Authority_create_operation P ctx p op =
     then_act (validate_context ctx)
    (then_act (bind_namespace ctx p)
    (then_act (guard (op_state op = OpCreated) ''STATE_TRANSITION_INVALID''
                 ''CreateOperation requires CREATED state'')
    (bind_act (gets (\<lambda>s. map_of (au_operations s) (AuthorityCallContext_object_ref ctx (op_identity op))))
      (\<lambda>existing.
     case existing of
       Some e \<Rightarrow>
         if e = op then ret e
         else reject ''OPERATION_EXISTS'' ''an operation with this identity already exists''
     | None \<Rightarrow>
         bind_act (gets (newer_operation ctx (op_identity op))) (\<lambda>stale.
         then_act (guard (\<not> stale) ''STALE_GENERATION'' ''operation identity generation is stale'')
        (then_act (put_operation ctx op)
        (then_act (publish_operation P (ctx_namespace ctx) (op_identity op) ''operation.created'')
         (ret op))))))))"

definition stored_operation :: "authority_call_context \<Rightarrow> identity \<Rightarrow> ('w, operation) act" where
  "stored_operation ctx i =
     bind_act (gets (\<lambda>s. map_of (au_operations s) (AuthorityCallContext_object_ref ctx i))) (\<lambda>found.
     case found of
       None \<Rightarrow> reject ''OPERATION_NOT_FOUND'' ''operation is unknown''
     | Some op \<Rightarrow> ret op)"

definition Authority_report_operation ::
    "'w ports \<Rightarrow> authority_call_context \<Rightarrow> principal \<Rightarrow> operation \<Rightarrow> ('w, operation) act" where
  "Authority_report_operation P ctx p reported =
     then_act (validate_context ctx)
    (then_act (require_namespace_owner ctx p)
    (bind_act (stored_operation ctx (op_identity reported)) (\<lambda>current.
     then_act (guard (op_owner current = op_owner reported \<and> op_executor current = op_executor reported \<and>
                 op_kind current = op_kind reported \<and>
                 op_deadline_unix_ms current = op_deadline_unix_ms reported \<and>
                 op_parent current = op_parent reported) ''OPERATION_IMMUTABLE_FIELDS_CHANGED''
                 ''operation report attempted to change immutable authority fields'')
    (then_act (guard (OperationState_can_transition_to (op_state current) (op_state reported))
                 ''STATE_TRANSITION_INVALID'' ''operation report is not an idempotent or forward transition'')
    (then_act (put_operation ctx reported)
    (then_act (publish_operation P (ctx_namespace ctx) (op_identity reported)
                 (semantic_operation_event_kind (op_state reported)))
     (ret reported)))))))"

definition mark_cancelling_operation_lost ::
    "'w ports \<Rightarrow> authority_call_context \<Rightarrow> identity \<Rightarrow> ('w, operation) act" where
  "mark_cancelling_operation_lost P ctx i =
     (let obj = AuthorityCallContext_object_ref ctx i in
     bind_act (gets (\<lambda>s. map_of (au_operations s) obj)) (\<lambda>found.
     case found of
       None \<Rightarrow> panic ''operation was checked before cancellation delivery''
     | Some op \<Rightarrow>
         let op' = (if op_state op = OpCancelling then op\<lparr>op_state := OpLost\<rparr> else op) in
         then_act (modify (\<lambda>s. s\<lparr>au_operations := bm_update obj (\<lambda>_. op') (au_operations s)\<rparr>))
        (then_act (if op_state op' = OpLost
                   then publish_operation P (ctx_namespace ctx) (op_identity op') ''operation.lost''
                   else ret ())
         (ret op'))))"

text \<open>
  The request to the executor. A delivered request starts a timer that later runs
  \<open>mark_cancelling_operation_lost\<close> as a step of its own; the flag tells whether it was started.
\<close>

definition deliver_cancel :: "'w ports \<Rightarrow> operation \<Rightarrow> ('w, bool) act" where
  "deliver_cancel P op =
     bind_act (gets (\<lambda>s. find (\<lambda>(_, p). case mp_semantic_worker p of
         None \<Rightarrow> False | Some w \<Rightarrow> op_executor op = wk_identity w) (au_instances s))) (\<lambda>found.
     case found of
       None \<Rightarrow> ret False
     | Some (name, p) \<Rightarrow>
         bind_act (port (pt_cancel_channel P)) (\<lambda>(cancel_id, send_error).
         let (res, a) = request_cancel cancel_id send_error (ident_id (op_identity op)) (mp_actor p) in
         then_act (update_instance name (\<lambda>p. p\<lparr>mp_actor := a\<rparr>)) (ret (is_ok res))))"

definition Authority_cancel_operation ::
    "'w ports \<Rightarrow> authority_call_context \<Rightarrow> principal \<Rightarrow> identity \<Rightarrow> ('w, operation) act" where
  "Authority_cancel_operation P ctx p i =
     then_act (validate_context ctx)
    (then_act (require_namespace_owner ctx p)
    (bind_act (stored_operation ctx i) (\<lambda>current.
     if op_state current = OpCancelling \<or> op_state current = OpCancelled then ret current
     else
       then_act (guard (OperationState_can_transition_to (op_state current) OpCancelling)
                   ''STATE_TRANSITION_INVALID'' ''operation cannot be cancelled from its current state'')
      (let cancelling = current\<lparr>op_state := OpCancelling\<rparr> in
       then_act (modify (\<lambda>s. s\<lparr>au_operations :=
           bm_insert (AuthorityCallContext_object_ref ctx i) cancelling (au_operations s)\<rparr>))
      (then_act (publish_operation P (ctx_namespace ctx) (op_identity cancelling)
                   (semantic_operation_event_kind OpCancelling))
      (bind_act (deliver_cancel P cancelling) (\<lambda>delivered.
       if delivered then ret cancelling
       else mark_cancelling_operation_lost P ctx (op_identity cancelling))))))))"

section \<open>Endpoints and grants\<close>

text \<open>The owner of an endpoint: the worker stored under its name, with that very identity.\<close>

definition endpoint_owner :: "authority_call_context \<Rightarrow> identity \<Rightarrow> string \<Rightarrow> ('w, worker) act" where
  "endpoint_owner ctx i message =
     bind_act (worker_instance_name ctx i) (\<lambda>name.
     bind_act (gets (worker_of name)) (\<lambda>found.
     case found of
       Some w \<Rightarrow> if wk_identity w = i then ret w else reject ''ENDPOINT_OWNER_UNKNOWN'' message
     | None \<Rightarrow> reject ''ENDPOINT_OWNER_UNKNOWN'' message))"

definition newer_endpoint :: "authority_call_context \<Rightarrow> identity \<Rightarrow> 'w authority \<Rightarrow> bool" where
  "newer_endpoint ctx i s =
     list_ex (\<lambda>(obj, current). or_namespace obj = ctx_namespace ctx \<and>
       ident_id (ep_identity current) = ident_id i \<and>
       ident_generation (ep_identity current) > ident_generation i) (au_endpoints s)"

definition store_endpoint :: "authority_call_context \<Rightarrow> endpoint \<Rightarrow> 'w authority \<Rightarrow> 'w authority" where
  "store_endpoint ctx e s =
     s\<lparr>au_endpoints :=
         bm_insert (AuthorityCallContext_object_ref ctx (ep_identity e)) e
           (bm_retain (\<lambda>obj current. or_namespace obj \<noteq> ctx_namespace ctx \<or>
              ident_id (ep_identity current) \<noteq> ident_id (ep_identity e) \<or>
              ident_generation (ep_identity current) \<ge> ident_generation (ep_identity e)) (au_endpoints s)),
       au_grants :=
         bm_retain (\<lambda>obj g. or_namespace obj \<noteq> ctx_namespace ctx \<or>
           ident_id (grant_endpoint g) \<noteq> ident_id (ep_identity e) \<or>
           grant_endpoint g = ep_identity e) (au_grants s)\<rparr>"

definition Authority_publish_endpoint ::
    "'w ports \<Rightarrow> authority_call_context \<Rightarrow> principal \<Rightarrow> endpoint \<Rightarrow> ('w, endpoint) act" where
  "Authority_publish_endpoint P ctx p e =
     then_act (validate_context ctx)
    (then_act (require_namespace_owner ctx p)
    (bind_act (endpoint_owner ctx (ep_owner e)
        ''endpoint owner is not an active managed Worker incarnation'') (\<lambda>owner.
     then_act (guard (wk_principal owner = principal_identity p) ''AUTHORITY_DENIED''
                 ''only the Worker owner Principal may publish an Endpoint'')
    (bind_act (lease_for P ctx (wk_lease owner)) (\<lambda>l.
     bind_act (or_expired P (rl_generation l \<noteq> ident_generation (wk_lease owner) \<or>
                 rl_holder l \<noteq> wk_identity owner \<or> rl_state l \<noteq> LActive) l) (\<lambda>inactive.
     then_act (guard (\<not> inactive) ''LEASE_NOT_ACTIVE''
                 ''endpoint owner no longer has an active Lease incarnation'')
    (bind_act (gets (newer_endpoint ctx (ep_identity e))) (\<lambda>stale.
     then_act (guard (\<not> stale) ''STALE_GENERATION'' ''endpoint identity generation is stale'')
    (then_act (modify (store_endpoint ctx e))
     (ret e))))))))))"

definition stored_endpoint :: "authority_call_context \<Rightarrow> identity \<Rightarrow> rejection \<Rightarrow> ('w, endpoint) act" where
  "stored_endpoint ctx i missing =
     bind_act (gets (\<lambda>s. map_of (au_endpoints s) (AuthorityCallContext_object_ref ctx i))) (\<lambda>found.
     case found of
       Some e \<Rightarrow> if ep_identity e = i then ret e else of_rejection (Inl missing)
     | None \<Rightarrow> of_rejection (Inl missing))"

definition Authority_authorize_endpoint ::
    "'w ports \<Rightarrow> authority_call_context \<Rightarrow> principal \<Rightarrow> endpoint_grant \<Rightarrow> ('w, endpoint_grant) act" where
  "Authority_authorize_endpoint P ctx p g =
     then_act (validate_context ctx)
    (then_act (require_namespace_owner ctx p)
    (bind_act (stored_endpoint ctx (grant_endpoint g)
        (rejection ''ENDPOINT_NOT_FOUND'' ''endpoint grant targets an unpublished endpoint'')) (\<lambda>e.
     bind_act (endpoint_owner ctx (ep_owner e)
        ''endpoint owner is not an active managed Worker incarnation'') (\<lambda>owner.
     then_act (guard (wk_principal owner = principal_identity p) ''AUTHORITY_DENIED''
                 ''only the Worker owner Principal may authorize an Endpoint grant'')
    (bind_act (lease_for P ctx (grant_lease g)) (\<lambda>l.
     then_act (guard (rl_generation l = ident_generation (grant_lease g)) ''LEASE_GENERATION_STALE''
                 ''endpoint grant lease generation is stale'')
    (then_act (guard (rl_fence_token l = grant_fence_token g) ''STALE_FENCE_TOKEN''
                 ''endpoint grant lease fence token is stale'')
    (bind_act (or_expired P (rl_state l \<noteq> LActive \<or> rl_holder l \<noteq> grant_grantee g) l) (\<lambda>inactive.
     then_act (guard (\<not> inactive) ''LEASE_NOT_ACTIVE''
                 ''endpoint grant grantee does not hold an active lease'')
    (bind_act (port (pt_now P)) (\<lambda>now.
     then_act (guard (\<not> (grant_expires_at_unix_ms g \<le> now \<or>
                 (case rl_expires_at_unix_ms l of None \<Rightarrow> False | Some x \<Rightarrow> grant_expires_at_unix_ms g > x)))
                 ''ENDPOINT_GRANT_EXPIRY_INVALID''
                 ''endpoint grant expiry must be active and bounded by its lease'')
    (then_act (modify (\<lambda>s. s\<lparr>au_grants :=
         bm_insert (AuthorityCallContext_object_ref ctx (grant_identity g)) g (au_grants s)\<rparr>))
     (ret g)))))))))))))"

definition Authority_revoke_endpoint ::
    "'w ports \<Rightarrow> authority_call_context \<Rightarrow> principal \<Rightarrow> identity \<Rightarrow> ('w, unit) act" where
  "Authority_revoke_endpoint P ctx p i =
     then_act (validate_context ctx)
    (then_act (require_namespace_owner ctx p)
    (let obj = AuthorityCallContext_object_ref ctx i in
     bind_act (gets (\<lambda>s. map_of (au_grants s) obj)) (\<lambda>stored.
     then_act
       (case stored of
          None \<Rightarrow> ret ()
        | Some g \<Rightarrow>
            bind_act (stored_endpoint ctx (grant_endpoint g)
               (rejection ''ENDPOINT_OWNER_UNKNOWN''
                  ''endpoint grant no longer has an active endpoint owner'')) (\<lambda>e.
            bind_act (endpoint_owner ctx (ep_owner e)
               ''endpoint grant owner is not an active managed Worker incarnation'') (\<lambda>owner.
            guard (wk_principal owner = principal_identity p) ''AUTHORITY_DENIED''
              ''only the Worker owner Principal may revoke an Endpoint grant'')))
     (modify (\<lambda>s. s\<lparr>au_grants := bm_remove obj (au_grants s)\<rparr>)))))"

section \<open>Events and snapshots\<close>

definition Authority_read_events ::
    "'w ports \<Rightarrow> authority_call_context \<Rightarrow> principal \<Rightarrow> event_cursor \<Rightarrow> nat \<Rightarrow> ('w, event_page) act" where
  "Authority_read_events P ctx p cursor limit =
     then_act (validate_context ctx)
    (then_act (require_namespace_owner ctx p)
    (then_act (guard (\<not> (limit = 0 \<or> limit > OPERATION_EVENT_HISTORY_CAPACITY)) ''EVENT_PAGE_LIMIT_INVALID''
                 ''event page_size must be in 1..=256'')
     (read_events_page P (ctx_namespace ctx) cursor limit)))"

definition in_namespace :: "namespace_id \<Rightarrow> (object_ref, 'v) btree_map \<Rightarrow> (object_ref \<times> 'v) list" where
  "in_namespace ns m = filter (\<lambda>(obj, _). or_namespace obj = ns) m"

fun snapshot_leases :: "'w ports \<Rightarrow> (object_ref \<times> string) list \<Rightarrow> ('w, lease list) act" where
  "snapshot_leases P [] = ret []"
| "snapshot_leases P ((obj, name) # rest) =
     bind_act (daemon_lease P name) (\<lambda>l.
     bind_act (snapshot_leases P rest) (\<lambda>ls. ret (semantic_lease obj l # ls)))"

definition Authority_snapshot ::
    "'w ports \<Rightarrow> authority_call_context \<Rightarrow> principal \<Rightarrow> ('w, authority_snapshot) act" where
  "Authority_snapshot P ctx p =
     then_act (validate_context ctx)
    (then_act (require_namespace_owner ctx p)
    (let ns = ctx_namespace ctx; source = semantic_event_source_for P ns in
     bind_act (event_history_for P ns source) (\<lambda>events.
     bind_act (gets (\<lambda>s. map (pv_provider \<circ> snd) (filter (\<lambda>((n, _), _). n = ns) (au_providers s)))) (\<lambda>providers.
     bind_act (gets (\<lambda>s. List.map_filter (\<lambda>(_, name). worker_of name s) (in_namespace ns (au_workers s))))
      (\<lambda>workers.
     bind_act (bind_act (gets (\<lambda>s. in_namespace ns (au_leases s))) (snapshot_leases P)) (\<lambda>ls.
     gets (\<lambda>s.
       \<lparr>asn_source = source,
        asn_cursor = \<lparr>cur_source = source, cur_sequence = last_sequence events\<rparr>,
        asn_providers = providers, asn_workers = workers, asn_leases = ls,
        asn_operations = map snd (in_namespace ns (au_operations s)),
        asn_endpoints = map snd (in_namespace ns (au_endpoints s)),
        asn_endpoint_grants = map snd (in_namespace ns (au_grants s))\<rparr>)))))))"

end
