(* ===== verification/Authority_Loss.thy ===== *)
theory Authority_Loss
  imports Authority_Actions
begin

text \<open>
  Abnormal ends of authority (\<open>authority.rs\<close>: \<open>mark_worker_lost\<close> and
  \<open>enforce_lease_expiry\<close>) and the provider actions (\<open>authority/provider_actions.rs\<close> and
  \<open>confirm_stale_worker_termination\<close>, \<open>register_resource_facts_provider\<close>).
\<close>

section \<open>Lost workers\<close>

definition targets_worker :: "identity \<Rightarrow> operation \<Rightarrow> bool" where
  "targets_worker i op \<longleftrightarrow>
     (op_executor op = i \<or> map_of (op_metadata op) ''worker.id'' = Some (ident_id i)) \<and>
     OperationState_can_transition_to (op_state op) OpLost"

definition lose_operations :: "identity \<Rightarrow> ('w, identity list) act" where
  "lose_operations i s =
     (Inr (map (\<lambda>(_, op). op_identity op) (filter (\<lambda>(_, op). targets_worker i op) (au_operations s))),
      s\<lparr>au_operations := map (\<lambda>(k, op). (k, if targets_worker i op then op\<lparr>op_state := OpLost\<rparr> else op))
         (au_operations s)\<rparr>)"

definition lose_process :: "managed_process \<Rightarrow> managed_process" where
  "lose_process p =
     (set_worker_state WkLost p)\<lparr>mp_watchdog_triggered := True, mp_control := None,
       mp_semantic_control := None, mp_pending_shutdown := None\<rparr>"

text \<open>The block that marks the process lost and stops it at once; a failed stop is \<open>None\<close>.\<close>

definition kill_lost_process :: "'w ports \<Rightarrow> string \<Rightarrow> ('w, cleanup_report option) act" where
  "kill_lost_process P name =
     bind_act (gets (\<lambda>s. map_of (au_instances s) name)) (\<lambda>found.
     case found of
       None \<Rightarrow> reject ''WORKER_NOT_FOUND'' ''worker is not managed by this Kernel''
     | Some p \<Rightarrow>
         (case mp_semantic_worker p of
            None \<Rightarrow> reject ''WORKER_COMPATIBILITY_ONLY'' ''legacy plugin process is not a semantic Worker''
          | Some _ \<Rightarrow>
              then_act (update_instance name lose_process)
             (bind_act (stop_actor P IMMEDIATE_STOP name p) (\<lambda>res.
              ret (case res of Inl _ \<Rightarrow> None | Inr report \<Rightarrow> Some report)))))"

definition publish_lease_revoked :: "'w ports \<Rightarrow> namespace_id \<Rightarrow> identity \<Rightarrow> ('w, unit) act" where
  "publish_lease_revoked P ns i = publish_semantic_event_in P ns i ''lease.revoked'' ''cyrene.lease.v1'' []"

text \<open>The part of \<open>mark_worker_lost\<close> after the durable intent has been recorded.\<close>

definition commit_worker_lost ::
    "'w ports \<Rightarrow> namespace_id \<Rightarrow> string \<Rightarrow> worker \<Rightarrow> resource_lease \<Rightarrow> string \<Rightarrow>
     ('w, provider_reconcile_action list) act" where
  "commit_worker_lost P ns worker_name w l reason_code =
     (let revocation_required = (rl_state l \<in> {LActive, LReleasing, LExpired});
          revokes = (revocation_required \<or> rl_state l = LRevoked) in
     bind_act (if revocation_required then daemon_revoke P (rl_name l) (rl_fence_token l) else ret l) (\<lambda>revoked.
     bind_act (kill_lost_process P worker_name) (\<lambda>cleanup.
     bind_act (lose_operations (wk_identity w)) (\<lambda>lost_operations.
     bind_act (purge_endpoint_authority (wk_identity w)) (\<lambda>revoked_endpoints.
     then_act
       (if revokes then
          then_act (record_runtime P JLeaseRevoked (Some worker_name) (Some revoked) reason_code)
         (then_act (record_runtime P FenceAdvanced (Some worker_name) (Some revoked) reason_code)
          (case cleanup of
             Some report \<Rightarrow>
               if cr_complete report then
                 then_act (record_runtime P InstanceTerminated (Some (ident_id (wk_identity w))) (Some revoked)
                             (cr_reason_code report))
                (then_act (daemon_complete_revocation (rl_name revoked) (rl_fence_token revoked)) (ret ()))
               else ret ()
           | None \<Rightarrow> ret ()))
        else ret ())
    (then_act (each (\<lambda>op.
         then_act (record_runtime P OperationLost (Some worker_name) (Some revoked) reason_code)
         (publish_operation P ns op ''operation.lost'')) lost_operations)
    (then_act (each (\<lambda>e.
         then_act (record_runtime P EndpointRevoked (Some worker_name) (Some revoked) reason_code)
         (publish_semantic_event_in P ns e ''endpoint.revoked'' ''cyrene.endpoint.v1'' [])) revoked_endpoints)
    (then_act (publish_worker P ns (wk_identity w) ''worker.lost'')
    (then_act (if revokes then publish_lease_revoked P ns (wk_lease w) else ret ())
     (ret (MarkWorkerLost (wk_identity w) #
           (if revokes then [RevokeLease (wk_lease w)] else []) @
           map MarkOperationLost lost_operations @
           map RevokeEndpointAction revoked_endpoints)))))))))))"

definition mark_worker_lost ::
    "'w ports \<Rightarrow> authority_call_context \<Rightarrow> identity \<Rightarrow> string \<Rightarrow> ('w, provider_reconcile_action list) act" where
  "mark_worker_lost P ctx i reason_code =
     then_act (validate_context ctx)
    (bind_act (worker_instance_name ctx i) (\<lambda>worker_name.
     bind_act (gets (worker_of worker_name)) (\<lambda>found.
     case found of
       None \<Rightarrow> reject ''WORKER_NOT_FOUND'' ''worker is not managed by this Kernel''
     | Some w \<Rightarrow>
         then_act (guard (wk_identity w = i) ''STALE_GENERATION'' ''worker identity generation is stale'')
        (bind_act (lease_for P ctx (wk_lease w)) (\<lambda>l.
         bind_act (daemon_is_allocated (rl_name l)) (\<lambda>allocated.
         if wk_state w = WkLost \<and> \<not> allocated then ret [Noop]
         else if \<not> WorkerState_can_transition_to (wk_state w) WkLost \<and> wk_state w \<noteq> WkLost then ret [Noop]
         else
           then_act (guard (rl_holder l = wk_identity w) ''FENCE_MISMATCH''
                       ''worker no longer owns the referenced lease'')
          (then_act (record_runtime P WorkerLost (Some worker_name) (Some l) reason_code)
           (commit_worker_lost P (ctx_namespace ctx) worker_name w l reason_code))))))))"

section \<open>Lease expiry\<close>

definition needs_active_expiry :: "u64 \<Rightarrow> bool \<Rightarrow> resource_lease \<Rightarrow> bool" where
  "needs_active_expiry now allocated l \<longleftrightarrow>
     lease_expired l now \<and> rl_state l \<in> {LActive, LReleasing, LExpired} \<or>
     rl_state l = LRevoked \<and> allocated"

definition lease_process :: "string \<Rightarrow> managed_process \<Rightarrow> bool" where
  "lease_process name p \<longleftrightarrow> (case mp_lease p of None \<Rightarrow> False | Some (n, _) \<Rightarrow> n = name)"

fun bound_worker :: "identity \<Rightarrow> string \<Rightarrow> (string \<times> managed_process) list \<Rightarrow> identity option" where
  "bound_worker lease_id name [] = None"
| "bound_worker lease_id name ((_, p) # rest) =
     (case mp_semantic_worker p of
        Some w \<Rightarrow>
          if wk_lease w = lease_id \<or> ident_id (wk_lease w) = ident_id lease_id \<or> lease_process name p
          then Some (wk_identity w) else bound_worker lease_id name rest
      | None \<Rightarrow> bound_worker lease_id name rest)"

definition revoke_unless_revoked :: "'w ports \<Rightarrow> resource_lease \<Rightarrow> ('w, rejection + resource_lease) act" where
  "revoke_unless_revoked P l =
     (if rl_state l = LRevoked then ret (Inr l)
      else attempt (daemon_revoke P (rl_name l) (rl_fence_token l)))"

definition ignore :: "('w, 'a) act \<Rightarrow> ('w, unit) act" where
  "ignore m = then_act (attempt m) (ret ())"

definition expire_legacy_instance :: "'w ports \<Rightarrow> resource_lease \<Rightarrow> string \<Rightarrow> managed_process \<Rightarrow> ('w, unit) act" where
  "expire_legacy_instance P l name p =
     then_act (update_instance name (\<lambda>p. p\<lparr>mp_watchdog_triggered := True\<rparr>))
    (bind_act (stop_actor P IMMEDIATE_STOP name p) (\<lambda>res.
     let cleanup_complete = (case res of Inr report \<Rightarrow> cr_complete report | Inl _ \<Rightarrow> False) in
     then_act (ignore (record_runtime P JLeaseRevoked (Some name) (Some l) ''LEASE_EXPIRED''))
    (bind_act (revoke_unless_revoked P l) (\<lambda>r.
     case r of
       Inl _ \<Rightarrow> ret ()
     | Inr revoked \<Rightarrow>
         then_act (ignore (record_runtime P FenceAdvanced (Some name) (Some revoked) ''LEASE_EXPIRED''))
         (if cleanup_complete then
            then_act (ignore (record_runtime P InstanceTerminated (Some name) (Some revoked) ''LEASE_EXPIRED''))
           (then_act (ignore (daemon_complete_revocation (rl_name revoked) (rl_fence_token revoked)))
            (modify (\<lambda>s. s\<lparr>au_instances := bm_remove name (au_instances s)\<rparr>)))
          else ret ())))))"

definition expire_standalone ::
    "'w ports \<Rightarrow> namespace_id \<Rightarrow> identity \<Rightarrow> resource_lease \<Rightarrow> ('w, provider_reconcile_action list) act" where
  "expire_standalone P ns lease_id l =
     bind_act (revoke_unless_revoked P l) (\<lambda>r.
     case r of
       Inl _ \<Rightarrow> ret []
     | Inr revoked \<Rightarrow>
         then_act (ignore (record_runtime P JLeaseRevoked None (Some revoked) ''LEASE_EXPIRED''))
        (then_act (ignore (record_runtime P FenceAdvanced None (Some revoked) ''LEASE_EXPIRED''))
        (then_act (ignore (daemon_complete_revocation (rl_name revoked) (rl_fence_token revoked)))
        (then_act (publish_lease_revoked P ns lease_id)
         (ret [RevokeLease lease_id])))))"

definition expiry_context :: "namespace_id \<Rightarrow> identity \<Rightarrow> authority_call_context" where
  "expiry_context ns i =
     \<lparr>ctx_contract = ContractRevision_current, ctx_namespace = ns,
      ctx_request_id = ''expiry-lost-'' @ ident_id i,
      ctx_idempotency_key = ''expiry-lost-'' @ ident_id i\<rparr>"

text \<open>One turn of the scan, for one lease of the list read at its start.\<close>

definition expire_one :: "'w ports \<Rightarrow> u64 \<Rightarrow> resource_lease \<Rightarrow> ('w, provider_reconcile_action list) act" where
  "expire_one P now l =
     bind_act (daemon_is_allocated (rl_name l)) (\<lambda>allocated.
     if \<not> needs_active_expiry now allocated l then ret []
     else
       bind_act (gets (\<lambda>s. find (\<lambda>(_, name). name = rl_name l) (au_leases s))) (\<lambda>tracked.
       let ns = (case tracked of None \<Rightarrow> NamespaceId_default | Some (obj, _) \<Rightarrow> or_namespace obj);
           lease_id = (case tracked of None \<Rightarrow> Identity (rl_name l) (rl_generation l)
                       | Some (obj, _) \<Rightarrow> or_identity obj) in
       bind_act (gets (\<lambda>s. bound_worker lease_id (rl_name l) (au_instances s))) (\<lambda>bound.
       case bound of
         Some i \<Rightarrow>
           bind_act (attempt (mark_worker_lost P (expiry_context ns i) i ''LEASE_EXPIRED'')) (\<lambda>r.
           ret (case r of Inl _ \<Rightarrow> [] | Inr actions \<Rightarrow> actions))
       | None \<Rightarrow>
           bind_act (gets (\<lambda>s. find (\<lambda>(_, p). lease_process (rl_name l) p) (au_instances s))) (\<lambda>legacy.
           case legacy of
             Some (name, p) \<Rightarrow> then_act (expire_legacy_instance P l name p) (ret [])
           | None \<Rightarrow> expire_standalone P ns lease_id l))))"

fun expire_all :: "'w ports \<Rightarrow> u64 \<Rightarrow> resource_lease list \<Rightarrow> ('w, provider_reconcile_action list) act" where
  "expire_all P now [] = ret []"
| "expire_all P now (l # ls) =
     bind_act (expire_one P now l) (\<lambda>actions.
     bind_act (expire_all P now ls) (\<lambda>rest. ret (actions @ rest)))"

definition enforce_lease_expiry :: "'w ports \<Rightarrow> ('w, provider_reconcile_action list) act" where
  "enforce_lease_expiry P =
     bind_act (port (pt_now P)) (\<lambda>now.
     bind_act (daemon_leases P) (\<lambda>ls. expire_all P now ls))"

section \<open>Providers\<close>

definition provider_key :: "authority_call_context \<Rightarrow> string \<Rightarrow> namespace_id \<times> string" where
  "provider_key ctx i = (ctx_namespace ctx, i)"

definition fresh_record :: "provider \<Rightarrow> principal \<Rightarrow> provider_record" where
  "fresh_record v p =
     \<lparr>pv_provider = v, pv_principal = p, pv_inventory_scope = ScopeFull, pv_inventory = None,
      pv_reconciled_snapshot_generation = None, pv_pending_stale_workers = []\<rparr>"

definition put_provider :: "namespace_id \<times> string \<Rightarrow> provider_record \<Rightarrow> ('w, unit) act" where
  "put_provider key r = modify (\<lambda>s. s\<lparr>au_providers := bm_insert key r (au_providers s)\<rparr>)"

definition Authority_register_provider ::
    "'w ports \<Rightarrow> authority_call_context \<Rightarrow> principal \<Rightarrow> provider \<Rightarrow> ('w, provider) act" where
  "Authority_register_provider P ctx p v =
     then_act (validate_context ctx)
    (then_act (guard (ident_generation (prov_identity v) \<noteq> 0) ''GENERATION_INVALID''
                 ''provider session generation must be non-zero'')
    (then_act (of_contract (Provider_validate v))
    (let key = provider_key ctx (ident_id (prov_identity v));
         store = then_act (put_provider key (fresh_record v p))
                (then_act (publish_provider P (ctx_namespace ctx) (prov_identity v) ''provider.registered'')
                 (ret v)) in
     bind_act (gets (\<lambda>s. map_of (au_providers s) key)) (\<lambda>entry.
     case entry of
       None \<Rightarrow> store
     | Some current \<Rightarrow>
         if pv_principal current \<noteq> p
         then reject ''AUTHORITY_DENIED'' ''Provider session belongs to another authenticated Principal''
         else if ident_generation (prov_identity v) < ident_generation (prov_identity (pv_provider current))
         then reject ''STALE_GENERATION'' ''provider session generation is stale''
         else if ident_generation (prov_identity v) = ident_generation (prov_identity (pv_provider current))
         then
           if pv_provider current = v then ret (pv_provider current)
           else if prov_state (pv_provider current) \<noteq> ProviderUnavailable \<and>
                   prov_state v = ProviderUnavailable \<and>
                   prov_capabilities (pv_provider current) = prov_capabilities v
           then store
           else reject ''STALE_GENERATION'' ''provider session generation cannot change its facts or recover''
         else store))))"

definition register_resource_facts_provider ::
    "'w ports \<Rightarrow> authority_call_context \<Rightarrow> principal \<Rightarrow> provider \<Rightarrow> ('w, provider) act" where
  "register_resource_facts_provider P ctx p v =
     bind_act (Authority_register_provider P ctx p v) (\<lambda>registered.
     let key = provider_key ctx (ident_id (prov_identity registered)) in
     bind_act (gets (\<lambda>s. map_of (au_providers s) key)) (\<lambda>found.
     case found of
       None \<Rightarrow> panic ''registered provider must remain present''
     | Some r \<Rightarrow>
         then_act (put_provider key (r\<lparr>pv_inventory_scope := ScopeResourceFactsOnly\<rparr>)) (ret registered)))"

definition Authority_publish_inventory ::
    "'w ports \<Rightarrow> authority_call_context \<Rightarrow> principal \<Rightarrow> provider_snapshot \<Rightarrow> ('w, provider_snapshot) act" where
  "Authority_publish_inventory P ctx p snapshot =
     then_act (validate_context ctx)
    (then_act (of_contract (ProviderSnapshot_validate snapshot))
    (let key = provider_key ctx (ident_id (snap_provider snapshot)) in
     bind_act (gets (\<lambda>s. map_of (au_providers s) key)) (\<lambda>found.
     case found of
       None \<Rightarrow> reject ''PROVIDER_NOT_FOUND'' ''provider has not registered this session''
     | Some r \<Rightarrow>
         then_act (guard (pv_principal r = p) ''AUTHORITY_DENIED''
                     ''Provider inventory caller does not own the registered session'')
        (then_act (guard (prov_identity (pv_provider r) = snap_provider snapshot) ''STALE_GENERATION''
                     ''inventory belongs to a stale provider session'')
        (then_act (guard (\<not> (case pv_inventory r of None \<Rightarrow> False
                       | Some current \<Rightarrow> snap_snapshot_generation snapshot \<le> snap_snapshot_generation current))
                     ''STALE_GENERATION'' ''inventory snapshot generation must advance'')
        (then_act (put_provider key
             (r\<lparr>pv_inventory := Some snapshot, pv_reconciled_snapshot_generation := None\<rparr>))
        (then_act (publish_provider P (ctx_namespace ctx) (snap_provider snapshot)
                     ''provider.inventory.observed'')
         (ret snapshot))))))))"

definition confirm_stale_worker_termination ::
    "authority_call_context \<Rightarrow> principal \<Rightarrow> identity \<Rightarrow> u64 \<Rightarrow> identity \<Rightarrow> bool \<Rightarrow> ('w, unit) act" where
  "confirm_stale_worker_termination ctx p provider_id snapshot_generation w terminated =
     then_act (validate_context ctx)
    (let key = provider_key ctx (ident_id provider_id) in
     bind_act (gets (\<lambda>s. map_of (au_providers s) key)) (\<lambda>found.
     case found of
       None \<Rightarrow> reject ''PROVIDER_NOT_FOUND'' ''provider has not registered this session''
     | Some r \<Rightarrow>
         then_act (guard (prov_identity (pv_provider r) = provider_id) ''STALE_GENERATION''
                     ''termination result targets a stale provider session'')
        (then_act (guard (pv_principal r = p) ''AUTHORITY_DENIED''
                     ''termination result caller does not own the registered Provider session'')
        (then_act (guard ((w, snapshot_generation) \<in> set (pv_pending_stale_workers r))
                     ''RECONCILIATION_RESULT_UNKNOWN''
                     ''termination result does not match a pending stale Worker action'')
         (if \<not> terminated then ret ()
          else
            then_act (guard (\<not> (case pv_inventory r of None \<Rightarrow> False
                         | Some snapshot \<Rightarrow> list_ex (\<lambda>x. wk_identity x = w) (snap_workers snapshot)))
                        ''PROVIDER_REALITY_STALE''
                        ''a successful termination result requires a later complete snapshot without the Worker'')
            (put_provider key (r\<lparr>pv_pending_stale_workers :=
               remove1 (w, snapshot_generation) (pv_pending_stale_workers r)\<rparr>)))))))"

section \<open>Reconciliation\<close>

text \<open>The block that reads the provider record and drops an expired inventory.\<close>

definition reconcile_input ::
    "'w ports \<Rightarrow> namespace_id \<times> string \<Rightarrow> principal \<Rightarrow> identity \<Rightarrow> ('w, provider_record) act" where
  "reconcile_input P key p provider_id =
     bind_act (gets (\<lambda>s. map_of (au_providers s) key)) (\<lambda>found.
     case found of
       None \<Rightarrow> reject ''PROVIDER_NOT_FOUND'' ''provider is unknown in this namespace''
     | Some r \<Rightarrow>
         then_act (guard (pv_principal r = p) ''AUTHORITY_DENIED''
                     ''Provider reconciliation caller does not own the registered session'')
        (then_act (guard (prov_identity (pv_provider r) = provider_id) ''STALE_GENERATION''
                     ''reconciliation targets a stale provider session'')
        (bind_act
           (case pv_inventory r of
              None \<Rightarrow> ret False
            | Some snapshot \<Rightarrow>
                bind_act (port (pt_now P)) (\<lambda>now. ret (snap_expires_at_unix_ms snapshot \<le> now)))
           (\<lambda>expired.
         let r' = (if expired then r\<lparr>pv_inventory := None, pv_reconciled_snapshot_generation := None\<rparr>
                   else r) in
         then_act (put_provider key r')
        (then_act (guard (\<not> (pv_inventory r' = None \<and> prov_state (pv_provider r') \<noteq> ProviderUnavailable \<and>
                     \<not> expired)) ''PROVIDER_INVENTORY_MISSING'' ''provider has no current inventory'')
         (ret r'))))))"

definition inventory_generation :: "provider_record \<Rightarrow> u64" where
  "inventory_generation r =
     (case pv_inventory r of None \<Rightarrow> 0 | Some snapshot \<Rightarrow> snap_snapshot_generation snapshot)"

definition refresh_actions :: "provider_record \<Rightarrow> provider_reconcile_action list" where
  "refresh_actions r =
     (case pv_inventory r of
        None \<Rightarrow> [] | Some snapshot \<Rightarrow> map (\<lambda>x. RefreshResource (res_identity x)) (snap_resources snapshot))"

definition observed_workers :: "provider_record \<Rightarrow> identity list" where
  "observed_workers r =
     (case pv_inventory r of None \<Rightarrow> [] | Some snapshot \<Rightarrow> map wk_identity (snap_workers snapshot))"

definition recorded_workers :: "namespace_id \<Rightarrow> identity \<Rightarrow> 'w authority \<Rightarrow> worker list" where
  "recorded_workers ns provider_id s =
     (let names = map snd (in_namespace ns (au_workers s)) in
      filter (\<lambda>w. ident_id (wk_provider w) = ident_id provider_id \<and>
                wk_state w \<notin> {WkStopped, WkFailed, WkLost})
        (List.map_filter (\<lambda>(_, p). mp_semantic_worker p)
           (filter (\<lambda>(name, _). name \<in> set names) (au_instances s))))"

definition lease_still_valid :: "'w ports \<Rightarrow> authority_call_context \<Rightarrow> worker \<Rightarrow> ('w, bool) act" where
  "lease_still_valid P ctx w =
     bind_act (attempt (lease_for P ctx (wk_lease w))) (\<lambda>r.
     ret (case r of Inl _ \<Rightarrow> False | Inr l \<Rightarrow> rl_state l = LActive \<and> rl_holder l = wk_identity w))"

fun reconcile_workers ::
    "'w ports \<Rightarrow> authority_call_context \<Rightarrow> provider_record \<Rightarrow> worker list \<Rightarrow>
     ('w, provider_reconcile_action list) act" where
  "reconcile_workers P ctx r [] = ret []"
| "reconcile_workers P ctx r (w # ws) =
     (let missing = wk_identity w \<notin> set (observed_workers r) in
     bind_act (lease_still_valid P ctx w) (\<lambda>valid.
     bind_act
       (if missing \<or> \<not> valid then
          mark_worker_lost P ctx (wk_identity w)
            (if missing \<and> pv_inventory r \<noteq> None then ''WORKER_MISSING_FROM_PROVIDER''
             else if missing then ''PROVIDER_UNAVAILABLE'' else ''WORKER_LEASE_INVALID'')
        else ret [])
       (\<lambda>actions.
     bind_act (reconcile_workers P ctx r ws) (\<lambda>rest. ret (actions @ rest)))))"

definition add_pending :: "u64 \<Rightarrow> (identity \<times> u64) list \<Rightarrow> identity \<Rightarrow> (identity \<times> u64) list" where
  "add_pending generation pending w =
     (if list_ex (\<lambda>(c, _). c = w) pending then pending else pending @ [(w, generation)])"

definition set_reconciled :: "namespace_id \<times> string \<Rightarrow> u64 \<Rightarrow> ('w, unit) act" where
  "set_reconciled key generation =
     bind_act (gets (\<lambda>s. map_of (au_providers s) key)) (\<lambda>found.
     case found of
       None \<Rightarrow> panic ''provider was checked above''
     | Some r \<Rightarrow> put_provider key (r\<lparr>pv_reconciled_snapshot_generation := Some generation\<rparr>))"

definition pend_stale_workers ::
    "namespace_id \<times> string \<Rightarrow> u64 \<Rightarrow> identity list \<Rightarrow> ('w, identity list) act" where
  "pend_stale_workers key generation stale =
     bind_act (gets (\<lambda>s. map_of (au_providers s) key)) (\<lambda>found.
     case found of
       None \<Rightarrow> panic ''provider was checked above''
     | Some r \<Rightarrow>
         let pending = fold (\<lambda>w ps. add_pending generation ps w) stale (pv_pending_stale_workers r) in
         then_act (put_provider key (r\<lparr>pv_pending_stale_workers := pending\<rparr>)) (ret (map fst pending)))"

definition reconcile_result ::
    "'w ports \<Rightarrow> namespace_id \<Rightarrow> identity \<Rightarrow> u64 \<Rightarrow> provider_reconcile_action list \<Rightarrow>
     ('w, provider_reconcile_result) act" where
  "reconcile_result P ns provider_id generation actions =
     then_act (publish_provider P ns provider_id ''provider.reconciled'')
     (ret \<lparr>prr_provider = provider_id, prr_snapshot_generation = generation, prr_actions = actions\<rparr>)"

definition or_noop :: "provider_reconcile_action list \<Rightarrow> provider_reconcile_action list" where
  "or_noop actions = (if actions = [] then [Noop] else actions)"

fun is_terminate :: "provider_reconcile_action \<Rightarrow> bool" where
  "is_terminate (TerminateStaleWorker _) = True"
| "is_terminate _ = False"

definition Authority_reconcile_provider ::
    "'w ports \<Rightarrow> authority_call_context \<Rightarrow> principal \<Rightarrow> identity \<Rightarrow> ('w, provider_reconcile_result) act" where
  "Authority_reconcile_provider P ctx p provider_id =
     then_act (validate_context ctx)
    (let key = provider_key ctx (ident_id provider_id); ns = ctx_namespace ctx in
     bind_act (reconcile_input P key p provider_id) (\<lambda>r.
     let generation = inventory_generation r in
     if pv_reconciled_snapshot_generation r = Some generation \<and> pv_pending_stale_workers r = []
     then ret \<lparr>prr_provider = provider_id, prr_snapshot_generation = generation, prr_actions = [Noop]\<rparr>
     else if pv_inventory_scope r = ScopeResourceFactsOnly
     then then_act (set_reconciled key generation)
            (reconcile_result P ns provider_id generation (or_noop (refresh_actions r)))
     else
       bind_act (bind_act (gets (recorded_workers ns provider_id)) (reconcile_workers P ctx r)) (\<lambda>lost.
       bind_act (gets (\<lambda>s. filter (\<lambda>i. \<not> bm_contains (au_workers s) (AuthorityCallContext_object_ref ctx i))
                   (observed_workers r))) (\<lambda>stale.
       bind_act (pend_stale_workers key generation stale) (\<lambda>pending.
       let actions = or_noop (refresh_actions r @ lost @ map TerminateStaleWorker pending) in
       then_act (if list_ex is_terminate actions then ret () else set_reconciled key generation)
       (reconcile_result P ns provider_id generation actions))))))"

end
