(* ===== verification/Action_Frames.thy ===== *)
theory Action_Frames
  imports Authority_State
begin

text \<open>
  Frames for authority actions. A frame is a reflexive and transitive relation between the
  states before and after an action; what an action keeps on every path, failing ones included,
  is stated once per combinator here and used for several relations later (the abstract steps,
  read-only calls, calls that never reach the sandbox).
\<close>

definition keeps :: "('w authority \<Rightarrow> 'w authority \<Rightarrow> bool) \<Rightarrow> ('w, 'a) act \<Rightarrow> bool" where
  "keeps R m \<longleftrightarrow> (\<forall>s. R s (snd (m s)))"

definition fails_under :: "('w authority \<Rightarrow> 'w authority \<Rightarrow> bool) \<Rightarrow> 'w authority \<Rightarrow> ('w, 'a) act \<Rightarrow> bool" where
  "fails_under R s m \<longleftrightarrow> (\<exists>e s'. m s = (Inl e, s') \<and> R s s')"

lemma keepsD: "keeps R m \<Longrightarrow> m s = (r, s') \<Longrightarrow> R s s'"
  unfolding keeps_def by (metis snd_conv)

locale action_frame =
  fixes R :: "'w authority \<Rightarrow> 'w authority \<Rightarrow> bool"
  assumes frame_refl: "R s s"
    and frame_trans: "R s s1 \<Longrightarrow> R s1 s2 \<Longrightarrow> R s s2"
begin

lemma keeps_same: "(\<And>s. snd (m s) = s) \<Longrightarrow> keeps R m"
  by (simp add: keeps_def frame_refl)

lemma keeps_ret: "keeps R (ret x)"
  and keeps_reject: "keeps R (reject c e)"
  and keeps_panic: "keeps R (panic e)"
  and keeps_gets: "keeps R (gets f)"
  and keeps_of_rejection: "keeps R (of_rejection r)"
  and keeps_of_provider: "keeps R (of_provider r')"
  and keeps_of_contract: "keeps R (of_contract r'')"
  and keeps_guard: "keeps R (guard b c e)"
  and keeps_validate_context: "keeps R (validate_context ctx)"
  and keeps_require_owner: "keeps R (require_namespace_owner ctx p)"
  by (rule keeps_same,
      simp add: act_simps validate_context_def require_namespace_owner_def split: option.split)+

lemma keeps_bind:
  assumes "keeps R m" and "\<And>x. keeps R (f x)"
  shows "keeps R (bind_act m f)"
  unfolding keeps_def
proof
  fix s
  obtain r s' where m: "m s = (r, s')" by (cases "m s")
  have 1: "R s s'" by (rule keepsD [OF assms(1) m])
  show "R s (snd (bind_act m f s))"
  proof (cases r)
    case (Inr x)
    have "R s' (snd (f x s'))" using assms(2) unfolding keeps_def by blast
    then show ?thesis using m Inr frame_trans [OF 1] by (simp add: bind_act_def)
  qed (use m 1 in \<open>simp add: bind_act_def\<close>)
qed

lemma keeps_then: "keeps R m \<Longrightarrow> keeps R n \<Longrightarrow> keeps R (then_act m n)"
  by (simp add: then_act_def keeps_bind)

lemma keeps_attempt:
  assumes "keeps R m"
  shows "keeps R (attempt m)"
proof -
  have "snd (attempt m s) = snd (m s)" for s
    by (simp add: attempt_def split: prod.split sum.split authority_error.split)
  then show ?thesis using assms by (simp add: keeps_def)
qed

lemma keeps_each: "(\<And>x. keeps R (f x)) \<Longrightarrow> keeps R (each f xs)"
  by (induction xs) (simp_all add: keeps_ret keeps_then)

lemma keeps_if: "keeps R a \<Longrightarrow> keeps R b \<Longrightarrow> keeps R (if c then a else b)"
  and keeps_option: "keeps R d \<Longrightarrow> (\<And>x. keeps R (f x)) \<Longrightarrow> keeps R (case_option d f o')"
  and keeps_sum: "(\<And>e. keeps R (g e)) \<Longrightarrow> (\<And>x. keeps R (h x)) \<Longrightarrow> keeps R (case_sum g h r)"
  and keeps_prod: "(\<And>x y. keeps R (k x y)) \<Longrightarrow> keeps R (case_prod k z)"
  and keeps_let: "(\<And>x. keeps R (f x)) \<Longrightarrow> keeps R (Let x f)"
  by (simp_all add: Let_def split: option.split sum.split prod.split)

lemmas frame_intros = keeps_ret keeps_reject keeps_panic keeps_gets keeps_of_rejection keeps_of_provider
  keeps_of_contract keeps_guard keeps_validate_context keeps_require_owner keeps_bind keeps_then
  keeps_attempt keeps_each keeps_if keeps_option keeps_sum keeps_prod keeps_let

lemma fails_bind:
  assumes "keeps R m" and "\<And>x s'. m s = (Inr x, s') \<Longrightarrow> R s s' \<Longrightarrow> fails_under R s' (f x)"
  shows "fails_under R s (bind_act m f)"
proof -
  obtain r s' where m: "m s = (r, s')" by (cases "m s")
  have 1: "R s s'" by (rule keepsD [OF assms(1) m])
  show ?thesis
  proof (cases r)
    case (Inr x)
    then obtain e s2 where "f x s' = (Inl e, s2)" "R s' s2"
      using assms(2) m 1 unfolding fails_under_def by blast
    then show ?thesis using m Inr frame_trans [OF 1] by (simp add: fails_under_def bind_act_def)
  qed (use m 1 in \<open>simp add: fails_under_def bind_act_def\<close>)
qed

lemma fails_then:
  assumes "keeps R m" and "\<And>s'. R s s' \<Longrightarrow> fails_under R s' n"
  shows "fails_under R s (then_act m n)"
  unfolding then_act_def using assms by (blast intro: fails_bind)

lemma fails_guard: "\<not> c \<Longrightarrow> fails_under R s (then_act (guard c code msg) n)"
  by (simp add: fails_under_def act_simps frame_refl)

end

lemma fails_first: "fails_under R s m \<Longrightarrow> fails_under R s (bind_act m f)"
  by (auto simp: fails_under_def bind_act_def)

lemma fails_first_then: "fails_under R s m \<Longrightarrow> fails_under R s (then_act m n)"
  by (simp add: then_act_def fails_first)

end
