(* ===== verification/Authority_Steps.thy ===== *)
theory Authority_Steps
  imports Authority_Loss Action_Frames
begin

text \<open>
  An abstract machine for the authority: one rule per kind of state change it may make, and
  the proof that every handler is a sequence of these steps, on its failing paths as well.
  Properties that hold along the steps then hold across arbitrary sequences of calls.
\<close>

section \<open>The steps\<close>

inductive history_step :: "'w ports \<Rightarrow> namespace_id \<Rightarrow> namespace_event_history option \<Rightarrow>
    namespace_event_history \<Rightarrow> bool" for P ns where
  hs_seed: "history_step P ns None \<lparr>eh_next_sequence = n, eh_events = []\<rparr>"
| hs_keep: "history_step P ns (Some h) h"
| hs_degrade: "history_step P ns (Some h) (h\<lparr>eh_next_sequence := None\<rparr>)"
| hs_append: "eh_next_sequence h = Some (ev_sequence e) \<Longrightarrow> ev_source e = semantic_event_source_for P ns \<Longrightarrow>
    Event_validate e = Inr () \<Longrightarrow>
    history_step P ns (Some h)
      (h\<lparr>eh_next_sequence := checked_add (ev_sequence e) 1, eh_events := push_event e (eh_events h)\<rparr>)"

definition op_forward :: "operation \<Rightarrow> operation \<Rightarrow> bool" where
  "op_forward op op' \<longleftrightarrow>
     op_owner op' = op_owner op \<and> op_executor op' = op_executor op \<and>
     op_kind op' = op_kind op \<and> op_deadline_unix_ms op' = op_deadline_unix_ms op \<and>
     op_parent op' = op_parent op \<and> OperationState_can_transition_to (op_state op) (op_state op')"

definition provider_forward :: "provider_record \<Rightarrow> provider_record \<Rightarrow> bool" where
  "provider_forward r r' \<longleftrightarrow>
     pv_principal r' = pv_principal r \<and>
     ident_generation (prov_identity (pv_provider r)) \<le> ident_generation (prov_identity (pv_provider r'))"

definition worker_operation_id :: "identity \<Rightarrow> bool" where
  "worker_operation_id i \<longleftrightarrow>
     (\<exists>w. ident_id i = ''operation/start/'' @ w \<or> ident_id i = ''operation/stop/'' @ w)"

text \<open>A map of objects in which every object is filed under its own identity.\<close>

definition kept_under :: "('v \<Rightarrow> identity) \<Rightarrow> (object_ref, 'v) btree_map \<Rightarrow> bool" where
  "kept_under f m \<longleftrightarrow> bm_ok m \<and> (\<forall>k v. map_of m k = Some v \<longrightarrow> f v = or_identity k)"

inductive au_step :: "'w ports \<Rightarrow> 'w authority \<Rightarrow> 'w authority \<Rightarrow> bool" for P where
  st_world: "au_step P s (s\<lparr>au_world := w\<rparr>)"
| st_ledger: "au_step P s (s\<lparr>au_ledger := rm_exec c (au_ledger s)\<rparr>)"
| st_instances: "(bm_ok (au_instances s) \<Longrightarrow> bm_ok m) \<Longrightarrow> au_step P s (s\<lparr>au_instances := m\<rparr>)"
| st_workers: "au_step P s (s\<lparr>au_workers := bm_insert obj name (au_workers s)\<rparr>)"
| st_leases: "au_step P s (s\<lparr>au_leases := bm_insert obj name (au_leases s)\<rparr>)"
| st_owner: "map_of (au_owners s) ns = None \<Longrightarrow>
    au_step P s (s\<lparr>au_owners := bm_insert ns i (au_owners s)\<rparr>)"
| st_history: "history_step P ns (map_of (au_events s) ns) h \<Longrightarrow>
    au_step P s (s\<lparr>au_events := bm_insert ns h (au_events s)\<rparr>)"
| st_new_operation: "map_of (au_operations s) obj = None \<Longrightarrow> op_identity op = or_identity obj \<Longrightarrow>
    au_step P s (s\<lparr>au_operations := bm_insert obj op (au_operations s)\<rparr>)"
| st_move_operation: "map_of (au_operations s) obj = Some op \<Longrightarrow> op_forward op op' \<Longrightarrow>
    op_identity op' \<in> {op_identity op, or_identity obj} \<Longrightarrow>
    au_step P s (s\<lparr>au_operations := bm_insert obj op' (au_operations s)\<rparr>)"
| st_update_operation: "map_of (au_operations s) obj = Some op \<Longrightarrow> op_forward op op' \<Longrightarrow>
    op_identity op' = op_identity op \<Longrightarrow>
    au_step P s (s\<lparr>au_operations := bm_update obj (\<lambda>_. op') (au_operations s)\<rparr>)"
| st_worker_operation: "worker_operation_id (or_identity obj) \<Longrightarrow> op_identity op = or_identity obj \<Longrightarrow>
    au_step P s (s\<lparr>au_operations := bm_insert obj op (au_operations s)\<rparr>)"
| st_lose_operations: "\<forall>op. op_forward op (f op) \<and> op_identity (f op) = op_identity op \<Longrightarrow>
    au_step P s (s\<lparr>au_operations := map (\<lambda>(k, op). (k, f op)) (au_operations s)\<rparr>)"
| st_endpoints: "(kept_under ep_identity (au_endpoints s) \<Longrightarrow> kept_under ep_identity es) \<Longrightarrow>
    (kept_under grant_identity (au_grants s) \<Longrightarrow> kept_under grant_identity gs) \<Longrightarrow>
    au_step P s (s\<lparr>au_endpoints := es, au_grants := gs\<rparr>)"
| st_provider: "(\<And>r. map_of (au_providers s) key = Some r \<Longrightarrow> provider_forward r r') \<Longrightarrow>
    au_step P s (s\<lparr>au_providers := bm_insert key r' (au_providers s)\<rparr>)"

abbreviation au_steps :: "'w ports \<Rightarrow> 'w authority \<Rightarrow> 'w authority \<Rightarrow> bool" where
  "au_steps P \<equiv> (au_step P)\<^sup>*\<^sup>*"

abbreviation safe :: "'w ports \<Rightarrow> ('w, 'a) act \<Rightarrow> bool" where
  "safe P \<equiv> keeps (au_steps P)"

lemmas safe_def = keeps_def

lemma kept_insert: "kept_under f m \<Longrightarrow> f v = or_identity k \<Longrightarrow> kept_under f (bm_insert k v m)"
  and kept_remove: "kept_under f m \<Longrightarrow> kept_under f (bm_remove k m)"
  by (auto simp: kept_under_def)

lemma kept_retain: "kept_under f m \<Longrightarrow> kept_under f (bm_retain Q m)"
  by (auto simp: kept_under_def map_of_bm_retain split: option.splits if_splits)

section \<open>Composition\<close>

named_theorems safe_intros "rules showing that an action is a sequence of steps"

lemma op_forward_refl [simp]: "op_forward op op"
  by (simp add: op_forward_def)

interpretation stepping: action_frame "au_steps P" for P
  by unfold_locales auto

declare stepping.frame_intros [safe_intros]

lemmas safe_ret = stepping.keeps_ret and safe_reject = stepping.keeps_reject
  and safe_panic = stepping.keeps_panic and safe_guard = stepping.keeps_guard
  and safe_of_contract = stepping.keeps_of_contract and safe_bind = stepping.keeps_bind
  and safe_then = stepping.keeps_then and safe_attempt = stepping.keeps_attempt

lemma safe_step: "(\<And>s. au_step P s (snd (m s))) \<Longrightarrow> safe P m"
  by (simp add: safe_def r_into_rtranclp)

lemma safe_port [safe_intros]: "safe P (port f)"
  by (rule safe_step) (simp add: port_def st_world split: prod.split)

lemma safe_modify_instances:
  "(\<And>s. bm_ok (au_instances s) \<Longrightarrow> bm_ok (f s)) \<Longrightarrow> safe P (modify (\<lambda>s. s\<lparr>au_instances := f s\<rparr>))"
  by (rule safe_step) (simp add: modify_def st_instances)

lemma safe_update_instance [safe_intros]: "safe P (update_instance name f)"
  unfolding update_instance_def by (rule safe_modify_instances) simp

lemma safe_stop_actor [safe_intros]:
  fixes P :: "'w ports"
  shows "safe P (stop_actor P' request name p)"
  unfolding safe_def
proof
  fix s :: "'w authority"
  obtain res a w where r: "InstanceActor_stop (pt_sandbox P') request (mp_actor p) (au_world s) = (res, a, w)"
    by (rule prod_cases3)
  let ?m = "bm_update name (\<lambda>q. q\<lparr>mp_actor := a\<rparr>) (au_instances s)"
  have "au_step P s (s\<lparr>au_instances := ?m\<rparr>)" by (rule st_instances) simp
  moreover have "au_step P (s\<lparr>au_instances := ?m\<rparr>) (s\<lparr>au_instances := ?m\<rparr>\<lparr>au_world := w\<rparr>)" by (rule st_world)
  ultimately show "au_steps P s (snd (stop_actor P' request name p s))"
    by (simp add: stop_actor_def r)
qed

lemma safe_ledger:
  fixes P :: "'w ports"
  assumes "\<And>l. \<exists>c. snd (f l) = rm_exec c l"
  shows "safe P (ledger f)"
proof (rule safe_step)
  fix s :: "'w authority"
  obtain c where "snd (f (au_ledger s)) = rm_exec c (au_ledger s)" using assms by blast
  then have "snd (ledger f s) = s\<lparr>au_ledger := rm_exec c (au_ledger s)\<rparr>"
    by (simp add: ledger_def case_prod_beta)
  then show "au_step P s (snd (ledger f s))" by (simp only: st_ledger)
qed

lemma safe_ledger_calls [safe_intros]:
  "safe P (ledger (get_lease now name))"
  "safe P (ledger (leases now))"
  "safe P (ledger (acquire_lease now now' request))"
  "safe P (ledger (renew_lease now name f e))"
  "safe P (ledger (begin_release now name f))"
  "safe P (ledger (complete_release name f))"
  "safe P (ledger (fail_release name f))"
  "safe P (ledger (revoke now name f))"
  "safe P (ledger (complete_revocation name f))"
  by (rule safe_ledger, metis rm_exec.simps)+

lemma safe_daemon [safe_intros]:
  "safe P (daemon_lease P' name)"
  "safe P (daemon_leases P')"
  "safe P (daemon_is_allocated name)"
  "safe P (daemon_acquire_lease P' request)"
  "safe P (daemon_renew_lease P' name f e)"
  "safe P (daemon_begin_release P' name f)"
  "safe P (daemon_complete_release name f)"
  "safe P (daemon_fail_release name f)"
  "safe P (daemon_revoke P' name f)"
  "safe P (daemon_complete_revocation name f)"
  unfolding daemon_lease_def daemon_leases_def daemon_is_allocated_def daemon_acquire_lease_def
    daemon_renew_lease_def daemon_begin_release_def daemon_complete_release_def daemon_fail_release_def
    daemon_revoke_def daemon_complete_revocation_def
  by (intro safe_intros)+

lemma safe_lookups [safe_intros]:
  "safe P (validate_context ctx)"
  "safe P (lease_for P' ctx i)"
  "safe P (worker_instance_name ctx i)"
  "safe P (stored_worker name msg)"
  "safe P (stored_operation ctx i)"
  "safe P (stored_endpoint ctx i e)"
  "safe P (endpoint_owner ctx i msg)"
  "safe P (or_expired P' c l)"
  "safe P (record_runtime P' ev inst l' reason)"
  "safe P (record_runtime_launch P' name l evidence)"
  "safe P (event_history_for P' ns source)"
  unfolding validate_context_def lease_for_def worker_instance_name_def stored_worker_def
    stored_operation_def stored_endpoint_def endpoint_owner_def or_expired_def record_runtime_def
    record_runtime_launch_def event_history_for_def
  by (intro safe_intros)+

lemma safe_owner [safe_intros]:
  "safe P (require_namespace_owner ctx p)"
  by (rule stepping.keeps_same) (simp add: require_namespace_owner_def split: option.split)

lemma safe_bind_namespace [safe_intros]:
  fixes P :: "'w ports"
  shows "safe P (bind_namespace ctx p)"
  unfolding safe_def
proof
  fix s :: "'w authority"
  show "au_steps P s (snd (bind_namespace ctx p s))"
    by (cases "map_of (au_owners s) (ctx_namespace ctx)")
      (auto simp: bind_namespace_def intro: r_into_rtranclp st_owner)
qed

section \<open>Publishing\<close>

lemma publish_into_steps:
  fixes P :: "'w ports" and s :: "'w authority"
  assumes "history_step P ns (map_of (au_events s) ns) h"
  shows "au_steps P s (snd (publish_into P ns subject kind schema body h s))"
proof -
  let ?s1 = "s\<lparr>au_events := bm_insert ns h (au_events s)\<rparr>"
  have 1: "au_step P s ?s1" by (rule st_history [OF assms])
  have look: "map_of (au_events (?s1\<lparr>au_world := w\<rparr>)) ns = Some h" for w by simp
  have deg: "au_step P (?s1\<lparr>au_world := w\<rparr>)
      (?s1\<lparr>au_world := w\<rparr>\<lparr>au_events := bm_insert ns (h\<lparr>eh_next_sequence := None\<rparr>) (au_events ?s1)\<rparr>)" for w
    using st_history [of P ns "?s1\<lparr>au_world := w\<rparr>" "h\<lparr>eh_next_sequence := None\<rparr>"]
    unfolding look by (simp add: hs_degrade)
  have app: "au_step P (?s1\<lparr>au_world := w\<rparr>)
      (?s1\<lparr>au_world := w\<rparr>\<lparr>au_events := bm_insert ns (h\<lparr>eh_next_sequence := checked_add (ev_sequence e) 1,
         eh_events := push_event e (eh_events h)\<rparr>) (au_events ?s1)\<rparr>)"
    if "eh_next_sequence h = Some (ev_sequence e)" "ev_source e = semantic_event_source_for P ns"
      "Event_validate e = Inr ()" for w e
    using st_history [of P ns "?s1\<lparr>au_world := w\<rparr>"] hs_append [OF that]
    unfolding look by simp
  have world: "au_steps P s (?s1\<lparr>au_world := w\<rparr>)" for w
    by (rule converse_rtranclp_into_rtranclp [OF 1 r_into_rtranclp [of "au_step P"], OF st_world])
  show ?thesis
  proof (cases "eh_next_sequence h")
    case None
    then show ?thesis using 1 by (simp add: publish_into_def put_history_def act_simps)
  next
    case (Some seq)
    obtain now w1 where now: "pt_now P (au_world s) = (now, w1)" by (cases "pt_now P (au_world s)")
    let ?e = "\<lparr>ev_sequence = seq, ev_source = semantic_event_source_for P ns, ev_subject = subject,
        ev_kind = kind, ev_observed_at_unix_ms = now, ev_schema_id = schema, ev_body = body\<rparr>"
    obtain r w2 where st: "pt_append_event P \<lparr>de_namespace = ns_as_str ns, de_event = ?e\<rparr> w1 = (r, w2)"
      by (cases "pt_append_event P \<lparr>de_namespace = ns_as_str ns, de_event = ?e\<rparr> w1")
    show ?thesis
    proof (cases "is_ok (Event_validate ?e)")
      case False
      then show ?thesis using Some now world [of w1]
        by (simp add: publish_into_def put_history_def act_simps Let_def)
    next
      case True
      then have v: "Event_validate ?e = Inr ()" by (auto simp: is_ok_def split: sum.splits)
      show ?thesis
      proof (cases "is_ok r")
        case False
        then show ?thesis using Some now v st rtranclp.rtrancl_into_rtrancl [OF world [of w2] deg [of w2]]
          by (simp add: publish_into_def put_history_def act_simps Let_def is_ok_def)
      next
        case ok: True
        have "au_steps P s (?s1\<lparr>au_world := w2\<rparr>\<lparr>au_events := bm_insert ns
            (h\<lparr>eh_next_sequence := checked_add seq 1, eh_events := push_event ?e (eh_events h)\<rparr>) (au_events ?s1)\<rparr>)"
          using rtranclp.rtrancl_into_rtrancl [OF world [of w2] app [of ?e w2]] Some v by simp
        then show ?thesis using Some now v st ok
          by (simp add: publish_into_def put_history_def act_simps Let_def is_ok_def)
      qed
    qed
  qed
qed

lemma history_unchanged:
  fixes s :: "'w authority"
  shows "au_events (snd (attempt (event_history_for P ns source) s)) = au_events s"
  by (simp add: event_history_for_def act_simps case_prod_beta
      split: option.split sum.split prod.split authority_error.split)

lemma safe_publish [safe_intros]:
  fixes P :: "'w ports"
  shows "safe P (publish_semantic_event_in P ns subject kind schema body)"
  unfolding safe_def
proof
  fix s :: "'w authority"
  show "au_steps P s (snd (publish_semantic_event_in P ns subject kind schema body s))"
  proof (cases "map_of (au_events s) ns")
    case (Some h)
    then have "history_step P ns (map_of (au_events s) ns) h" by (simp add: hs_keep)
    from publish_into_steps [OF this] show ?thesis
      by (simp add: publish_semantic_event_in_def bind_act_def gets_def Some)
  next
    case None
    let ?m = "attempt (event_history_for P ns (semantic_event_source_for P ns))"
    obtain r s1 where m: "?m s = (r, s1)" by (cases "?m s")
    have steps: "au_steps P s s1"
      using safe_attempt [OF safe_lookups(11)] m unfolding safe_def by (metis snd_conv)
    have ev: "map_of (au_events s1) ns = None"
      using history_unchanged [of P ns "semantic_event_source_for P ns" s] m None by simp
    show ?thesis
    proof (cases r)
      case (Inl e)
      then show ?thesis using steps m None
        by (simp add: publish_semantic_event_in_def bind_act_def gets_def)
    next
      case (Inr q)
      show ?thesis
      proof (cases q)
        case (Inl e)
        then show ?thesis using steps m None Inr
          by (simp add: publish_semantic_event_in_def bind_act_def gets_def ret_def)
      next
        case ok: (Inr events)
        let ?h = "\<lparr>eh_next_sequence = (if events = [] then Some 1
            else checked_add (ev_sequence (last events)) 1), eh_events = []\<rparr>"
        have "history_step P ns (map_of (au_events s1) ns) ?h" unfolding ev by (rule hs_seed)
        from publish_into_steps [OF this] steps
        have "au_steps P s (snd (publish_into P ns subject kind schema body ?h s1))" by (rule rtranclp_trans [rotated])
        then show ?thesis using m None Inr ok
          by (simp add: publish_semantic_event_in_def bind_act_def gets_def)
      qed
    qed
  qed
qed

lemma safe_publishers [safe_intros]:
  "safe P (publish_operation P ns i kind)"
  "safe P (publish_worker P ns i kind)"
  "safe P (publish_provider P ns i kind)"
  "safe P (publish_lease_revoked P ns i)"
  unfolding publish_operation_def publish_worker_def publish_provider_def publish_lease_revoked_def
  by (rule safe_publish)+

section \<open>Leases, workers and endpoints\<close>

lemma safe_purge [safe_intros]: "safe P (purge_endpoint_authority w)"
  by (rule safe_step) (simp add: purge_endpoint_authority_def Let_def st_endpoints kept_retain)

lemma safe_modify_leases [safe_intros]:
  "safe P (modify (\<lambda>s. s\<lparr>au_leases := bm_insert obj name (au_leases s)\<rparr>))"
  by (rule safe_step) (simp add: modify_def st_leases)

lemma safe_modify_grants:
  fixes P :: "'w ports"
  assumes "\<And>s. kept_under grant_identity (au_grants s) \<Longrightarrow> kept_under grant_identity (f s)"
  shows "safe P (modify (\<lambda>s. s\<lparr>au_grants := f s\<rparr>))"
proof (rule safe_step)
  fix s :: "'w authority"
  have "au_step P s (s\<lparr>au_endpoints := au_endpoints s, au_grants := f s\<rparr>)"
    by (rule st_endpoints [OF _ assms])
  then show "au_step P s (snd (modify (\<lambda>s. s\<lparr>au_grants := f s\<rparr>) s))" by (simp add: modify_def)
qed

lemma safe_store_endpoint [safe_intros]: "safe P (modify (store_endpoint ctx e))"
  by (rule safe_step)
    (simp add: modify_def store_endpoint_def st_endpoints kept_retain kept_insert
      AuthorityCallContext_object_ref_def)

lemma safe_remember_worker_operation [safe_intros]:
  fixes P :: "'w ports"
  assumes "worker_operation_id (op_identity op)"
  shows "safe P (remember_operation P ctx op)"
  unfolding remember_operation_def
proof (intro safe_intros)
  show "safe P (modify (\<lambda>s. s\<lparr>au_operations :=
      bm_insert (AuthorityCallContext_object_ref ctx (op_identity op)) op (au_operations s)\<rparr>))"
    by (rule safe_step)
      (use assms in \<open>simp add: modify_def st_worker_operation AuthorityCallContext_object_ref_def\<close>)
qed

lemma worker_operation_named:
  "worker_operation_id (op_identity (worker_operation ''operation/start/'' kind st w))"
  "worker_operation_id (op_identity (worker_operation ''operation/stop/'' kind st w))"
  by (auto simp: worker_operation_id_def worker_operation_def)

lemma safe_acquire [safe_intros]: "safe P (Authority_acquire_lease P ctx p holder query expires)"
  unfolding Authority_acquire_lease_def by (intro safe_intros)

lemma safe_renew [safe_intros]: "safe P (Authority_renew_lease P ctx p i f expires)"
  unfolding Authority_renew_lease_def by (intro safe_intros)

lemma safe_fail_then_reject [safe_intros]: "safe P (fail_then_reject name f e)"
  unfolding fail_then_reject_def by (intro safe_intros)

lemma safe_stop_holder [safe_intros]: "safe P (stop_holder P name f releasing retrying)"
  unfolding stop_holder_def by (intro safe_intros)

lemma safe_release [safe_intros]: "safe P (Authority_release_lease P ctx p i f)"
  unfolding Authority_release_lease_def release_with_cleanup_def by (intro safe_intros)

lemma safe_bindings [safe_intros]: "safe P (bindings_for P snapshot as)"
  by (induction "as") (simp_all, intro safe_intros, (intro safe_intros | assumption)+)

lemma safe_binding_for_lease [safe_intros]: "safe P (binding_for_lease P l)"
  unfolding binding_for_lease_def by (intro safe_intros)

lemma safe_preflight [safe_intros]: "safe P (preflight_binding P b)"
  unfolding preflight_binding_def by (intro safe_intros)

lemma safe_reap [safe_intros]: "safe P (reap_unrecorded P i l a e)"
  unfolding reap_unrecorded_def by (intro safe_intros)

lemma safe_show_worker [safe_intros]:
  fixes P :: "'w ports"
  shows "safe P (modify (\<lambda>s. s\<lparr>au_instances := bm_insert name p (au_instances s),
    au_workers := bm_insert obj name (au_workers s)\<rparr>))"
  unfolding safe_def
proof
  fix s :: "'w authority"
  let ?s = "s\<lparr>au_instances := bm_insert name p (au_instances s)\<rparr>"
  have "au_step P s ?s" by (rule st_instances) simp
  moreover have "au_step P ?s (?s\<lparr>au_workers := bm_insert obj name (au_workers ?s)\<rparr>)" by (rule st_workers)
  ultimately show "au_steps P s (snd (modify (\<lambda>s. s\<lparr>au_instances := bm_insert name p (au_instances s),
      au_workers := bm_insert obj name (au_workers s)\<rparr>) s))"
    by (simp add: modify_def)
qed

lemma safe_launch [safe_intros]: "safe P (launch_worker P ctx w l name a)"
  unfolding launch_worker_def by (intro safe_intros worker_operation_named)

lemma safe_start_worker [safe_intros]: "safe P (Authority_start_worker P ctx p w)"
  unfolding Authority_start_worker_def by (intro safe_intros)

lemma safe_stop_named [safe_intros]: "safe P (stop_named_worker P name wi li f grace releasing)"
  unfolding stop_named_worker_def by (intro safe_intros)

lemma safe_stop_worker [safe_intros]: "safe P (Authority_stop_worker P ctx p wi li f grace)"
  unfolding Authority_stop_worker_def by (intro safe_intros worker_operation_named)

lemma safe_beat [safe_intros]: "safe P (beat_worker P name w)"
  unfolding beat_worker_def by (intro safe_intros)

lemma safe_heartbeats [safe_intros]:
  "safe P (Authority_report_heartbeat P ctx p wi li f)"
  "safe P (accept_worker_control_heartbeat P ctx wi li f)"
  unfolding Authority_report_heartbeat_def accept_worker_control_heartbeat_def verify_worker_control_def
  by (intro safe_intros)+

lemma safe_endpoint_handlers [safe_intros]:
  "safe P (Authority_publish_endpoint P ctx p e)"
  "safe P (Authority_authorize_endpoint P ctx p g)"
  "safe P (Authority_revoke_endpoint P ctx p i)"
  unfolding Authority_publish_endpoint_def Authority_authorize_endpoint_def Authority_revoke_endpoint_def
  by (intro safe_intros safe_modify_grants |
      simp add: kept_insert kept_remove AuthorityCallContext_object_ref_def)+

lemma safe_read_events [safe_intros]: "safe P (Authority_read_events P ctx p cursor limit)"
  unfolding Authority_read_events_def read_events_page_def by (intro safe_intros)

lemma safe_snapshot_leases [safe_intros]: "safe P (snapshot_leases P ols)"
  by (induction P ols rule: snapshot_leases.induct) (simp_all, (intro safe_intros | assumption)+)

lemma safe_snapshot [safe_intros]: "safe P (Authority_snapshot P ctx p)"
  unfolding Authority_snapshot_def by (intro safe_intros)

section \<open>Operations\<close>

text \<open>
  An operation is read, checked and written without another step in between: a write is safe
  in the states where the check holds.
\<close>

definition safe_at :: "'w ports \<Rightarrow> 'w authority \<Rightarrow> ('w, 'a) act \<Rightarrow> bool" where
  "safe_at P s m \<longleftrightarrow> au_steps P s (snd (m s))"

lemma safe_at_all: "safe P m \<Longrightarrow> safe_at P s m"
  by (simp add: safe_def safe_at_def)

lemma safe_at_then: "safe_at P s m \<Longrightarrow> safe P n \<Longrightarrow> safe_at P s (then_act m n)"
proof -
  assume 1: "safe_at P s m" and 2: "safe P n"
  obtain r s' where m: "m s = (r, s')" by (cases "m s")
  have "au_steps P s' (snd (n s'))" using 2 by (simp add: safe_def)
  then show ?thesis using 1 m
    by (cases r) (auto simp: safe_at_def then_act_def bind_act_def)
qed

lemma safe_at_guard: "(c \<Longrightarrow> safe_at P s n) \<Longrightarrow> safe_at P s (then_act (guard c code msg) n)"
  by (cases c) (simp_all add: safe_at_def act_simps)

lemma safe_gets_at: "(\<And>s. safe_at P s (f (g s))) \<Longrightarrow> safe P (bind_act (gets g) f)"
  by (simp add: safe_at_def safe_def act_simps)

lemma safe_at_gets: "safe_at P s (f (g s)) \<Longrightarrow> safe_at P s (bind_act (gets g) f)"
  by (simp add: safe_at_def act_simps)

lemma put_operation_new:
  "map_of (au_operations s) (AuthorityCallContext_object_ref ctx (op_identity op)) = None \<Longrightarrow>
     safe_at P s (put_operation ctx op)"
  by (auto simp: safe_at_def put_operation_def modify_def AuthorityCallContext_object_ref_def
      intro!: r_into_rtranclp st_new_operation)

lemma put_operation_forward:
  "map_of (au_operations s) (AuthorityCallContext_object_ref ctx (op_identity op')) = Some op \<Longrightarrow>
     op_forward op op' \<Longrightarrow> safe_at P s (put_operation ctx op')"
  by (auto simp: safe_at_def put_operation_def modify_def AuthorityCallContext_object_ref_def
      intro!: r_into_rtranclp st_move_operation)

lemma safe_create_operation [safe_intros]:
  fixes P :: "'w ports"
  shows "safe P (Authority_create_operation P ctx p op)"
  unfolding Authority_create_operation_def
proof (rule safe_then [OF safe_lookups(1)], rule safe_then [OF safe_bind_namespace],
    rule safe_then [OF safe_guard], rule safe_gets_at)
  fix s :: "'w authority"
  let ?n = "bind_act (gets (newer_operation ctx (op_identity op))) (\<lambda>stale.
      then_act (guard (\<not> stale) ''STALE_GENERATION'' ''operation identity generation is stale'')
     (then_act (put_operation ctx op)
     (then_act (publish_operation P (ctx_namespace ctx) (op_identity op) ''operation.created'') (ret op))))"
  let ?o = "map_of (au_operations s) (AuthorityCallContext_object_ref ctx (op_identity op))"
  show "safe_at P s (case ?o of None \<Rightarrow> ?n
      | Some e \<Rightarrow> if e = op then ret e
          else reject ''OPERATION_EXISTS'' ''an operation with this identity already exists'')"
  proof (cases ?o)
    case None
    have "safe_at P s ?n"
      by (intro safe_at_gets safe_at_guard safe_at_then put_operation_new None safe_intros)
    then show ?thesis by (simp add: None)
  next
    case (Some e)
    then show ?thesis by (simp add: safe_at_all safe_intros)
  qed
qed

lemma bind_stored_operation:
  fixes P :: "'w ports"
  assumes "\<And>s op. map_of (au_operations s) (AuthorityCallContext_object_ref ctx i) = Some op \<Longrightarrow> safe_at P s (f op)"
  shows "safe P (bind_act (stored_operation ctx i) f)"
  unfolding safe_def
proof
  fix s :: "'w authority"
  show "au_steps P s (snd (bind_act (stored_operation ctx i) f s))"
    using assms [of s]
    by (cases "map_of (au_operations s) (AuthorityCallContext_object_ref ctx i)")
      (simp_all add: stored_operation_def act_simps safe_at_def)
qed

lemma safe_report_operation [safe_intros]:
  fixes P :: "'w ports"
  shows "safe P (Authority_report_operation P ctx p reported)"
  unfolding Authority_report_operation_def
proof (rule safe_then [OF safe_lookups(1)], rule safe_then [OF safe_owner], rule bind_stored_operation,
    rule safe_at_guard, rule safe_at_guard, rule safe_at_then)
  fix s :: "'w authority" and op
  assume stored: "map_of (au_operations s) (AuthorityCallContext_object_ref ctx (op_identity reported)) = Some op"
    and same: "op_owner op = op_owner reported \<and> op_executor op = op_executor reported \<and>
      op_kind op = op_kind reported \<and> op_deadline_unix_ms op = op_deadline_unix_ms reported \<and>
      op_parent op = op_parent reported"
    and fwd: "OperationState_can_transition_to (op_state op) (op_state reported)"
  show "safe_at P s (put_operation ctx reported)"
    by (rule put_operation_forward [OF stored]) (use same fwd in \<open>simp add: op_forward_def\<close>)
qed (intro safe_intros)

lemma safe_mark_cancelling_lost [safe_intros]:
  fixes P :: "'w ports"
  shows "safe P (mark_cancelling_operation_lost P ctx i)"
  unfolding mark_cancelling_operation_lost_def Let_def
proof (rule safe_gets_at)
  fix s :: "'w authority"
  let ?obj = "AuthorityCallContext_object_ref ctx i"
  show "safe_at P s (case map_of (au_operations s) ?obj of
      None \<Rightarrow> panic ''operation was checked before cancellation delivery''
    | Some op \<Rightarrow>
        then_act (modify (\<lambda>s. s\<lparr>au_operations := bm_update ?obj
            (\<lambda>_. if op_state op = OpCancelling then op\<lparr>op_state := OpLost\<rparr> else op) (au_operations s)\<rparr>))
       (then_act (if op_state (if op_state op = OpCancelling then op\<lparr>op_state := OpLost\<rparr> else op) = OpLost
           then publish_operation P (ctx_namespace ctx)
             (op_identity (if op_state op = OpCancelling then op\<lparr>op_state := OpLost\<rparr> else op)) ''operation.lost''
           else ret ())
        (ret (if op_state op = OpCancelling then op\<lparr>op_state := OpLost\<rparr> else op))))"
  proof (cases "map_of (au_operations s) ?obj")
    case None
    then show ?thesis by (simp add: safe_at_all safe_intros)
  next
    case (Some op)
    let ?op = "if op_state op = OpCancelling then op\<lparr>op_state := OpLost\<rparr> else op"
    have "op_forward op ?op" by (simp add: op_forward_def)
    then have "safe_at P s (modify (\<lambda>s. s\<lparr>au_operations := bm_update ?obj (\<lambda>_. ?op) (au_operations s)\<rparr>))"
      using st_update_operation [OF Some] by (simp add: safe_at_def modify_def r_into_rtranclp)
    then show ?thesis unfolding Some option.case by (rule safe_at_then) (intro safe_intros)
  qed
qed

lemma safe_deliver_cancel [safe_intros]: "safe P (deliver_cancel P op)"
  unfolding deliver_cancel_def by (intro safe_intros)

lemma safe_cancel_operation [safe_intros]:
  fixes P :: "'w ports"
  shows "safe P (Authority_cancel_operation P ctx p i)"
  unfolding Authority_cancel_operation_def
proof (rule safe_then [OF safe_lookups(1)], rule safe_then [OF safe_owner], rule bind_stored_operation)
  fix s :: "'w authority" and op
  assume stored: "map_of (au_operations s) (AuthorityCallContext_object_ref ctx i) = Some op"
  let ?c = "op\<lparr>op_state := OpCancelling\<rparr>"
  let ?put = "modify (\<lambda>s. s\<lparr>au_operations :=
      bm_insert (AuthorityCallContext_object_ref ctx i) ?c (au_operations s)\<rparr>) :: ('w, unit) act"
  have "safe_at P s ?put" if "OperationState_can_transition_to (op_state op) OpCancelling"
    using st_move_operation [OF stored, of ?c P] that
    by (simp add: safe_at_def modify_def op_forward_def r_into_rtranclp)
  then have "safe_at P s (then_act (guard (OperationState_can_transition_to (op_state op) OpCancelling)
        ''STATE_TRANSITION_INVALID'' ''operation cannot be cancelled from its current state'')
      (then_act ?put n))" if "safe P n" for n :: "('w, operation) act"
    using that by (intro safe_at_guard safe_at_then) auto
  note put = this
  show "safe_at P s (if op_state op = OpCancelling \<or> op_state op = OpCancelled then ret op
     else
       then_act (guard (OperationState_can_transition_to (op_state op) OpCancelling)
                   ''STATE_TRANSITION_INVALID'' ''operation cannot be cancelled from its current state'')
      (let cancelling = ?c in
       then_act (modify (\<lambda>s. s\<lparr>au_operations :=
           bm_insert (AuthorityCallContext_object_ref ctx i) cancelling (au_operations s)\<rparr>))
      (then_act (publish_operation P (ctx_namespace ctx) (op_identity cancelling)
                   (semantic_operation_event_kind OpCancelling))
      (bind_act (deliver_cancel P cancelling) (\<lambda>delivered.
       if delivered then ret cancelling
       else mark_cancelling_operation_lost P ctx (op_identity cancelling))))))"
  proof (cases "op_state op = OpCancelling \<or> op_state op = OpCancelled")
    case True
    then show ?thesis by (simp add: safe_at_all safe_ret)
  next
    case False
    show ?thesis unfolding Let_def if_not_P [OF False] by (rule put) (intro safe_intros)
  qed
qed

section \<open>Losses\<close>

lemma safe_lose_operations [safe_intros]:
  fixes P :: "'w ports"
  shows "safe P (lose_operations i)"
proof (rule safe_step)
  fix s :: "'w authority"
  let ?f = "\<lambda>op. if targets_worker i op then op\<lparr>op_state := OpLost\<rparr> else op"
  have "\<forall>op. op_forward op (?f op) \<and> op_identity (?f op) = op_identity op"
    by (simp add: op_forward_def targets_worker_def del: OperationState_can_transition_to.simps)
      (simp)
  from st_lose_operations [OF this, of P s] show "au_step P s (snd (lose_operations i s))"
    by (simp add: lose_operations_def)
qed

lemma safe_kill [safe_intros]: "safe P (kill_lost_process P name)"
  unfolding kill_lost_process_def by (intro safe_intros)

lemma safe_commit_lost [safe_intros]: "safe P (commit_worker_lost P ns name w l reason)"
  unfolding commit_worker_lost_def by (intro safe_intros)

lemma safe_mark_lost [safe_intros]: "safe P (mark_worker_lost P ctx i reason)"
  unfolding mark_worker_lost_def by (intro safe_intros)

lemma safe_ignore [safe_intros]: "safe P m \<Longrightarrow> safe P (ignore m)"
  unfolding ignore_def by (intro safe_intros)

lemma safe_expiry_parts [safe_intros]:
  "safe P (revoke_unless_revoked P l)"
  "safe P (expire_legacy_instance P l name p)"
  "safe P (expire_standalone P ns i l)"
  unfolding expire_legacy_instance_def expire_standalone_def revoke_unless_revoked_def
  by (intro safe_intros safe_modify_instances | simp)+

lemma safe_expire_one [safe_intros]: "safe P (expire_one P now l)"
  unfolding expire_one_def by (intro safe_intros)

lemma safe_expire_all [safe_intros]: "safe P (expire_all P now ls)"
  by (induction ls) (simp_all, (intro safe_intros | assumption)+)

lemma safe_enforce_expiry [safe_intros]: "safe P (enforce_lease_expiry P)"
  unfolding enforce_lease_expiry_def by (intro safe_intros)

section \<open>Providers\<close>

lemma provider_forward_refl [simp]: "provider_forward r r"
  by (simp add: provider_forward_def)

lemma put_provider_at:
  fixes s :: "'w authority"
  assumes "\<And>r. map_of (au_providers s) key = Some r \<Longrightarrow> provider_forward r r'"
  shows "safe_at P s (put_provider key r')"
  unfolding safe_at_def put_provider_def modify_def snd_conv
  by (rule r_into_rtranclp) (rule st_provider [OF assms])

lemma safe_register_provider [safe_intros]:
  fixes P :: "'w ports"
  shows "safe P (Authority_register_provider P ctx p v)"
  unfolding Authority_register_provider_def Let_def
proof (rule safe_then [OF safe_lookups(1)], rule safe_then [OF safe_guard],
    rule safe_then [OF safe_of_contract], rule safe_gets_at)
  fix s :: "'w authority"
  let ?key = "provider_key ctx (ident_id (prov_identity v))"
  let ?store = "then_act (put_provider ?key (fresh_record v p))
      (then_act (publish_provider P (ctx_namespace ctx) (prov_identity v) ''provider.registered'') (ret v))"
  have store: "safe_at P s ?store" if "\<And>r. map_of (au_providers s) ?key = Some r \<Longrightarrow>
      pv_principal r = p \<and>
      ident_generation (prov_identity (pv_provider r)) \<le> ident_generation (prov_identity v)"
    by (rule safe_at_then [OF put_provider_at])
      (use that in \<open>auto simp: provider_forward_def fresh_record_def intro!: safe_intros\<close>)
  show "safe_at P s (case map_of (au_providers s) ?key of
       None \<Rightarrow> ?store
     | Some current \<Rightarrow>
         if pv_principal current \<noteq> p
         then reject ''AUTHORITY_DENIED'' ''Provider session belongs to another authenticated Principal''
         else if ident_generation (prov_identity v) < ident_generation (prov_identity (pv_provider current))
         then reject ''STALE_GENERATION'' ''provider session generation is stale''
         else if ident_generation (prov_identity v) = ident_generation (prov_identity (pv_provider current))
         then
           if pv_provider current = v then ret (pv_provider current)
           else if prov_state (pv_provider current) \<noteq> ProviderUnavailable \<and>
                   prov_state v = ProviderUnavailable \<and>
                   prov_capabilities (pv_provider current) = prov_capabilities v
           then ?store
           else reject ''STALE_GENERATION'' ''provider session generation cannot change its facts or recover''
         else ?store)"
  proof (cases "map_of (au_providers s) ?key")
    case None
    then show ?thesis using store by simp
  next
    case (Some r)
    have r: "safe_at P s (reject c m :: ('w, provider) act)" "safe_at P s (ret v' :: ('w, provider) act)" for c m v'
      by (simp_all add: safe_at_all safe_intros)
    have "safe_at P s ?store" if "pv_principal r = p"
      "\<not> ident_generation (prov_identity v) < ident_generation (prov_identity (pv_provider r))"
      using store Some that by simp
    then show ?thesis using r by (simp add: Some)
  qed
qed

lemma safe_facts_provider [safe_intros]:
  fixes P :: "'w ports"
  shows "safe P (register_resource_facts_provider P ctx p v)"
  unfolding register_resource_facts_provider_def Let_def
proof (rule safe_bind [OF safe_register_provider], rule safe_gets_at)
  fix registered and s :: "'w authority"
  let ?key = "provider_key ctx (ident_id (prov_identity registered))"
  show "safe_at P s (case map_of (au_providers s) ?key of
      None \<Rightarrow> panic ''registered provider must remain present''
    | Some r \<Rightarrow> then_act (put_provider ?key (r\<lparr>pv_inventory_scope := ScopeResourceFactsOnly\<rparr>)) (ret registered))"
  proof (cases "map_of (au_providers s) ?key")
    case None
    then show ?thesis by (simp add: safe_at_all safe_intros)
  next
    case (Some r)
    show ?thesis unfolding Some option.case
      by (rule safe_at_then [OF put_provider_at]) (auto simp: Some provider_forward_def intro: safe_intros)
  qed
qed

text \<open>Reading a record and writing back a version of it that keeps principal and session.\<close>

lemma safe_provider_update:
  fixes P :: "'w ports"
  assumes "safe P missing"
    and "\<And>s r. map_of (au_providers s) key = Some r \<Longrightarrow> safe_at P s (f r)"
  shows "safe P (bind_act (gets (\<lambda>s. map_of (au_providers s) key)) (\<lambda>found.
    case found of None \<Rightarrow> missing | Some r \<Rightarrow> f r))"
proof (rule safe_gets_at)
  fix s :: "'w authority"
  show "safe_at P s (case map_of (au_providers s) key of None \<Rightarrow> missing | Some r \<Rightarrow> f r)"
    using assms by (cases "map_of (au_providers s) key") (simp_all add: safe_at_all)
qed

lemma put_same_session:
  fixes s :: "'w authority"
  assumes "map_of (au_providers s) key = Some r" and "pv_principal r' = pv_principal r"
    and "pv_provider r' = pv_provider r"
  shows "safe_at P s (put_provider key r')"
  by (rule put_provider_at) (use assms in \<open>auto simp: provider_forward_def\<close>)

lemma safe_publish_inventory [safe_intros]: "safe P (Authority_publish_inventory P ctx p snapshot)"
  unfolding Authority_publish_inventory_def Let_def
  by (rule safe_then [OF safe_lookups(1)], rule safe_then [OF safe_of_contract],
      rule safe_provider_update [OF safe_reject], rule safe_at_guard, rule safe_at_guard,
      rule safe_at_guard, rule safe_at_then, erule put_same_session) (simp_all add: safe_intros)

lemma safe_confirm [safe_intros]:
  fixes P :: "'w ports"
  shows "safe P (confirm_stale_worker_termination ctx p i g w terminated)"
  unfolding confirm_stale_worker_termination_def Let_def
proof (rule safe_then [OF safe_lookups(1)], rule safe_provider_update [OF safe_reject],
    rule safe_at_guard, rule safe_at_guard, rule safe_at_guard, cases terminated)
  fix s :: "'w authority" and r
  assume r: "map_of (au_providers s) (provider_key ctx (ident_id i)) = Some r" and t: terminated
  show "safe_at P s (if \<not> terminated then ret ()
      else then_act (guard (\<not> (case pv_inventory r of None \<Rightarrow> False
             | Some snapshot \<Rightarrow> list_ex (\<lambda>x. wk_identity x = w) (snap_workers snapshot)))
             ''PROVIDER_REALITY_STALE''
             ''a successful termination result requires a later complete snapshot without the Worker'')
        (put_provider (provider_key ctx (ident_id i))
          (r\<lparr>pv_pending_stale_workers := remove1 (w, g) (pv_pending_stale_workers r)\<rparr>)))"
    using t by (simp only: not_True_eq_False if_False simp_thms)
      (rule safe_at_guard, rule put_same_session [OF r], simp_all)
qed (simp add: safe_at_all safe_ret)

lemma safe_set_reconciled [safe_intros]: "safe P (set_reconciled key g)"
  unfolding set_reconciled_def
  by (rule safe_provider_update [OF safe_panic], erule put_same_session) simp_all

lemma safe_pend_stale [safe_intros]: "safe P (pend_stale_workers key g stale)"
  unfolding pend_stale_workers_def Let_def
  by (rule safe_provider_update [OF safe_panic], rule safe_at_then, erule put_same_session)
    (simp_all add: safe_intros)

text \<open>Between reading and writing the record the clock is read, which only moves the world.\<close>

lemma put_after_clock:
  fixes s :: "'w authority" and P :: "'w ports"
  assumes "map_of (au_providers s) key = Some r"
    and "\<And>e. pv_principal (g e) = pv_principal r \<and> pv_provider (g e) = pv_provider r"
    and "\<And>e. safe P (n e)"
  shows "safe_at P s (bind_act (case_option (ret False) (\<lambda>snapshot.
           bind_act (port (pt_now P)) (\<lambda>now. ret (h snapshot now))) i)
         (\<lambda>expired. then_act (put_provider key (g expired)) (n expired)))"
proof (cases i)
  case None
  have "safe_at P s (then_act (put_provider key (g False)) (n False))"
    by (rule safe_at_then [OF put_same_session [OF assms(1)]]) (simp_all add: assms)
  then show ?thesis using None by (simp add: safe_at_def act_simps)
next
  case (Some snapshot)
  obtain t w where now: "pt_now P (au_world s) = (t, w)" by (cases "pt_now P (au_world s)")
  let ?s = "s\<lparr>au_world := w\<rparr>" and ?e = "h snapshot t"
  have "map_of (au_providers ?s) key = Some r" using assms(1) by simp
  then have "safe_at P ?s (then_act (put_provider key (g ?e)) (n ?e))"
    by (rule safe_at_then [OF put_same_session]) (simp_all add: assms)
  moreover have "au_step P s ?s" by (rule st_world)
  ultimately show ?thesis
    using Some by (simp add: safe_at_def act_simps now converse_rtranclp_into_rtranclp)
qed

lemma safe_reconcile_input [safe_intros]: "safe P (reconcile_input P key p i)"
  unfolding reconcile_input_def Let_def
  by (rule safe_provider_update [OF safe_reject], rule safe_at_guard, rule safe_at_guard,
      erule put_after_clock) (simp_all add: safe_intros)

lemma safe_reconcile_workers [safe_intros]: "safe P (reconcile_workers P ctx r ws)"
  by (induction P ctx r ws rule: reconcile_workers.induct)
    (simp_all add: lease_still_valid_def, (intro safe_intros | assumption)+)

lemma safe_reconcile [safe_intros]: "safe P (Authority_reconcile_provider P ctx p i)"
  unfolding Authority_reconcile_provider_def reconcile_result_def by (intro safe_intros)

section \<open>The calls\<close>

text \<open>
  Everything that changes the authority: the calls of the \<open>AuthorityApi\<close> trait and the daemon's
  own entries (heartbeats and loss reports of the control channel, the expiry timer, the
  registration of fact providers, provider termination results).
\<close>

datatype au_call =
    CallAcquireLease authority_call_context principal identity resource_query u64
  | CallRenewLease authority_call_context principal identity u64 u64
  | CallReleaseLease authority_call_context principal identity u64
  | CallStartWorker authority_call_context principal worker
  | CallStopWorker authority_call_context principal identity identity u64 nat
  | CallReportHeartbeat authority_call_context principal identity identity u64
  | CallControlHeartbeat authority_call_context identity identity u64
  | CallCreateOperation authority_call_context principal operation
  | CallReportOperation authority_call_context principal operation
  | CallCancelOperation authority_call_context principal identity
  | CallCancellationLost authority_call_context identity
  | CallPublishEndpoint authority_call_context principal endpoint
  | CallAuthorizeEndpoint authority_call_context principal endpoint_grant
  | CallRevokeEndpoint authority_call_context principal identity
  | CallReadEvents authority_call_context principal event_cursor nat
  | CallSnapshot authority_call_context principal
  | CallWorkerLost authority_call_context identity string
  | CallEnforceExpiry
  | CallRegisterProvider authority_call_context principal provider
  | CallRegisterFactsProvider authority_call_context principal provider
  | CallPublishInventory authority_call_context principal provider_snapshot
  | CallConfirmTermination authority_call_context principal identity u64 identity bool
  | CallReconcileProvider authority_call_context principal identity

definition outcome :: "('w, 'a) act \<Rightarrow> ('w, unit) act" where
  "outcome m = then_act m (ret ())"

fun au_exec :: "'w ports \<Rightarrow> au_call \<Rightarrow> ('w, unit) act" where
  "au_exec P (CallAcquireLease ctx p holder q e) = outcome (Authority_acquire_lease P ctx p holder q e)"
| "au_exec P (CallRenewLease ctx p i f e) = outcome (Authority_renew_lease P ctx p i f e)"
| "au_exec P (CallReleaseLease ctx p i f) = outcome (Authority_release_lease P ctx p i f)"
| "au_exec P (CallStartWorker ctx p w) = outcome (Authority_start_worker P ctx p w)"
| "au_exec P (CallStopWorker ctx p i l f g) = outcome (Authority_stop_worker P ctx p i l f g)"
| "au_exec P (CallReportHeartbeat ctx p i l f) = outcome (Authority_report_heartbeat P ctx p i l f)"
| "au_exec P (CallControlHeartbeat ctx i l f) = outcome (accept_worker_control_heartbeat P ctx i l f)"
| "au_exec P (CallCreateOperation ctx p op) = outcome (Authority_create_operation P ctx p op)"
| "au_exec P (CallReportOperation ctx p op) = outcome (Authority_report_operation P ctx p op)"
| "au_exec P (CallCancelOperation ctx p i) = outcome (Authority_cancel_operation P ctx p i)"
| "au_exec P (CallCancellationLost ctx i) = outcome (mark_cancelling_operation_lost P ctx i)"
| "au_exec P (CallPublishEndpoint ctx p e) = outcome (Authority_publish_endpoint P ctx p e)"
| "au_exec P (CallAuthorizeEndpoint ctx p g) = outcome (Authority_authorize_endpoint P ctx p g)"
| "au_exec P (CallRevokeEndpoint ctx p i) = outcome (Authority_revoke_endpoint P ctx p i)"
| "au_exec P (CallReadEvents ctx p c n) = outcome (Authority_read_events P ctx p c n)"
| "au_exec P (CallSnapshot ctx p) = outcome (Authority_snapshot P ctx p)"
| "au_exec P (CallWorkerLost ctx i r) = outcome (mark_worker_lost P ctx i r)"
| "au_exec P CallEnforceExpiry = outcome (enforce_lease_expiry P)"
| "au_exec P (CallRegisterProvider ctx p v) = outcome (Authority_register_provider P ctx p v)"
| "au_exec P (CallRegisterFactsProvider ctx p v) = outcome (register_resource_facts_provider P ctx p v)"
| "au_exec P (CallPublishInventory ctx p s) = outcome (Authority_publish_inventory P ctx p s)"
| "au_exec P (CallConfirmTermination ctx p i g w t) =
     outcome (confirm_stale_worker_termination ctx p i g w t)"
| "au_exec P (CallReconcileProvider ctx p i) = outcome (Authority_reconcile_provider P ctx p i)"

fun au_run :: "'w ports \<Rightarrow> au_call list \<Rightarrow> 'w authority \<Rightarrow> 'w authority" where
  "au_run P [] s = s"
| "au_run P (c # cs) s = au_run P cs (snd (au_exec P c s))"

lemma safe_outcome [safe_intros]: "safe P m \<Longrightarrow> safe P (outcome m)"
  by (simp add: outcome_def safe_intros)

lemma safe_exec: "safe P (au_exec P c)"
  by (cases c) (simp_all only: au_exec.simps, (intro safe_intros)+)

lemma exec_steps: "au_steps P s (snd (au_exec P c s))"
  using safe_exec [of P c] unfolding safe_def by blast

lemma run_steps: "au_steps P s (au_run P cs s)"
  by (induction cs arbitrary: s) (auto intro: rtranclp_trans exec_steps)

end
