(* ===== verification/Authority_Invariants.thy ===== *)
theory Authority_Invariants
  imports Authority_Steps Ledger_Properties
begin

text \<open>
  What holds along every sequence of authority calls: namespaces keep their owner, event
  streams stay gap-free, operations and provider sessions only move forward, and lease fences
  never come back. Each is an invariant of the abstract steps, lifted to the calls.
\<close>

section \<open>Lifting step invariants to runs\<close>

lemma run_invariant:
  assumes "\<And>s s'. au_step P s s' \<Longrightarrow> I s \<Longrightarrow> I s'" and "I s"
  shows "I (au_run P cs s)"
proof -
  have "au_steps P s s' \<Longrightarrow> I s'" for s'
    by (induction rule: rtranclp_induct) (use assms in auto)
  then show ?thesis using run_steps by blast
qed

lemma run_append: "au_run P (cs @ ds) s = au_run P ds (au_run P cs s)"
  by (induction cs arbitrary: s) simp_all

section \<open>Namespaces\<close>

lemma owner_kept:
  assumes "map_of (au_owners s) ns = Some i"
  shows "map_of (au_owners (au_run P cs s)) ns = Some i"
  by (rule run_invariant [where I = "\<lambda>s. map_of (au_owners s) ns = Some i"])
    (use assms in \<open>auto elim!: au_step.cases\<close>)

text \<open>The calls made by a client on a namespace: their context and the authenticated caller.\<close>

fun namespace_call :: "au_call \<Rightarrow> (authority_call_context \<times> principal) option" where
  "namespace_call (CallAcquireLease ctx p _ _ _) = Some (ctx, p)"
| "namespace_call (CallRenewLease ctx p _ _ _) = Some (ctx, p)"
| "namespace_call (CallReleaseLease ctx p _ _) = Some (ctx, p)"
| "namespace_call (CallStartWorker ctx p _) = Some (ctx, p)"
| "namespace_call (CallStopWorker ctx p _ _ _ _) = Some (ctx, p)"
| "namespace_call (CallReportHeartbeat ctx p _ _ _) = Some (ctx, p)"
| "namespace_call (CallCreateOperation ctx p _) = Some (ctx, p)"
| "namespace_call (CallReportOperation ctx p _) = Some (ctx, p)"
| "namespace_call (CallCancelOperation ctx p _) = Some (ctx, p)"
| "namespace_call (CallPublishEndpoint ctx p _) = Some (ctx, p)"
| "namespace_call (CallAuthorizeEndpoint ctx p _) = Some (ctx, p)"
| "namespace_call (CallRevokeEndpoint ctx p _) = Some (ctx, p)"
| "namespace_call (CallReadEvents ctx p _ _) = Some (ctx, p)"
| "namespace_call (CallSnapshot ctx p) = Some (ctx, p)"
| "namespace_call _ = None"

lemma rejected_first:
  assumes "m s = (Inl e, s)"
  shows "then_act m n s = (Inl e, s)"
  using assms by (simp add: act_simps)

lemma context_passed:
  assumes "AuthorityCallContext_validate_for ctx ContractRevision_current = Inr ()"
  shows "then_act (validate_context ctx) n = n"
  by (rule ext) (simp add: act_simps validate_context_def assms)

lemma foreign_principal_denied:
  fixes s :: "'w authority"
  assumes "namespace_call c = Some (ctx, p)" and "map_of (au_owners s) (ctx_namespace ctx) = Some i"
    and "principal_identity p \<noteq> i"
    and "AuthorityCallContext_validate_for ctx ContractRevision_current = Inr ()"
  shows "au_exec P c s = (Inl (Rejected NAMESPACE_DENIED), s)"
proof -
  have "bind_namespace ctx p s = (Inl (Rejected NAMESPACE_DENIED), s)"
    "require_namespace_owner ctx p s = (Inl (Rejected NAMESPACE_DENIED), s)"
    using assms by (auto simp: bind_namespace_def require_namespace_owner_def)
  then have denied: "then_act (bind_namespace ctx p) n s = (Inl (Rejected NAMESPACE_DENIED), s)"
    "then_act (require_namespace_owner ctx p) n s = (Inl (Rejected NAMESPACE_DENIED), s)"
    for n :: "('w, 'x) act"
    by (simp_all add: rejected_first)
  show ?thesis
    using assms(1)
    by (cases c)
      (simp_all add: outcome_def rejected_first denied context_passed [OF assms(4)]
        Authority_acquire_lease_def Authority_renew_lease_def Authority_release_lease_def
        Authority_start_worker_def Authority_stop_worker_def Authority_report_heartbeat_def
        Authority_create_operation_def Authority_report_operation_def Authority_cancel_operation_def
        Authority_publish_endpoint_def Authority_authorize_endpoint_def Authority_revoke_endpoint_def
        Authority_read_events_def Authority_snapshot_def)
qed

section \<open>Event streams\<close>

definition successive :: "event list \<Rightarrow> bool" where
  "successive es \<longleftrightarrow>
     (\<forall>i. Suc i < length es \<longrightarrow> checked_add (ev_sequence (es ! i)) 1 = Some (ev_sequence (es ! Suc i)))"

definition stream_ok :: "'w ports \<Rightarrow> namespace_id \<Rightarrow> namespace_event_history \<Rightarrow> bool" where
  "stream_ok P ns h \<longleftrightarrow>
     length (eh_events h) \<le> OPERATION_EVENT_HISTORY_CAPACITY \<and> successive (eh_events h) \<and>
     (\<forall>e\<in>set (eh_events h). Event_validate e = Inr () \<and> ev_source e = semantic_event_source_for P ns) \<and>
     (\<forall>n. eh_next_sequence h = Some n \<and> eh_events h \<noteq> [] \<longrightarrow>
        checked_add (ev_sequence (last (eh_events h))) 1 = Some n)"

lemma successive_tl: "successive es \<Longrightarrow> successive (tl es)"
  unfolding successive_def by (auto simp: nth_tl)

lemma successive_snoc:
  assumes "successive es" and "es \<noteq> [] \<Longrightarrow> checked_add (ev_sequence (last es)) 1 = Some (ev_sequence e)"
  shows "successive (es @ [e])"
  unfolding successive_def
proof (intro allI impI)
  fix i assume i: "Suc i < length (es @ [e])"
  show "checked_add (ev_sequence ((es @ [e]) ! i)) 1 = Some (ev_sequence ((es @ [e]) ! Suc i))"
  proof (cases "Suc i < length es")
    case True
    then show ?thesis using assms(1) by (simp add: successive_def nth_append)
  next
    case False
    then have l: "length es = Suc i" using i by simp
    then have "es \<noteq> []" by auto
    then show ?thesis using assms(2) l by (simp add: nth_append last_conv_nth)
  qed
qed

lemma history_step_ok:
  assumes "history_step P ns h0 h" and "\<And>h. h0 = Some h \<Longrightarrow> stream_ok P ns h"
  shows "stream_ok P ns h"
  using assms(1)
proof cases
  case (hs_append h' e)
  let ?es = "if length (eh_events h') = OPERATION_EVENT_HISTORY_CAPACITY then tl (eh_events h') else eh_events h'"
  have ok: "stream_ok P ns h'" using assms(2) hs_append by simp
  have sub: "set ?es \<subseteq> set (eh_events h')" by (cases "eh_events h'") auto
  have len: "length ?es < OPERATION_EVENT_HISTORY_CAPACITY"
    using ok by (auto simp: stream_ok_def OPERATION_EVENT_HISTORY_CAPACITY_def)
  have l: "?es \<noteq> [] \<Longrightarrow> last ?es = last (eh_events h') \<and> eh_events h' \<noteq> []"
    by (cases "eh_events h'") (auto split: if_splits)
  have "successive (?es @ [e])"
  proof (rule successive_snoc)
    show "successive ?es" using ok successive_tl by (simp add: stream_ok_def)
    show "?es \<noteq> [] \<Longrightarrow> checked_add (ev_sequence (last ?es)) 1 = Some (ev_sequence e)"
      using l ok hs_append(3) by (auto simp: stream_ok_def)
  qed
  then show ?thesis
    using ok sub len hs_append unfolding stream_ok_def push_event_def by auto
qed (use assms(2) in \<open>auto simp: stream_ok_def successive_def\<close>)

lemma streams_ok:
  assumes "\<And>ns h. map_of (au_events s) ns = Some h \<Longrightarrow> stream_ok P ns h"
    and "map_of (au_events (au_run P cs s)) ns = Some h"
  shows "stream_ok P ns h"
proof -
  let ?I = "\<lambda>s. \<forall>ns h. map_of (au_events s) ns = Some h \<longrightarrow> stream_ok P ns h"
  have "?I (au_run P cs s)"
  proof (rule run_invariant [where I = ?I])
    fix s s' assume "au_step P s s'" and I: "?I s"
    then show "?I s'"
    proof cases
      case (st_history ns h)
      then have "stream_ok P ns h" using history_step_ok I by blast
      then show ?thesis using st_history I by auto
    qed (use I in auto)
  qed (use assms(1) in auto)
  then show ?thesis using assms(2) by blast
qed

lemma degraded_kept:
  assumes "map_of (au_events s) ns = Some h" and "eh_next_sequence h = None"
  shows "map_of (au_events (au_run P cs s)) ns = Some h"
proof (rule run_invariant [where I = "\<lambda>s. map_of (au_events s) ns = Some h"])
  fix s s' assume "au_step P s s'" and I: "map_of (au_events s) ns = Some h"
  then show "map_of (au_events s') ns = Some h"
  proof cases
    case (st_history m h')
    then show ?thesis using I assms(2) by (auto elim!: history_step.cases)
  qed (use I in auto)
qed (rule assms(1))

section \<open>Operations and providers\<close>

definition op_later :: "operation \<Rightarrow> operation \<Rightarrow> bool" where
  "op_later op op' \<longleftrightarrow>
     op_owner op' = op_owner op \<and> op_executor op' = op_executor op \<and>
     op_kind op' = op_kind op \<and> op_deadline_unix_ms op' = op_deadline_unix_ms op \<and>
     op_parent op' = op_parent op \<and> OperationState_can_transition_to\<^sup>*\<^sup>* (op_state op) (op_state op')"

lemma op_later_refl [simp]: "op_later op op"
  by (simp add: op_later_def)

lemma op_later_forward: "op_later op op1 \<Longrightarrow> op_forward op1 op2 \<Longrightarrow> op_later op op2"
  by (auto simp: op_later_def op_forward_def intro: rtranclp.rtrancl_into_rtrancl)

lemma operations_later:
  assumes "map_of (au_operations s) obj = Some op" and "\<not> worker_operation_id (or_identity obj)"
  shows "\<exists>op'. map_of (au_operations (au_run P cs s)) obj = Some op' \<and> op_later op op'"
proof (rule run_invariant [where I = "\<lambda>s. \<exists>op'. map_of (au_operations s) obj = Some op' \<and> op_later op op'"])
  fix s s' assume st: "au_step P s s'"
    and "\<exists>op1. map_of (au_operations s) obj = Some op1 \<and> op_later op op1"
  then obtain op1 where I: "map_of (au_operations s) obj = Some op1" "op_later op op1" by blast
  from st show "\<exists>op'. map_of (au_operations s') obj = Some op' \<and> op_later op op'"
  proof cases
    case (st_lose_operations f)
    then have "op_later op (f op1)" using I(2) op_later_forward by blast
    then show ?thesis using I st_lose_operations by (simp add: map_of_map)
  qed (use I assms(2) op_later_forward in auto)
qed (use assms(1) in simp)

lemma provider_sessions:
  assumes "map_of (au_providers s) key = Some r"
  shows "\<exists>r'. map_of (au_providers (au_run P cs s)) key = Some r' \<and> provider_forward r r'"
proof (rule run_invariant [where I = "\<lambda>s. \<exists>r'. map_of (au_providers s) key = Some r' \<and> provider_forward r r'"])
  fix s s' assume st: "au_step P s s'"
    and "\<exists>r1. map_of (au_providers s) key = Some r1 \<and> provider_forward r r1"
  then obtain r1 where I: "map_of (au_providers s) key = Some r1" "provider_forward r r1" by blast
  from st show "\<exists>r'. map_of (au_providers s') key = Some r' \<and> provider_forward r r'"
  proof cases
    case (st_provider key' r')
    show ?thesis
    proof (cases "key' = key")
      case True
      then have "provider_forward r1 r'" using st_provider I(1) by blast
      then have "provider_forward r r'" using I(2) by (auto simp: provider_forward_def)
      then show ?thesis using st_provider True by simp
    qed (use I st_provider in simp)
  qed (use I in auto)
qed (use assms in simp)

section \<open>Well-formed state\<close>

text \<open>Every lease is filed under its own name, in a map without duplicates.\<close>

definition named_ledger :: "rm_state \<Rightarrow> bool" where
  "named_ledger l \<longleftrightarrow> bm_ok (rm_leases l) \<and> (\<forall>n x. map_of (rm_leases l) n = Some x \<longrightarrow> rl_name x = n)"

lemma named_expire: "named_ledger l \<Longrightarrow> named_ledger (expire_due_leases now l)"
  by (auto simp: named_ledger_def map_of_expire) (simp add: expire_due_leases_def bm_ok_map_values)

lemma named_store:
  "named_ledger l \<Longrightarrow> fenced_lookup l n f = Inr x \<Longrightarrow> rl_name x' = rl_name x \<Longrightarrow>
     named_ledger (store_lease n x' l)"
  by (auto simp: named_ledger_def fenced_lookup_Inr split: if_splits)

lemma named_cong: "rm_leases l' = rm_leases l \<Longrightarrow> named_ledger l' = named_ledger l"
  by (simp add: named_ledger_def)

lemma named_acquire:
  assumes "named_ledger l"
  shows "named_ledger (snd (acquire_lease now now' req l))"
proof (rule acquire_lease_state [of now now' req l])
  fix e assume "acquire_lease now now' req l = (Inl e, expire_due_leases now l)"
  then show ?thesis using named_expire [OF assms] by simp
next
  fix x c
  assume r: "acquire_lease now now' req l = (Inr x, grant_state (rr_lease_name req) x c (expire_due_leases now l))"
    and x: "x = granted_lease req c (expire_due_leases now l)"
  have "rl_name x = rr_lease_name req" unfolding x by (simp add: granted_lease_def)
  then show ?thesis
    using named_expire [OF assms] by (simp add: r named_ledger_def grant_state_def)
qed

lemma named_revoke:
  assumes "named_ledger l"
  shows "named_ledger (snd (revoke now name f l))"
proof (rule revoke_state [of now name f l])
  fix e assume "revoke now name f l = (Inl e, expire_due_leases now l)"
  then show ?thesis using named_expire [OF assms] by simp
next
  fix x g
  assume x: "map_of (rm_leases (expire_due_leases now l)) name = Some x"
    and r: "revoke now name f l =
      (Inr (x\<lparr>rl_fence_token := g, rl_state := LRevoked\<rparr>),
       store_lease name (x\<lparr>rl_fence_token := g, rl_state := LRevoked\<rparr>)
         ((expire_due_leases now l)\<lparr>rm_next_fence_token := saturating_add g 1\<rparr>))"
  show ?thesis
    using named_expire [OF assms, of now] x by (auto simp: r named_ledger_def split: if_splits)
qed

lemma named_fenced:
  assumes "named_ledger l"
  shows "named_ledger (snd (renew_lease now n f e l))" and "named_ledger (snd (begin_release now n f l))"
    and "named_ledger (snd (complete_release n f l))" and "named_ledger (snd (fail_release n f l))"
    and "named_ledger (snd (complete_revocation n f l))"
proof -
  note expired = named_expire [OF assms, of now]
  show "named_ledger (snd (renew_lease now n f e l))" "named_ledger (snd (begin_release now n f l))"
    using expired
    by (cases "fenced_lookup (expire_due_leases now l) n f";
        auto simp: renew_lease_def begin_release_def Let_def intro: named_store)+
  have free: "named_ledger (free_allocations x l) = named_ledger l" for x by (rule named_cong) simp
  show "named_ledger (snd (fail_release n f l))" "named_ledger (snd (complete_release n f l))"
    "named_ledger (snd (complete_revocation n f l))"
    using assms
    by (cases "fenced_lookup l n f";
        auto simp: complete_release_def fail_release_def complete_revocation_def Let_def free
          intro: named_store)+
qed

lemma named_exec: "named_ledger l \<Longrightarrow> named_ledger (rm_exec c l)"
  by (cases c)
    (simp_all add: named_acquire named_revoke named_fenced get_lease_def leases_def Let_def named_expire
      named_cong [of "snd (refresh_inventory _ l)"] named_cong [of "snd (quarantine _ _ l)"])

definition well_formed :: "'w authority \<Rightarrow> bool" where
  "well_formed s \<longleftrightarrow>
     named_ledger (au_ledger s) \<and> bm_ok (au_instances s) \<and> bm_ok (au_workers s) \<and> bm_ok (au_leases s) \<and>
     bm_ok (au_events s) \<and> bm_ok (au_providers s) \<and> bm_ok (au_owners s) \<and>
     kept_under op_identity (au_operations s) \<and> kept_under ep_identity (au_endpoints s) \<and>
     kept_under grant_identity (au_grants s)"

lemma kept_update:
  "kept_under f m \<Longrightarrow> map_of m k = Some v \<Longrightarrow> f v' = f v \<Longrightarrow> kept_under f (bm_update k (\<lambda>_. v') m)"
  by (auto simp: kept_under_def)

lemma kept_map_values:
  "kept_under f m \<Longrightarrow> \<forall>v. f (g v) = f v \<Longrightarrow> kept_under f (map (\<lambda>(k, v). (k, g v)) m)"
  by (auto simp: kept_under_def bm_ok_map_values map_of_map_values)

lemma well_formed_step:
  assumes "au_step P s s'" and "well_formed s"
  shows "well_formed s'"
  using assms(1)
proof cases
  case (st_ledger c)
  then show ?thesis using assms(2) named_exec by (simp add: well_formed_def)
next
  case (st_new_operation obj op)
  then show ?thesis using assms(2) by (simp add: well_formed_def kept_insert)
next
  case (st_move_operation obj op op')
  then have "op_identity op' = or_identity obj"
    using assms(2) by (auto simp: well_formed_def kept_under_def)
  then show ?thesis using assms(2) st_move_operation by (simp add: well_formed_def kept_insert)
next
  case (st_update_operation obj op op')
  then show ?thesis using assms(2) by (simp add: well_formed_def kept_update [of _ _ _ op])
next
  case (st_worker_operation obj op)
  then show ?thesis using assms(2) by (simp add: well_formed_def kept_insert)
next
  case (st_lose_operations f)
  then show ?thesis using assms(2) by (simp add: well_formed_def kept_map_values)
qed (use assms(2) in \<open>simp_all add: well_formed_def\<close>)

lemma well_formed_run: "well_formed s \<Longrightarrow> well_formed (au_run P cs s)"
  using run_invariant [where I = well_formed] well_formed_step by blast

lemma well_formed_new: "well_formed (authority_new (with_next_fence_token rs n) w)"
  by (simp add: well_formed_def authority_new_def named_ledger_def kept_under_def with_next_fence_token_def)

section \<open>Fences\<close>

lemma lease_fence_mono:
  assumes "map_of (rm_leases (au_ledger s)) n = Some l"
  shows "\<exists>l'. map_of (rm_leases (au_ledger (au_run P cs s))) n = Some l' \<and>
    rl_name l' = rl_name l \<and> rl_fence_token l \<le> rl_fence_token l'"
proof (rule run_invariant [where I = "\<lambda>s. \<exists>l'. map_of (rm_leases (au_ledger s)) n = Some l' \<and>
    rl_name l' = rl_name l \<and> rl_fence_token l \<le> rl_fence_token l'"])
  fix s s' assume st: "au_step P s s'" and I: "\<exists>l'. map_of (rm_leases (au_ledger s)) n = Some l' \<and>
    rl_name l' = rl_name l \<and> rl_fence_token l \<le> rl_fence_token l'"
  from st show "\<exists>l'. map_of (rm_leases (au_ledger s')) n = Some l' \<and>
    rl_name l' = rl_name l \<and> rl_fence_token l \<le> rl_fence_token l'"
  proof cases
    case (st_ledger c)
    then show ?thesis using I evolve_exec [of "au_ledger s" c]
      by (fastforce simp: leases_evolve_def evolves_def)
  qed (use I in auto)
qed (use assms in simp)

text \<open>Changes that touch only the clock, the journal and the recorded expiry of leases.\<close>

definition expiry_only :: "rm_state \<Rightarrow> rm_state \<Rightarrow> bool" where
  "expiry_only l l' \<longleftrightarrow> rm_allocated l' = rm_allocated l \<and>
     (\<forall>n. map_option (\<lambda>x. (rl_name x, rl_fence_token x)) (map_of (rm_leases l') n) =
          map_option (\<lambda>x. (rl_name x, rl_fence_token x)) (map_of (rm_leases l) n))"

definition calm :: "'w authority \<Rightarrow> 'w authority \<Rightarrow> bool" where
  "calm s s' \<longleftrightarrow> (\<exists>l w. s' = s\<lparr>au_ledger := l, au_world := w\<rparr> \<and> expiry_only (au_ledger s) l)"

abbreviation calm_act :: "('w, 'a) act \<Rightarrow> bool" where
  "calm_act \<equiv> keeps calm"

abbreviation fails_at :: "'w authority \<Rightarrow> ('w, 'a) act \<Rightarrow> bool" where
  "fails_at \<equiv> fails_under calm"

lemmas calm_act_def = keeps_def and fails_at_def = fails_under_def

named_theorems calm_intros "actions that touch only clock, journal and recorded expiry"

lemma expiry_only_refl [simp]: "expiry_only l l"
  by (simp add: expiry_only_def)

lemma expiry_only_expire [simp]: "expiry_only l (expire_due_leases now l)"
  by (simp add: expiry_only_def map_of_expire option.map_comp o_def expire_lease_def if_distrib cong: if_cong)

lemma calm_refl [simp]: "calm s s"
proof -
  have "s = s\<lparr>au_ledger := au_ledger s, au_world := au_world s\<rparr>" by simp
  then show ?thesis unfolding calm_def using expiry_only_refl by blast
qed

lemma expiry_only_trans: "expiry_only l l1 \<Longrightarrow> expiry_only l1 l2 \<Longrightarrow> expiry_only l l2"
  by (simp add: expiry_only_def)

lemma calm_trans:
  assumes "calm s s1" and "calm s1 s2"
  shows "calm s s2"
proof -
  obtain l w where 1: "s1 = s\<lparr>au_ledger := l, au_world := w\<rparr>" "expiry_only (au_ledger s) l"
    using assms(1) unfolding calm_def by blast
  obtain l' w' where 2: "s2 = s1\<lparr>au_ledger := l', au_world := w'\<rparr>" "expiry_only (au_ledger s1) l'"
    using assms(2) unfolding calm_def by blast
  have "s2 = s\<lparr>au_ledger := l', au_world := w'\<rparr>" "expiry_only (au_ledger s) l'"
    using 1 2 expiry_only_trans by auto
  then show ?thesis unfolding calm_def by blast
qed

interpretation calmly: action_frame calm
  using calm_trans by unfold_locales simp_all

declare calmly.frame_intros [calm_intros]

lemma calm_port [calm_intros]: "calm_act (port f)"
proof -
  have "calm s (s\<lparr>au_world := w\<rparr>)" for s :: "'a authority" and w
    unfolding calm_def by (rule exI [of _ "au_ledger s"], rule exI [of _ w]) simp
  then show ?thesis by (simp add: calm_act_def act_simps split: prod.split)
qed

lemma calm_ledger:
  assumes "\<And>l. expiry_only l (snd (f l))"
  shows "calm_act (ledger f :: ('w, 'a) act)"
proof -
  have "calm s (s\<lparr>au_ledger := snd (f (au_ledger s))\<rparr>)" for s :: "'w authority"
    unfolding calm_def using assms
    by (intro exI [of _ "snd (f (au_ledger s))"] exI [of _ "au_world s"]) simp
  then show ?thesis by (simp add: calm_act_def ledger_def case_prod_beta)
qed

lemma calm_lookups [calm_intros]:
  "calm_act (daemon_lease P name)" "calm_act (lease_for P ctx i)" "calm_act (or_expired P c l)"
  "calm_act (record_runtime P e n l' r)" "calm_act (worker_instance_name ctx i)"
  "calm_act (stored_worker name m)" "calm_act (endpoint_owner ctx i m)"
  "calm_act (stored_endpoint ctx i e')"
  unfolding lease_for_def daemon_lease_def or_expired_def record_runtime_def
    worker_instance_name_def stored_worker_def endpoint_owner_def stored_endpoint_def
  by (intro calm_intros calm_ledger | simp add: get_lease_def Let_def)+

section \<open>Calls under a stale fence\<close>

text \<open>The lease filed under the name exists and carries another token.\<close>

definition refenced :: "string \<Rightarrow> u64 \<Rightarrow> 'w authority \<Rightarrow> bool" where
  "refenced n f s \<longleftrightarrow>
     (\<exists>l. map_of (rm_leases (au_ledger s)) n = Some l \<and> rl_name l = n \<and> rl_fence_token l \<noteq> f)"

definition filed :: "object_ref \<Rightarrow> string \<Rightarrow> u64 \<Rightarrow> 'w authority \<Rightarrow> bool" where
  "filed obj n f s \<longleftrightarrow> map_of (au_leases s) obj = Some n \<and> refenced n f s"

lemma refenced_calm:
  assumes "refenced n f s" and "calm s s'"
  shows "refenced n f s'"
proof -
  obtain l where l: "map_of (rm_leases (au_ledger s)) n = Some l" "rl_name l = n" "rl_fence_token l \<noteq> f"
    using assms(1) unfolding refenced_def by blast
  have "expiry_only (au_ledger s) (au_ledger s')" using assms(2) by (auto simp: calm_def)
  then have "map_option (\<lambda>x. (rl_name x, rl_fence_token x)) (map_of (rm_leases (au_ledger s')) n) =
      Some (n, rl_fence_token l)"
    using l by (simp add: expiry_only_def)
  then show ?thesis using l(3) by (auto simp: refenced_def)
qed

lemma filed_calm:
  assumes "filed obj n f s" and "calm s s'"
  shows "filed obj n f s'"
proof -
  have "au_leases s' = au_leases s" using assms(2) by (auto simp: calm_def)
  then show ?thesis using assms refenced_calm unfolding filed_def by metis
qed

lemma fails_with_lease:
  assumes "filed (AuthorityCallContext_object_ref ctx i) n f s"
    and "\<And>l s'. rl_name l = n \<Longrightarrow> rl_fence_token l \<noteq> f \<Longrightarrow> refenced n f s' \<Longrightarrow> fails_at s' (g l)"
  shows "fails_at s (bind_act (lease_for P ctx i) g)"
proof (rule calmly.fails_bind [OF calm_lookups(2)])
  fix l s' assume r: "lease_for P ctx i s = (Inr l, s')" and c: "calm s s'"
  obtain l0 where l0: "map_of (rm_leases (au_ledger s)) n = Some l0" "rl_name l0 = n" "rl_fence_token l0 \<noteq> f"
    using assms(1) unfolding filed_def refenced_def by blast
  have "\<exists>t. l = expire_lease t l0"
    using r assms(1) l0(1)
    by (auto simp: lease_for_def filed_def daemon_lease_def act_simps get_lease_def Let_def map_of_expire
        map_err_def ok_or_def split: prod.splits sum.splits)
  then have "rl_name l = n \<and> rl_fence_token l \<noteq> f" 
    using l0 by (auto simp: expire_lease_def split: if_splits)
  moreover have "refenced n f s'" using filed_calm [OF assms(1) c] by (simp add: filed_def)
  ultimately show "fails_at s' (g l)" using assms(2) by blast
qed

lemma fails_ledger:
  assumes "\<exists>e. g (au_ledger s) = (Inl e, expire_due_leases t (au_ledger s))"
  shows "fails_at s (bind_act (ledger g) of_provider)"
proof -
  have "calm s (s\<lparr>au_ledger := expire_due_leases t (au_ledger s)\<rparr>)"
    unfolding calm_def
    by (intro exI [of _ "expire_due_leases t (au_ledger s)"] exI [of _ "au_world s"]) simp
  then show ?thesis using assms by (auto simp: fails_at_def act_simps map_err_def)
qed

lemma refenced_calls_fail:
  assumes "refenced n f s"
  shows "fails_at s (daemon_renew_lease P n f e)" and "fails_at s (daemon_begin_release P n f)"
proof -
  have "fails_at s' (bind_act (ledger (renew_lease now n f e)) of_provider) \<and>
      fails_at s' (bind_act (ledger (begin_release now n f)) of_provider)" if "calm s s'" for s' now
  proof -
    from refenced_calm [OF assms that] obtain l
      where "map_of (rm_leases (au_ledger s')) n = Some l" "rl_fence_token l \<noteq> f"
      unfolding refenced_def by blast
    then show ?thesis
      by (intro conjI fails_ledger [where t = now] renewing.stale_token_rejected
          begin_releasing.stale_token_rejected)
  qed
  then show "fails_at s (daemon_renew_lease P n f e)" "fails_at s (daemon_begin_release P n f)"
    unfolding daemon_renew_lease_def daemon_begin_release_def
    by (blast intro: calmly.fails_bind [OF calm_port])+
qed

lemmas stale_renewal_fails = fails_first [OF refenced_calls_fail(1)]
lemmas stale_release_fails = fails_first [OF refenced_calls_fail(2)]

text \<open>The calls that present a fence token: their context, lease and token.\<close>

fun fenced_call :: "au_call \<Rightarrow> (authority_call_context \<times> identity \<times> u64) option" where
  "fenced_call (CallRenewLease ctx _ i f _) = Some (ctx, i, f)"
| "fenced_call (CallReleaseLease ctx _ i f) = Some (ctx, i, f)"
| "fenced_call (CallStopWorker ctx _ _ i f _) = Some (ctx, i, f)"
| "fenced_call (CallReportHeartbeat ctx _ _ i f) = Some (ctx, i, f)"
| "fenced_call (CallControlHeartbeat ctx _ i f) = Some (ctx, i, f)"
| "fenced_call (CallAuthorizeEndpoint ctx _ g) = Some (ctx, grant_lease g, grant_fence_token g)"
| "fenced_call _ = None"

lemmas fails_intros = calmly.fails_then [OF calmly.keeps_validate_context]
  calmly.fails_then [OF calmly.keeps_require_owner]

lemmas fails_past_guard = calmly.fails_then [OF calmly.keeps_guard]

lemma stale_lease_calls:
  assumes "filed (AuthorityCallContext_object_ref ctx i) n f s"
  shows "fails_at s (Authority_renew_lease P ctx p i f e)"
    and "fails_at s (Authority_release_lease P ctx p i f)"
    and "fails_at s (Authority_stop_worker P ctx p w i f grace)"
    and "fails_at s (Authority_report_heartbeat P ctx p w i f)"
    and "fails_at s (accept_worker_control_heartbeat P ctx w i f)"
proof -
  note filed = filed_calm [OF filed_calm [OF assms]]
  have "fails_at s (verify_worker_control P ctx w i f)"
    unfolding verify_worker_control_def
    by (intro fails_intros fails_with_lease [OF filed_calm [OF assms]] calmly.fails_guard) simp_all
  then show "fails_at s (accept_worker_control_heartbeat P ctx w i f)"
    unfolding accept_worker_control_heartbeat_def by (rule fails_first_then)
  show "fails_at s (Authority_renew_lease P ctx p i f e)"
    unfolding Authority_renew_lease_def
    by (intro fails_intros fails_with_lease [OF filed] fails_past_guard)
      (auto intro: stale_renewal_fails refenced_calm)
  show "fails_at s (Authority_release_lease P ctx p i f)"
    unfolding Authority_release_lease_def release_with_cleanup_def
    by (intro fails_intros fails_with_lease [OF filed] fails_past_guard
        calmly.fails_then [OF calm_lookups(4)])
      (auto intro: stale_release_fails refenced_calm)
  show "fails_at s (Authority_stop_worker P ctx p w i f grace)"
    unfolding Authority_stop_worker_def
    by (intro fails_intros fails_with_lease [OF filed] calmly.fails_bind [OF calm_lookups(5)] calmly.fails_guard) simp_all
  have "or_expired P c l s' = (Inr b, s'') \<Longrightarrow> c \<Longrightarrow> b" for c l b and s' s'' :: "'a authority"
    by (simp add: or_expired_def act_simps)
  then show "fails_at s (Authority_report_heartbeat P ctx p w i f)"
    unfolding Authority_report_heartbeat_def
    by (intro fails_intros fails_with_lease [OF filed] calmly.fails_bind [OF calm_lookups(3)] calmly.fails_guard) blast+
qed

lemma stale_grant_call:
  assumes "filed (AuthorityCallContext_object_ref ctx (grant_lease g)) n (grant_fence_token g) s"
  shows "fails_at s (Authority_authorize_endpoint P ctx p g)"
  unfolding Authority_authorize_endpoint_def
  by (rule fails_intros, rule fails_intros, rule calmly.fails_bind [OF calm_lookups(8)],
      rule calmly.fails_bind [OF calm_lookups(7)], rule fails_past_guard,
      rule fails_with_lease [OF filed_calm [OF filed_calm [OF filed_calm [OF filed_calm [OF filed_calm [OF assms]]]]]],
      assumption+, rule fails_past_guard, rule calmly.fails_guard, simp)

lemma fails_outcome: "fails_at s m \<Longrightarrow> fails_at s (outcome m)"
  by (simp add: outcome_def fails_first_then)

lemma stale_call_fails:
  assumes "fenced_call c = Some (ctx, i, f)" and "filed (AuthorityCallContext_object_ref ctx i) n f s"
  shows "fails_at s (au_exec P c)"
  using assms by (cases c) (auto intro!: fails_outcome stale_lease_calls stale_grant_call)

end
