(* ===== verification/Authority_Properties.thy ===== *)
theory Authority_Properties
  imports Authority_Invariants
begin

text \<open>
  The correctness properties of the Kernel authority: isolation of namespaces, fencing,
  event streams, operations, provider sessions, expiry, launches and grants.
\<close>

section \<open>A concrete authority\<close>

definition ex_error :: provider_error where
  "ex_error = provider_err ''example'' ''UNAVAILABLE'' ''not available''"

text \<open>Ports with a clock that stands still, a journal that accepts and no process support.\<close>

definition ex_ports :: "u64 \<Rightarrow> unit ports" where
  "ex_ports now =
     \<lparr>pt_node_id = ''node'', pt_node_epoch = 1, pt_graceful_stop = 0, pt_heartbeat_timeout = 1,
      pt_heartbeat_interval = 1, pt_heartbeat_socket = ''s'', pt_backend_id = ''b'',
      pt_now = (\<lambda>w. (now, w)), pt_instant = (\<lambda>w. (0, w)),
      pt_append = (\<lambda>_ w. (Inr (), w)), pt_append_event = (\<lambda>_ w. (Inr (), w)),
      pt_events_for_source = (\<lambda>_ _ w. (Inr None, w)),
      pt_sandbox = \<lparr>sb_launch = (\<lambda>_ _ w. (Inl ex_error, w)), sb_stop = (\<lambda>_ _ w. (Inl ex_error, w))\<rparr>,
      pt_preflight_for_binding = (\<lambda>_ w. (\<lparr>nc_ready = True, nc_facts = [], nc_enforcement = []\<rparr>, w)),
      pt_probe_inventory = (\<lambda>w. (Inl ex_error, w)), pt_create_binding = (\<lambda>_ _ w. (Inl ex_error, w)),
      pt_resolve_worker = (\<lambda>_ w. (Inl ex_error, w)), pt_cancel_channel = (\<lambda>w. ((''c'', None), w))\<rparr>"

definition ex_ctx :: "string \<Rightarrow> authority_call_context" where
  "ex_ctx ns =
     \<lparr>ctx_contract = ContractRevision_current, ctx_namespace = NamespaceId ns, ctx_request_id = ''r1'',
      ctx_idempotency_key = []\<rparr>"

definition alice :: principal where "alice = \<lparr>principal_identity = Identity ''alice'' 1\<rparr>"
definition mallory :: principal where "mallory = \<lparr>principal_identity = Identity ''mallory'' 1\<rparr>"

abbreviation ex_authority :: "rm_state \<Rightarrow> unit authority" where
  "ex_authority l \<equiv> authority_new l ()"

lemma current_self: "negotiate ContractRevision_current ContractRevision_current = Some ContractRevision_current"
  by (simp add: negotiate_def current_revision_valid)

lemma ex_ctx_valid: "AuthorityCallContext_validate_for (ex_ctx ''red'') ContractRevision_current = Inr ()"
  by (simp add: AuthorityCallContext_validate_for_def ex_ctx_def current_self NamespaceId_new_def
      is_ascii_alphanumeric_def is_ascii_lowercase_def byte_def)

section \<open>Well-formed states, namespaces and fences\<close>

text \<open>C14. The authority's state stays well formed. Whatever calls a fresh authority has served, all
  its maps are sorted without duplicate keys, every lease is recorded under its own name, and every
  operation, endpoint and grant is filed under its own identity.\<close>

theorem authority_well_typed:
  "well_formed (au_run P cs (authority_new (with_next_fence_token rs n) w))"
  by (rule well_formed_run [OF well_formed_new])

text \<open>C9. Namespaces are isolated. Once a namespace has an owner, the owner stays the same
  whatever calls are served, and every client call made on it by another principal is refused with
  NAMESPACE_AUTHORITY_DENIED and leaves the whole authority as it was.\<close>

theorem namespace_isolation:
  assumes "map_of (au_owners s) (ctx_namespace ctx) = Some i"
    and "namespace_call c = Some (ctx, p)" and "principal_identity p \<noteq> i"
    and "AuthorityCallContext_validate_for ctx ContractRevision_current = Inr ()"
  shows "let s' = au_run P cs s in
    map_of (au_owners s') (ctx_namespace ctx) = Some i \<and>
    au_exec P c s' = (Inl (Rejected NAMESPACE_DENIED), s')"
  using owner_kept [OF assms(1), of P cs]
    foreign_principal_denied [OF assms(2) owner_kept [OF assms(1)] assms(3,4), of P P cs]
  by (simp add: Let_def)

theorem namespace_isolation_witness:
  "\<exists>s :: unit authority.
     au_exec (ex_ports 1) (CallSnapshot (ex_ctx ''red'') mallory)
       (au_run (ex_ports 1) [CallEnforceExpiry, CallSnapshot (ex_ctx ''red'') alice] s) =
     (Inl (Rejected NAMESPACE_DENIED),
      au_run (ex_ports 1) [CallEnforceExpiry, CallSnapshot (ex_ctx ''red'') alice] s)"
proof -
  let ?s = "(ex_authority ex_start)\<lparr>au_owners := [(NamespaceId ''red'', Identity ''alice'' 1)]\<rparr>"
  have "map_of (au_owners ?s) (ctx_namespace (ex_ctx ''red'')) = Some (Identity ''alice'' 1)"
    "namespace_call (CallSnapshot (ex_ctx ''red'') mallory) = Some (ex_ctx ''red'', mallory)"
    "principal_identity mallory \<noteq> Identity ''alice'' 1"
    by (simp_all add: ex_ctx_def mallory_def)
  from namespace_isolation [OF this ex_ctx_valid] show ?thesis by (metis (no_types))
qed

text \<open>C10. A stale fence token has no power over the authority. Once the ledger holds a lease
  under a larger token, every later call that presents the old token for it (renewal, release,
  worker stop, both heartbeats, endpoint grant) fails; no process, worker, operation, endpoint,
  grant or event changes and the allocated resources stay the same.\<close>

theorem stale_fence_powerless:
  assumes "map_of (rm_leases (au_ledger s)) n = Some l" and "rl_name l = n" and "f < rl_fence_token l"
    and "fenced_call c = Some (ctx, i, f)"
    and "map_of (au_leases (au_run P cs s)) (AuthorityCallContext_object_ref ctx i) = Some n"
  shows "\<exists>e l' w. let s' = au_run P cs s in
    au_exec P c s' = (Inl e, s'\<lparr>au_ledger := l', au_world := w\<rparr>) \<and>
    rm_allocated l' = rm_allocated (au_ledger s')"
proof -
  obtain l1 where "map_of (rm_leases (au_ledger (au_run P cs s))) n = Some l1" "rl_name l1 = n"
    "rl_fence_token l \<le> rl_fence_token l1"
    using lease_fence_mono [OF assms(1), of P cs] assms(2) by blast
  then have "filed (AuthorityCallContext_object_ref ctx i) n f (au_run P cs s)"
    using assms(3,5) by (auto simp: filed_def refenced_def)
  from stale_call_fails [OF assms(4) this, of P] show ?thesis
    by (auto simp: fails_at_def calm_def expiry_only_def Let_def)
qed

theorem stale_fence_powerless_witness:
  "\<exists>e s'. au_exec (ex_ports 1) (CallReleaseLease (ex_ctx ''red'') alice (Identity ''a'' 1) 1)
     ((ex_authority (ex_state True [(''a'', ex_lease ''a'' 2 LRevoked)] 3))
        \<lparr>au_leases := [(ObjectRef (NamespaceId ''red'') (Identity ''a'' 1), ''a'')]\<rparr>) = (Inl e, s')"
proof -
  let ?s = "(ex_authority (ex_state True [(''a'', ex_lease ''a'' 2 LRevoked)] 3))
        \<lparr>au_leases := [(ObjectRef (NamespaceId ''red'') (Identity ''a'' 1), ''a'')]\<rparr>"
  have "map_of (rm_leases (au_ledger ?s)) ''a'' = Some (ex_lease ''a'' 2 LRevoked)"
    "rl_name (ex_lease ''a'' 2 LRevoked) = ''a''" "1 < rl_fence_token (ex_lease ''a'' 2 LRevoked)"
    "fenced_call (CallReleaseLease (ex_ctx ''red'') alice (Identity ''a'' 1) 1) =
       Some (ex_ctx ''red'', Identity ''a'' 1, 1)"
    "map_of (au_leases (au_run (ex_ports 1) [] ?s))
       (AuthorityCallContext_object_ref (ex_ctx ''red'') (Identity ''a'' 1)) = Some ''a''"
    by (simp_all add: authority_new_def ex_state_def ex_lease_def AuthorityCallContext_object_ref_def
        ex_ctx_def)
  from stale_fence_powerless [OF this] show ?thesis by (auto simp: Let_def)
qed

section \<open>Event streams, operations and provider sessions\<close>

text \<open>C13. Event streams have no gap. After any sequence of calls on a fresh authority, every
  namespace keeps at most 256 events, all valid and of the namespace's own source, each numbered
  one above its predecessor and the next number one above the last; a stream that lost its durable
  store never shows another event, whatever calls follow.\<close>

theorem event_streams_gapless:
  assumes "s = au_run P cs (authority_new l w)" and "map_of (au_events s) ns = Some h"
  shows "length (eh_events h) \<le> 256 \<and>
    (\<forall>e\<in>set (eh_events h). Event_validate e = Inr () \<and> ev_source e = semantic_event_source_for P ns) \<and>
    (\<forall>i. Suc i < length (eh_events h) \<longrightarrow>
       unat (ev_sequence (eh_events h ! Suc i)) = Suc (unat (ev_sequence (eh_events h ! i)))) \<and>
    (\<forall>n. eh_next_sequence h = Some n \<and> eh_events h \<noteq> [] \<longrightarrow>
       unat n = Suc (unat (ev_sequence (last (eh_events h))))) \<and>
    (eh_next_sequence h = None \<longrightarrow> map_of (au_events (au_run P cs' s)) ns = Some h)"
proof -
  have ok: "stream_ok P ns h"
    by (rule streams_ok [of "authority_new l w" P cs]) (use assms in \<open>simp_all add: authority_new_def\<close>)
  have suc: "checked_add a 1 = Some b \<Longrightarrow> unat b = Suc (unat a)" for a b :: u64
    by (simp add: checked_add_Some)
  show ?thesis
    using ok degraded_kept [OF assms(2)]
    by (auto simp: stream_ok_def successive_def OPERATION_EVENT_HISTORY_CAPACITY_def intro!: suc)
qed

definition ex_job :: operation where
  "ex_job =
     \<lparr>op_identity = Identity ''job'' 1, op_owner = Identity ''alice'' 1, op_executor = Identity ''w'' 1,
      op_kind = ''run'', op_state = OpCreated, op_deadline_unix_ms = None, op_parent = None,
      op_metadata = []\<rparr>"

definition ex_event :: event where
  "ex_event =
     \<lparr>ev_sequence = 1, ev_source = Identity ''kernel/node/namespace/red'' 1, ev_subject = Identity ''job'' 1,
      ev_kind = ''operation.created'', ev_observed_at_unix_ms = 1, ev_schema_id = ''cyrene.operation.v1'',
      ev_body = []\<rparr>"

lemma ex_event_valid: "Event_validate ex_event = Inr ()"
  by (simp add: Event_validate_def ex_event_def Identity_validate_Inr validate_namespaced_id_grammar
      namespaced_grammar_def ns_segment_def ns_rest_def is_separator_def is_ascii_lowercase_def
      is_ascii_digit_def validate_timestamp_def contract_limits byte_def)

lemmas event_eval = publish_operation_def publish_semantic_event_in_def publish_into_def
  event_history_for_def in_memory_events_def semantic_event_source_for_def NamespaceId_default_def
  DEFAULT_NAMESPACE_def put_history_def push_event_def checked_add_def
  OPERATION_EVENT_HISTORY_CAPACITY_def map_err_def

lemma ex_create:
  "map_of (au_events (au_run (ex_ports 1) [CallCreateOperation (ex_ctx ''red'') alice ex_job]
       (ex_authority ex_start))) (NamespaceId ''red'') =
     Some \<lparr>eh_next_sequence = Some 2, eh_events = [ex_event]\<rparr>"
  using ex_event_valid
  by (simp add: outcome_def Authority_create_operation_def context_passed [OF ex_ctx_valid])
    (simp add: act_simps bind_namespace_def authority_new_def ex_job_def newer_operation_def
      put_operation_def ex_ctx_def ex_ports_def event_eval ex_event_def)

theorem event_streams_gapless_witness:
  "\<exists>h. map_of (au_events (au_run (ex_ports 1) [CallCreateOperation (ex_ctx ''red'') alice ex_job]
       (ex_authority ex_start))) (NamespaceId ''red'') = Some h \<and> eh_events h = [ex_event] \<and>
     ev_source ex_event = semantic_event_source_for (ex_ports 1) (NamespaceId ''red'')"
  using event_streams_gapless [OF refl ex_create] ex_create by simp

lemma operations_present:
  assumes "map_of (au_operations s) obj = Some op"
  shows "map_of (au_operations (au_run P cs s)) obj \<noteq> None"
proof (rule run_invariant [where I = "\<lambda>s. map_of (au_operations s) obj \<noteq> None"])
  fix s s' assume "au_step P s s'" and I: "map_of (au_operations s) obj \<noteq> None"
  then show "map_of (au_operations s') obj \<noteq> None"
  proof cases
    case (st_lose_operations f)
    then show ?thesis using I by (simp add: map_of_map)
  qed (use I in auto)
qed (use assms in simp)

text \<open>C15. Operations are never dropped, and outside the names of worker starts and stops they only move
  forward. After any sequence of calls a recorded operation is still on record. Unless its id begins
  with \<open>operation/start/\<close> or \<open>operation/stop/\<close>, it has the same owner, executor, kind, deadline and
  parent, its state was reached by legal transitions, and once it succeeded, failed, was cancelled or
  lost, it stays so. Under those two prefixes the authority files its own record of a worker's start
  or stop and overwrites what it finds, an operation a client created under such an id included.\<close>

theorem operations_forward:
  assumes "map_of (au_operations s) obj = Some op"
  shows "\<exists>op'. map_of (au_operations (au_run P cs s)) obj = Some op' \<and>
    ((\<nexists>w. ident_id (or_identity obj) = ''operation/start/'' @ w \<or> ident_id (or_identity obj) = ''operation/stop/'' @ w) \<longrightarrow>
     op_owner op' = op_owner op \<and> op_executor op' = op_executor op \<and> op_kind op' = op_kind op \<and>
     op_deadline_unix_ms op' = op_deadline_unix_ms op \<and> op_parent op' = op_parent op \<and>
     OperationState_can_transition_to\<^sup>*\<^sup>* (op_state op) (op_state op') \<and>
     (op_state op \<in> {OpSucceeded, OpFailed, OpCancelled, OpLost} \<longrightarrow> op_state op' = op_state op))"
proof (cases "worker_operation_id (or_identity obj)")
  case True
  then show ?thesis using operations_present [OF assms, of P cs] by (auto simp: worker_operation_id_def)
next
  case False
  have fixed: "OperationState_can_transition_to\<^sup>*\<^sup>* a b \<Longrightarrow>
      a \<in> {OpSucceeded, OpFailed, OpCancelled, OpLost} \<Longrightarrow> b = a" for a b
    by (induction rule: rtranclp_induct) (auto split: operation_state.splits if_splits)
  show ?thesis
    using operations_later [OF assms False, of P cs] fixed unfolding op_later_def by blast
qed

theorem operations_forward_witness:
  "\<exists>(s :: unit authority) op op'. op_state op = OpSucceeded \<and>
     map_of (au_operations s) (ObjectRef (NamespaceId ''red'') (Identity ''job'' 1)) = Some op \<and>
     map_of (au_operations (au_run (ex_ports 1) [CallCancelOperation (ex_ctx ''red'') alice (Identity ''job'' 1)] s))
       (ObjectRef (NamespaceId ''red'') (Identity ''job'' 1)) = Some op' \<and> op_state op' = OpSucceeded"
proof -
  let ?o = "ObjectRef (NamespaceId ''red'') (Identity ''job'' 1)"
  let ?op = "\<lparr>op_identity = Identity ''job'' 1, op_owner = Identity ''alice'' 1,
      op_executor = Identity ''w'' 1, op_kind = ''run'', op_state = OpSucceeded,
      op_deadline_unix_ms = None, op_parent = None, op_metadata = []\<rparr>"
  let ?s = "(ex_authority ex_start)\<lparr>au_operations := [(?o, ?op)]\<rparr>"
  have m: "map_of (au_operations ?s) ?o = Some ?op" by simp
  have id: "\<nexists>w. ident_id (or_identity ?o) = ''operation/start/'' @ w \<or> ident_id (or_identity ?o) = ''operation/stop/'' @ w"
    by simp
  from operations_forward [OF m, of "ex_ports 1" "[CallCancelOperation (ex_ctx ''red'') alice (Identity ''job'' 1)]"] id
  obtain op' where "map_of (au_operations (au_run (ex_ports 1)
      [CallCancelOperation (ex_ctx ''red'') alice (Identity ''job'' 1)] ?s)) ?o = Some op' \<and>
      op_state op' = OpSucceeded" by auto
  moreover have "op_state ?op = OpSucceeded" by simp
  ultimately show ?thesis using m by blast
qed

text \<open>C17. Provider sessions never go back. After any sequence of calls a registered provider is
  still registered, for the same principal, under a generation at least as large; from then on a
  registration by another principal, or of an older session, is refused and changes nothing.\<close>

theorem provider_session_monotone:
  assumes "map_of (au_providers s) (provider_key ctx (ident_id (prov_identity v))) = Some r"
    and "p \<noteq> pv_principal r \<or> ident_generation (prov_identity v) < ident_generation (prov_identity (pv_provider r))"
  shows "let s' = au_run P cs s in
    (\<exists>r'. map_of (au_providers s') (provider_key ctx (ident_id (prov_identity v))) = Some r' \<and>
       pv_principal r' = pv_principal r \<and>
       ident_generation (prov_identity (pv_provider r)) \<le> ident_generation (prov_identity (pv_provider r'))) \<and>
    (\<exists>e. Authority_register_provider P ctx p v s' = (Inl (Rejected e), s'))"
proof -
  obtain r' where r': "map_of (au_providers (au_run P cs s)) (provider_key ctx (ident_id (prov_identity v))) = Some r'"
    "pv_principal r' = pv_principal r"
    "ident_generation (prov_identity (pv_provider r)) \<le> ident_generation (prov_identity (pv_provider r'))"
    using provider_sessions [OF assms(1), of P cs] unfolding provider_forward_def by blast
  then have "pv_principal r' \<noteq> p \<or>
      ident_generation (prov_identity v) < ident_generation (prov_identity (pv_provider r'))"
    using assms(2) by auto
  then have "\<exists>e. Authority_register_provider P ctx p v (au_run P cs s) = (Inl (Rejected e), au_run P cs s)"
    using r'(1) unfolding Authority_register_provider_def Let_def
    by (auto simp: act_simps validate_context_def map_err_def split: sum.splits)
  then show ?thesis using r' by (auto simp: Let_def)
qed

theorem provider_session_monotone_witness:
  "\<exists>(s :: unit authority) e.
     Authority_register_provider (ex_ports 1) (ex_ctx ''red'') mallory
       \<lparr>prov_identity = Identity ''prov'' 9, prov_state = ProviderUnavailable, prov_capabilities = []\<rparr>
       (au_run (ex_ports 1) [CallEnforceExpiry] s) =
     (Inl (Rejected e), au_run (ex_ports 1) [CallEnforceExpiry] s)"
proof -
  let ?v = "\<lambda>g. \<lparr>prov_identity = Identity ''prov'' g, prov_state = ProviderUnavailable, prov_capabilities = []\<rparr>"
  let ?s = "(ex_authority ex_start)\<lparr>au_providers :=
    [((NamespaceId ''red'', ''prov''), fresh_record (?v 3) alice)]\<rparr>"
  have "map_of (au_providers ?s) (provider_key (ex_ctx ''red'') (ident_id (prov_identity (?v 9)))) =
      Some (fresh_record (?v 3) alice)"
    "mallory \<noteq> pv_principal (fresh_record (?v 3) alice) \<or>
     ident_generation (prov_identity (?v 9)) <
       ident_generation (prov_identity (pv_provider (fresh_record (?v 3) alice)))"
    by (simp_all add: provider_key_def ex_ctx_def fresh_record_def alice_def mallory_def)
  from provider_session_monotone [OF this, of "ex_ports 1" "[CallEnforceExpiry]"]
  show ?thesis by (auto simp: Let_def)
qed

end
