(* ===== verification/Authority_Handlers.thy ===== *)
theory Authority_Handlers
  imports Authority_Properties
begin

text \<open>
  What single authority handlers guarantee: the event pages they serve and when these are valid, and
  two ways in which the expiry scan fails a lease.
\<close>

section \<open>Served event pages\<close>

definition ordered_stream :: "identity \<Rightarrow> event list \<Rightarrow> bool" where
  "ordered_stream src es \<longleftrightarrow>
     (\<forall>e\<in>set es. Event_validate e = Inr () \<and> ev_source e = src) \<and> sorted_wrt (<) (map ev_sequence es)"

lemma check_durable_ordered:
  assumes "check_durable ns src prev rs = Inr es"
  shows "ordered_stream src es \<and> (\<forall>e\<in>set es. \<forall>q. prev = Some q \<longrightarrow> q < ev_sequence e)"
  using assms
proof (induction ns src prev rs arbitrary: es rule: check_durable.induct)
  case (2 ns src prev r rs)
  then obtain es' where es: "es = de_event r # es'"
    "check_durable ns src (Some (ev_sequence (de_event r))) rs = Inr es'"
    by (auto simp: bind_res_def split: if_splits sum.splits)
  have e: "Event_validate (de_event r) = Inr ()" "ev_source (de_event r) = src"
    "\<forall>q. prev = Some q \<longrightarrow> q < ev_sequence (de_event r)"
    using "2.prems" by (auto simp: is_ok_def linorder_not_le split: if_splits sum.splits option.splits)
  have "ordered_stream src es' \<and> (\<forall>x\<in>set es'. ev_sequence (de_event r) < ev_sequence x)"
    using "2.IH" [OF _ es(2)] "2.prems" by (auto split: if_splits)
  then show ?case using es(1) e by (auto simp: ordered_stream_def)
qed (simp add: ordered_stream_def)

lemma stream_ordered:
  assumes "stream_ok P ns h"
  shows "ordered_stream (semantic_event_source_for P ns) (eh_events h)"
proof -
  have "sorted_wrt (<) (map ev_sequence (eh_events h))"
    using assms
    by (subst sorted_wrt_iff_nth_Suc_transp)
      (auto simp: stream_ok_def successive_def checked_add_Some word_less_nat_alt)
  then show ?thesis using assms by (simp add: ordered_stream_def stream_ok_def)
qed

lemma event_history_ordered:
  assumes "event_history_for P ns (semantic_event_source_for P ns) s = (Inr es, s')"
    and "\<And>h. map_of (au_events s) ns = Some h \<Longrightarrow> stream_ok P ns h"
  shows "ordered_stream (semantic_event_source_for P ns) es"
  using assms(1) check_durable_ordered stream_ordered [OF assms(2)]
  by (auto simp: event_history_for_def act_simps in_memory_events_def ordered_stream_def map_err_def
      split: prod.splits sum.splits option.splits)

lemma ordered_range:
  assumes "ordered_stream src es"
  shows "e \<in> set es \<Longrightarrow> first_sequence es \<le> ev_sequence e \<and> ev_sequence e \<le> last_sequence es"
    and "first_sequence es \<le> last_sequence es"
    and "first_sequence es = 0 \<longleftrightarrow> es = []" and "last_sequence es = 0 \<longleftrightarrow> es = []"
proof -
  have nz: "e \<in> set es \<Longrightarrow> ev_sequence e \<noteq> 0" for e
    using assms by (auto simp: ordered_stream_def Event_validate_def first_err_Inr ensure_def split: if_splits)
  have le: "e \<in> set es \<Longrightarrow> first_sequence es \<le> ev_sequence e" for e
    using assms by (cases es) (auto simp: ordered_stream_def first_sequence_def)
  have ge: "e \<in> set es \<Longrightarrow> ev_sequence e \<le> last_sequence es" for e
    using assms by (cases es rule: rev_cases)
      (auto simp: ordered_stream_def last_sequence_def sorted_wrt_append)
  show "e \<in> set es \<Longrightarrow> first_sequence es \<le> ev_sequence e \<and> ev_sequence e \<le> last_sequence es"
    using le ge by blast
  show "first_sequence es \<le> last_sequence es"
    using le [of "last es"] by (cases "es = []") (auto simp: first_sequence_def last_sequence_def)
  show "first_sequence es = 0 \<longleftrightarrow> es = []" "last_sequence es = 0 \<longleftrightarrow> es = []"
    using nz by (auto simp: first_sequence_def last_sequence_def split: list.splits)
qed

lemma page_valid:
  assumes "ordered_stream src es" and "Identity_validate src = Inr ()"
    and "xs = [] \<or> st = ReplayCurrent" and "ordered_stream src xs" and "set xs \<subseteq> set es"
    and "length xs \<le> 256" and "xs \<noteq> [] \<Longrightarrow> n = ev_sequence (last xs)"
  shows "EventPage_validate (page src st xs (first_sequence es) (last_sequence es) n) = Inr ()"
  using assms ordered_range [OF assms(1)]
  by (auto simp: EventPage_validate_Inr page_def ordered_stream_def MAX_EVENTS_PER_PAGE_def)

lemma ordered_take_filter:
  "ordered_stream src es \<Longrightarrow> ordered_stream src (take n (filter Q es))"
  by (auto simp: ordered_stream_def sorted_wrt_map intro: sorted_wrt_take sorted_wrt_filter
      dest: in_set_takeD)

lemma empty_page_shown:
  assumes "\<And>h. map_of (au_events s) ns = Some h \<Longrightarrow> stream_ok P ns h"
    and "Identity_validate (semantic_event_source_for P ns) = Inr ()"
  shows "EventPage_validate (page (semantic_event_source_for P ns) st []
      (fst (in_memory_event_range ns s)) (snd (in_memory_event_range ns s)) n) = Inr ()"
proof -
  have "ordered_stream (semantic_event_source_for P ns) (in_memory_events ns s)"
    using stream_ordered [OF assms(1)]
    by (auto simp: in_memory_events_def ordered_stream_def split: option.splits)
  from page_valid [OF this assms(2), of "[]"] show ?thesis
    by (simp add: in_memory_event_range_def ordered_stream_def)
qed

definition page_after :: "event_cursor \<Rightarrow> nat \<Rightarrow> event_page \<Rightarrow> bool" where
  "page_after cursor limit pg \<longleftrightarrow>
     length (pg_events pg) \<le> limit \<and> (\<forall>e\<in>set (pg_events pg). cur_sequence cursor < ev_sequence e) \<and>
     cur_sequence cursor \<le> pg_next_sequence pg"

lemma read_page_valid:
  assumes "read_events_page P ns cursor limit s = (Inr pg, s')" and "limit \<le> 256"
    and "\<And>h. map_of (au_events s) ns = Some h \<Longrightarrow> stream_ok P ns h"
  shows "pg_source pg = semantic_event_source_for P ns \<and> page_after cursor limit pg \<and>
    (EventPage_validate pg = Inr () \<longleftrightarrow> Identity_validate (semantic_event_source_for P ns) = Inr ())"
proof -
  let ?src = "semantic_event_source_for P ns"
  let ?lost = "case map_of (au_events s) ns of None \<Rightarrow> False | Some h \<Rightarrow> eh_next_sequence h = None"
  have src: "EventPage_validate pg = Inr () \<Longrightarrow> Identity_validate (pg_source pg) = Inr ()"
    by (simp add: EventPage_validate_Inr)
  consider (empty) st where "pg = page ?src st [] (fst (in_memory_event_range ns s))
        (snd (in_memory_event_range ns s)) (cur_sequence cursor)"
    | (read) es where "event_history_for P ns ?src s = (Inr es, s')"
        "pg = (let status = EventCursor_status_against cursor ?src (first_sequence es);
          xs = take limit (filter (\<lambda>e. ev_sequence e > cur_sequence cursor) es)
          in if status \<noteq> ReplayCurrent
             then page ?src status [] (first_sequence es) (last_sequence es) (cur_sequence cursor)
             else page ?src status xs (first_sequence es) (last_sequence es)
               (if xs = [] then cur_sequence cursor else ev_sequence (last xs)))"
    using assms(1) unfolding read_events_page_def Let_def
    by (cases "cur_source cursor \<noteq> ?src"; cases ?lost)
      (auto simp: act_simps Let_def split: prod.splits sum.splits if_splits)
  then show ?thesis
  proof cases
    case empty
    then show ?thesis
      using empty_page_shown [OF assms(3)] src by (auto simp: page_after_def page_def)
  next
    case read
    have o: "ordered_stream ?src es" by (rule event_history_ordered [OF read(1) assms(3)])
    let ?xs = "take limit (filter (\<lambda>e. ev_sequence e > cur_sequence cursor) es)"
    have xs: "set ?xs \<subseteq> {e \<in> set es. cur_sequence cursor < ev_sequence e}"
      by (auto dest: in_set_takeD)
    have "?xs \<noteq> [] \<Longrightarrow> cur_sequence cursor \<le> ev_sequence (last ?xs)"
      using subsetD [OF xs last_in_set] by (metis (no_types, lifting) less_imp_le mem_Collect_eq)
    moreover have "length ?xs \<le> limit" by simp
    ultimately have "page_after cursor limit pg"
      using read(2) xs by (auto simp: page_after_def page_def Let_def simp del: length_take)
    moreover have "EventPage_validate pg = Inr ()" if "Identity_validate ?src = Inr ()"
      using read(2) xs assms(2)
      by (auto simp: Let_def intro!: page_valid [OF o that] ordered_take_filter [OF o]
          simp: ordered_stream_def)
    moreover have "pg_source pg = ?src" using read(2) by (simp add: Let_def page_def)
    ultimately show ?thesis using src by auto
  qed
qed

text \<open>C16. The event pages the authority serves. After any sequence of calls on a fresh authority and
  whatever the durable store answers, a page that a successful read returns names the namespace's own
  source, holds at most the requested number of events, only events beyond the caller's cursor, and
  never moves the cursor back. It passes the contract's validation (coherent range, right source,
  strictly increasing sequences, matching cursor) exactly when that source is itself a valid
  identity, which depends only on the configured node id, the node epoch and the namespace.\<close>

theorem served_pages_valid:
  assumes "s = au_run P cs (authority_new l w)"
    and "Authority_read_events P ctx p cursor limit s = (Inr pg, s')"
  shows "(EventPage_validate pg = Inr () \<longleftrightarrow>
      Identity_validate (semantic_event_source_for P (ctx_namespace ctx)) = Inr ()) \<and>
    pg_source pg = semantic_event_source_for P (ctx_namespace ctx) \<and> length (pg_events pg) \<le> limit \<and>
    (\<forall>e\<in>set (pg_events pg). cur_sequence cursor < ev_sequence e) \<and>
    cur_sequence cursor \<le> pg_next_sequence pg"
proof -
  have streams: "map_of (au_events s) ns = Some h \<Longrightarrow> stream_ok P ns h" for ns h
    using streams_ok [of "authority_new l w" P cs ns h] assms(1) by (simp add: authority_new_def)
  obtain s1 where r: "read_events_page P (ctx_namespace ctx) cursor limit s = (Inr pg, s1)" "limit \<le> 256"
    using assms(2)
    by (auto simp: Authority_read_events_def act_simps validate_context_def require_namespace_owner_def
        map_err_def OPERATION_EVENT_HISTORY_CAPACITY_def
        split: prod.splits sum.splits if_splits option.splits)
  show ?thesis using read_page_valid [OF r streams] by (simp add: page_after_def)
qed

theorem served_pages_valid_witness:
  "\<exists>pg s'. Authority_read_events (ex_ports 1) (ex_ctx ''red'') alice
     \<lparr>cur_source = Identity ''kernel/node/namespace/red'' 1, cur_sequence = 0\<rparr> 5
     (au_run (ex_ports 1) [CallCreateOperation (ex_ctx ''red'') alice ex_job] (ex_authority ex_start)) = (Inr pg, s') \<and>
     pg_events pg = [ex_event] \<and> EventPage_validate pg = Inr ()"
proof -
  let ?c = "\<lparr>cur_source = Identity ''kernel/node/namespace/red'' 1, cur_sequence = 0\<rparr>"
  let ?s = "au_run (ex_ports 1) [CallCreateOperation (ex_ctx ''red'') alice ex_job] (ex_authority ex_start)"
  let ?pg = "page (Identity ''kernel/node/namespace/red'' 1) ReplayCurrent [ex_event] 1 1 1"
  have src: "semantic_event_source_for (ex_ports 1) (NamespaceId ''red'') = Identity ''kernel/node/namespace/red'' 1"
    by (simp add: semantic_event_source_for_def ex_ports_def NamespaceId_default_def DEFAULT_NAMESPACE_def)
  have own: "map_of (au_owners ?s) (NamespaceId ''red'') = Some (Identity ''alice'' 1)"
    using ex_event_valid
    by (simp add: outcome_def Authority_create_operation_def context_passed [OF ex_ctx_valid])
      (simp add: act_simps bind_namespace_def authority_new_def ex_job_def newer_operation_def
        put_operation_def ex_ctx_def ex_ports_def event_eval alice_def ex_event_def)
  have r: "fst (Authority_read_events (ex_ports 1) (ex_ctx ''red'') alice ?c 5 ?s) = Inr ?pg"
    using ex_create own src unfolding Authority_read_events_def context_passed [OF ex_ctx_valid]
    by (simp add: act_simps require_namespace_owner_def alice_def ex_ctx_def read_events_page_def
        event_history_for_def ex_ports_def in_memory_events_def EventCursor_status_against_def
        first_sequence_def last_sequence_def ex_event_def OPERATION_EVENT_HISTORY_CAPACITY_def map_err_def
        saturating_add_def Let_def del: au_run.simps)
  obtain s' where r': "Authority_read_events (ex_ports 1) (ex_ctx ''red'') alice ?c 5 ?s = (Inr ?pg, s')"
    using r by (metis prod.collapse)
  have "Identity_validate (semantic_event_source_for (ex_ports 1) (ctx_namespace (ex_ctx ''red''))) = Inr ()"
    using ex_event_valid by (simp add: ex_ctx_def src)
      (simp add: Event_validate_def ex_event_def first_err_Inr)
  with served_pages_valid [OF refl r'] r' show ?thesis by (auto simp: page_def)
qed

section \<open>The expiry scan\<close>

lemma port_provider:
  "bind_act (port f) of_provider s =
     (map_err (\<lambda>e. Rejected (provider_rejection e)) (fst (f (au_world s))), s\<lparr>au_world := snd (f (au_world s))\<rparr>)"
  by (cases "fst (f (au_world s))") (simp_all add: act_simps case_prod_beta map_err_def)

lemma record_world:
  obtains w where "record_runtime P e n l r s = (Inr (), s\<lparr>au_world := w\<rparr>)"
  | w x where "record_runtime P e n l r s = (Inl (Rejected x), s\<lparr>au_world := w\<rparr>)"
proof -
  obtain f where f: "record_runtime P e n l r = bind_act (port f) of_provider"
    by (simp add: record_runtime_def)
  show thesis
  proof (cases "fst (f (au_world s))")
    case (Inl err)
    have "record_runtime P e n l r s =
        (Inl (Rejected (provider_rejection err)), s\<lparr>au_world := snd (f (au_world s))\<rparr>)"
      unfolding f port_provider Inl by (simp add: map_err_def)
    then show ?thesis by (rule that(2))
  next
    case (Inr u)
    have "record_runtime P e n l r s = (Inr (), s\<lparr>au_world := snd (f (au_world s))\<rparr>)"
      unfolding f port_provider Inr by (simp add: map_err_def)
    then show ?thesis by (rule that(1))
  qed
qed

lemma ignore_record:
  obtains w where "ignore (record_runtime P e n l r) s = (Inr (), s\<lparr>au_world := w\<rparr>)"
proof (rule record_world [of P e n l r s])
  fix w assume "record_runtime P e n l r s = (Inr (), s\<lparr>au_world := w\<rparr>)"
  then show thesis using that [of w] by (simp add: ignore_def then_act_def bind_act_def attempt_def ret_def)
next
  fix w x assume "record_runtime P e n l r s = (Inl (Rejected x), s\<lparr>au_world := w\<rparr>)"
  then show thesis using that [of w] by (simp add: ignore_def then_act_def bind_act_def attempt_def ret_def)
qed

text \<open>Publishing an event touches nothing but the streams and the durable store.\<close>

definition publishes :: "'w authority \<Rightarrow> 'w authority \<Rightarrow> bool" where
  "publishes s s' \<longleftrightarrow>
     au_ledger s' = au_ledger s \<and> au_instances s' = au_instances s \<and> au_workers s' = au_workers s \<and>
     au_leases s' = au_leases s \<and> au_operations s' = au_operations s"

interpretation publishing: action_frame publishes
  by unfold_locales (simp_all add: publishes_def)

lemma publishing_basic:
  "keeps publishes (port f)" "keeps publishes (put_history ns h)"
  by (simp_all add: keeps_def publishes_def port_def put_history_def modify_def split: prod.split)

lemma publish_keeps: "keeps publishes (publish_semantic_event_in P ns i k sch b)"
  unfolding publish_semantic_event_in_def publish_into_def event_history_for_def
  by (intro publishing.frame_intros publishing_basic)

lemma publish_keeps_ledger:
  "au_ledger (snd (publish_semantic_event_in P ns i k sch b s)) = au_ledger s"
  using publish_keeps [of P ns i k sch b] by (simp add: keeps_def publishes_def)

lemma snd_then_ret: "snd (then_act m (ret x) s) = snd (m s)"
  by (cases "m s"; cases "fst (m s)") (auto simp: act_simps)

lemma complete_revocation_frees:
  assumes "map_of (rm_leases l0) (rl_name l) = Some l" and "rl_state l = LRevoked"
  shows "complete_revocation (rl_name l) (rl_fence_token l) l0 = (Inr l, free_allocations l l0)"
  using assms by (simp add: complete_revocation_def fenced_lookup_def)

lemma standalone_ledger:
  assumes "map_of (rm_leases (au_ledger s)) (rl_name l) = Some l" and "rl_state l = LRevoked"
  shows "au_ledger (snd (expire_standalone P ns i l s)) = free_allocations l (au_ledger s)"
proof -
  obtain w where 1: "ignore (record_runtime P JLeaseRevoked None (Some l) ''LEASE_EXPIRED'') s =
      (Inr (), s\<lparr>au_world := w\<rparr>)" by (rule ignore_record)
  let ?s1 = "s\<lparr>au_world := w\<rparr>"
  obtain w2 where 2: "ignore (record_runtime P FenceAdvanced None (Some l) ''LEASE_EXPIRED'') ?s1 =
      (Inr (), ?s1\<lparr>au_world := w2\<rparr>)" by (rule ignore_record)
  let ?s2 = "?s1\<lparr>au_world := w2\<rparr>"
  have 3: "ignore (daemon_complete_revocation (rl_name l) (rl_fence_token l)) ?s2 =
      (Inr (), ?s2\<lparr>au_ledger := free_allocations l (au_ledger s)\<rparr>)"
    using complete_revocation_frees [OF assms]
    by (simp add: ignore_def daemon_complete_revocation_def act_simps map_err_def)
  have "snd (expire_standalone P ns i l s) =
      snd (then_act (publish_lease_revoked P ns i) (ret [RevokeLease i])
        (?s2\<lparr>au_ledger := free_allocations l (au_ledger s)\<rparr>))"
    using 1 2 3 assms(2) by (simp add: expire_standalone_def revoke_unless_revoked_def then_act_def bind_act_def ret_def)
  then show ?thesis by (simp only: snd_then_ret publish_lease_revoked_def publish_keeps_ledger) simp
qed

text \<open>C12. The expiry scan can free the resources of a live lease. When a revoked and already
  cleaned lease once held a resource that an active lease holds now, and no process is bound to
  it, the next scan takes the old lease for one that is still allocated and completes its revocation
  again: the resource is free afterwards although the active lease still holds it.\<close>

theorem expiry_scan_frees_live_lease:
  assumes "map_of (rm_leases (au_ledger s)) (rl_name l) = Some l" and "rl_state l = LRevoked"
    and "map_of (rm_leases (au_ledger s)) m = Some k" and "rl_state k = LActive"
    and "x \<in> set (lease_ids l)" and "x \<in> set (lease_ids k)" and "x \<in> set (rm_allocated (au_ledger s))"
    and "au_instances s = []"
  shows "let s' = au_ledger (snd (expire_one P now l s)) in
    map_of (rm_leases s') m = Some k \<and> x \<notin> set (rm_allocated s')"
proof -
  have al: "lease_is_allocated (rl_name l) (au_ledger s)"
    using assms(1,5,7) by (auto simp: lease_is_allocated_def lease_ids_def list_ex_iff)
  have "\<exists>ns i. expire_one P now l s = expire_standalone P ns i l s"
    using assms(2,8) al
    by (auto simp: expire_one_def daemon_is_allocated_def needs_active_expiry_def act_simps Let_def)
  then show ?thesis
    using standalone_ledger [OF assms(1,2)] assms(3,5) by (auto simp: Let_def)
qed

definition ex_reused :: rm_state where
  "ex_reused = fold rm_exec
     [CAcquire 1 1 (ex_request ''a''), CRevoke 1 ''a'' 1, CCompleteRevocation ''a'' 2,
      CAcquire 1 1 (ex_request ''b'')] ex_start"

lemma ex_reused_state:
  "ex_reused = ex_state True [(''a'', ex_lease ''a'' 2 LRevoked), (''b'', ex_lease ''b'' 3 LActive)] 4"
proof -
  have "''a'' < ''b''" by (simp add: less_char_def)
  then show ?thesis
    by (simp add: ex_reused_def ex_start_state ex_acquire ex_revoke ex_complete_revocation ex_expire
        saturating_add_def Let_def less_not_sym)
qed

theorem expiry_scan_frees_live_lease_witness:
  "let s' = au_ledger (snd (expire_one (ex_ports 1) 1 (ex_lease ''a'' 2 LRevoked) (ex_authority ex_reused))) in
     map_of (rm_leases s') ''b'' = Some (ex_lease ''b'' 3 LActive) \<and> ''g0'' \<notin> set (rm_allocated s')"
  using expiry_scan_frees_live_lease [of "ex_authority ex_reused" "ex_lease ''a'' 2 LRevoked" "''b''"
      "ex_lease ''b'' 3 LActive" "''g0''" "ex_ports 1" 1]
  by (simp add: ex_reused_state) (simp add: authority_new_def ex_state_def ex_lease_def lease_ids_def)

lemma attempt_rejected: "m s = (Inl (Rejected e), s) \<Longrightarrow> attempt m s = (Inr (Inl e), s)"
  by (simp add: attempt_def)

lemma daemon_leases_result:
  assumes "pt_now P (au_world s) = (t, w)"
  shows "daemon_leases P s = (Inr (bm_values (rm_leases (expire_due_leases t (au_ledger s)))),
     s\<lparr>au_world := w, au_ledger := expire_due_leases t (au_ledger s)\<rparr>)"
  using assms by (simp add: daemon_leases_def act_simps leases_def Let_def)

lemma lease_is_allocated_expire [simp]:
  "lease_is_allocated n (expire_due_leases t L) = lease_is_allocated n L"
  by (cases "map_of (rm_leases L) n") (simp_all add: lease_is_allocated_def map_of_expire)

lemma expire_all_skips:
  "(\<And>l. l \<in> set ls \<Longrightarrow> expire_one P now l s = (Inr [], s)) \<Longrightarrow> expire_all P now ls s = (Inr [], s)"
  by (induction ls) (simp_all add: bind_act_def ret_def)

lemma expire_one_not_due:
  "\<not> needs_active_expiry now (lease_is_allocated (rl_name l) (au_ledger s)) l \<Longrightarrow> expire_one P now l s = (Inr [], s)"
  by (simp add: expire_one_def daemon_is_allocated_def bind_act_def gets_def ret_def)

lemma expire_one_foreign_worker:
  assumes "find (\<lambda>(_, name). name = rl_name l) (au_leases s) = Some (obj, rl_name l)"
    and "or_namespace obj \<noteq> NamespaceId_default"
    and "bound_worker (or_identity obj) (rl_name l) (au_instances s) = Some i"
    and "map_of (au_workers s) (ObjectRef (or_namespace obj) i) = None"
  shows "expire_one P now l s = (Inr [], s)"
proof -
  let ?c = "expiry_context (or_namespace obj) i"
  have "\<exists>e. mark_worker_lost P ?c i ''LEASE_EXPIRED'' s = (Inl (Rejected e), s)"
    using assms(2,4) unfolding mark_worker_lost_def
    by (cases "AuthorityCallContext_validate_for ?c ContractRevision_current")
      (simp_all add: act_simps validate_context_def map_err_def worker_instance_name_def
        expiry_context_def AuthorityCallContext_object_ref_def)
  then obtain e where "attempt (mark_worker_lost P ?c i ''LEASE_EXPIRED'') s = (Inr (Inl e), s)"
    using attempt_rejected by blast
  then show ?thesis
    using assms(1,3)
    by (simp add: expire_one_def daemon_is_allocated_def bind_act_def gets_def ret_def Let_def)
qed

text \<open>C18. The expiry scan can leave an expired lease in place. A lease is matched to a worker by its id
  alone, which two namespaces may share. Take a lease that is due, tracked in a namespace other than
  the default one, for which the worker found is not registered in that namespace, and let no other
  lease be due. Then a whole run of the scan succeeds with nothing done: the authority is what it was
  but for the clock readings and for active leases marked expired, and the lease still has its token
  and its resources and is not revoked. Every further scan under these conditions does the same.\<close>

theorem expiry_scan_skips_shared_id:
  assumes "named_ledger (au_ledger s)" and "map_of (rm_leases (au_ledger s)) n = Some l"
    and "pt_now P (au_world s) = (now, w1)" and "pt_now P w1 = (t, w2)"
    and "needs_active_expiry now (lease_is_allocated n (au_ledger s)) l" and "rl_state l \<noteq> LRevoked"
    and "find (\<lambda>(_, name). name = n) (au_leases s) = Some (obj, n)"
    and "or_namespace obj \<noteq> NamespaceId_default"
    and "bound_worker (or_identity obj) n (au_instances s) = Some i"
    and "map_of (au_workers s) (ObjectRef (or_namespace obj) i) = None"
    and "\<forall>m k. m \<noteq> n \<and> map_of (rm_leases (au_ledger s)) m = Some k \<longrightarrow>
      \<not> lease_expired k now \<and> (rl_state k = LRevoked \<longrightarrow> \<not> lease_is_allocated m (au_ledger s))"
  shows "enforce_lease_expiry P s =
      (Inr [], s\<lparr>au_world := w2, au_ledger := expire_due_leases t (au_ledger s)\<rparr>) \<and>
    (\<exists>l'. map_of (rm_leases (expire_due_leases t (au_ledger s))) n = Some l' \<and>
       rl_state l' \<in> {LActive, LReleasing, LExpired} \<and> rl_fence_token l' = rl_fence_token l \<and>
       needs_active_expiry now (lease_is_allocated n (expire_due_leases t (au_ledger s))) l' \<and>
       rm_allocated (expire_due_leases t (au_ledger s)) = rm_allocated (au_ledger s))"
proof -
  let ?L = "expire_due_leases t (au_ledger s)"
  let ?s = "s\<lparr>au_world := w2, au_ledger := ?L\<rparr>"
  have named: "named_ledger ?L" using assms(1) by (rule named_expire)
  have skip: "expire_one P now k ?s = (Inr [], ?s)" if k: "k \<in> set (bm_values (rm_leases ?L))" for k
  proof -
    obtain m where "(m, k) \<in> set (rm_leases ?L)" using k by (auto simp: bm_values_def)
    then have m: "map_of (rm_leases ?L) m = Some k" using named by (simp add: named_ledger_def map_of_in_set)
    then have name: "rl_name k = m" using named by (simp add: named_ledger_def)
    from m obtain k0 where k0: "map_of (rm_leases (au_ledger s)) m = Some k0" "k = expire_lease t k0"
      by (auto simp: map_of_expire)
    show ?thesis
    proof (cases "m = n")
      case True
      then show ?thesis using assms(7-10) name by (intro expire_one_foreign_worker [where obj = obj and i = i]) simp_all
    next
      case False
      then have "\<not> needs_active_expiry now (lease_is_allocated (rl_name k) (au_ledger ?s)) k"
        using assms(11) k0 name by (auto simp: needs_active_expiry_def lease_expired_def expire_lease_def split: if_splits)
      then show ?thesis by (rule expire_one_not_due)
    qed
  qed
  have "enforce_lease_expiry P s = expire_all P now (bm_values (rm_leases ?L)) ?s"
    using assms(3) daemon_leases_result [of P "s\<lparr>au_world := w1\<rparr>" t w2] assms(4)
    by (simp add: enforce_lease_expiry_def bind_act_def port_def)
  then have "enforce_lease_expiry P s = (Inr [], ?s)" using expire_all_skips [of _ P now ?s] skip by simp
  moreover have "rl_state (expire_lease t l) \<in> {LActive, LReleasing, LExpired}"
    using assms(5,6) by (auto simp: needs_active_expiry_def expire_lease_def)
  moreover have "needs_active_expiry now (lease_is_allocated n ?L) (expire_lease t l)"
    using assms(5,6) by (auto simp: needs_active_expiry_def expire_lease_def lease_expired_def)
  ultimately show ?thesis using assms(2) by (simp add: map_of_expire)
qed

definition ex_plan :: launch_plan where
  "ex_plan =
     \<lparr>lp_instance_name = ''w'', lp_executable = ''x'', lp_args = [], lp_environment = [],
      lp_cgroup_name = ''w'', lp_limits = ex_limits, lp_working_dir = None, lp_transport_socket = None\<rparr>"

definition ex_binding :: device_binding where
  "ex_binding =
     \<lparr>db_resource_id = ''g0'', db_nodes = [], db_environment = [], db_joinable_environment_keys = [],
      db_required_gids = [], db_enforcement = ObserveOnly, db_adapter_id = ''prov'',
      db_reason_code = ''ready''\<rparr>"

definition ex_worker :: worker where
  "ex_worker =
     \<lparr>wk_identity = Identity ''w'' 1, wk_principal = Identity ''alice'' 1, wk_provider = Identity ''prov'' 1,
      wk_lease = Identity ''a'' 1, wk_state = WkRunning, wk_execution_ref = ''x'', wk_limits = []\<rparr>"

theorem expiry_scan_skips_shared_id_witness:
  "\<exists>s s' :: unit authority. au_ledger s = ex_held \<and>
     needs_active_expiry 60 (lease_is_allocated ''a'' ex_held) (ex_lease ''a'' 1 LActive) \<and>
     enforce_lease_expiry (ex_ports 60) s = (Inr [], s') \<and>
     (\<exists>l'. map_of (rm_leases (au_ledger s')) ''a'' = Some l' \<and> rl_state l' \<noteq> LRevoked \<and> rl_fence_token l' = 1)"
proof -
  let ?blue = "new_process (InstanceActor_new ''b'' ''b'' 7 ex_plan ex_binding 1)
    (ex_lease ''b'' 7 LActive) ex_worker"
  let ?l = "ex_lease ''a'' 1 LActive"
  let ?s = "(ex_authority ex_held)\<lparr>
    au_leases := [(ObjectRef (NamespaceId ''red'') (Identity ''a'' 1), ''a'')],
    au_workers := [(ObjectRef (NamespaceId ''blue'') (Identity ''w'' 1), ''b'')],
    au_instances := [(''b'', ?blue)]\<rparr>"
  have L: "au_ledger ?s = ex_held" by (simp add: authority_new_def)
  have due: "needs_active_expiry 60 (lease_is_allocated ''a'' ex_held) ?l"
    by (simp add: needs_active_expiry_def lease_expired_def ex_lease_def)
  have "enforce_lease_expiry (ex_ports 60) ?s = (Inr [], ?s\<lparr>au_world := (), au_ledger := expire_due_leases 60 (au_ledger ?s)\<rparr>) \<and>
    (\<exists>l'. map_of (rm_leases (expire_due_leases 60 (au_ledger ?s))) ''a'' = Some l' \<and>
       rl_state l' \<in> {LActive, LReleasing, LExpired} \<and> rl_fence_token l' = rl_fence_token ?l \<and>
       needs_active_expiry 60 (lease_is_allocated ''a'' (expire_due_leases 60 (au_ledger ?s))) l' \<and>
       rm_allocated (expire_due_leases 60 (au_ledger ?s)) = rm_allocated (au_ledger ?s))"
  proof (rule expiry_scan_skips_shared_id)
    show "named_ledger (au_ledger ?s)"
      unfolding L by (simp add: named_ledger_def ex_state_def ex_lease_def bm_ok_def)
    show "map_of (rm_leases (au_ledger ?s)) ''a'' = Some ?l" unfolding L by (simp add: ex_state_def)
    show "pt_now (ex_ports 60) (au_world ?s) = (60, ())" by (simp add: ex_ports_def)
    show "pt_now (ex_ports 60) () = (60, ())" by (simp add: ex_ports_def)
    show "needs_active_expiry 60 (lease_is_allocated ''a'' (au_ledger ?s)) ?l" unfolding L by (rule due)
    show "rl_state ?l \<noteq> LRevoked" by (simp add: ex_lease_def)
    show "or_namespace (ObjectRef (NamespaceId ''red'') (Identity ''a'' 1)) \<noteq> NamespaceId_default"
      by (simp add: NamespaceId_default_def DEFAULT_NAMESPACE_def)
    show "bound_worker (or_identity (ObjectRef (NamespaceId ''red'') (Identity ''a'' 1))) ''a'' (au_instances ?s) =
        Some (Identity ''w'' 1)" by (simp add: new_process_def ex_worker_def)
    show "\<forall>m k. m \<noteq> ''a'' \<and> map_of (rm_leases (au_ledger ?s)) m = Some k \<longrightarrow>
        \<not> lease_expired k 60 \<and> (rl_state k = LRevoked \<longrightarrow> \<not> lease_is_allocated m (au_ledger ?s))"
      unfolding L by (simp add: ex_state_def)
  qed simp_all
  then obtain l' where run: "enforce_lease_expiry (ex_ports 60) ?s = (Inr [], ?s\<lparr>au_world := (), au_ledger := expire_due_leases 60 (au_ledger ?s)\<rparr>)"
    and l': "map_of (rm_leases (expire_due_leases 60 (au_ledger ?s))) ''a'' = Some l'"
      "rl_state l' \<in> {LActive, LReleasing, LExpired}" "rl_fence_token l' = rl_fence_token ?l" by blast
  let ?s' = "?s\<lparr>au_world := (), au_ledger := expire_due_leases 60 (au_ledger ?s)\<rparr>"
  have "map_of (rm_leases (au_ledger ?s')) ''a'' = Some l' \<and> rl_state l' \<noteq> LRevoked \<and> rl_fence_token l' = 1"
    using l' by (auto simp: ex_lease_def)
  with L due run show ?thesis by blast
qed

end
