(* ===== verification/Authority_Expiry.thy ===== *)
theory Authority_Expiry
  imports Authority_Handlers
begin

text \<open>
  The expiry scan reclaims: when no process is managed, one run of \<open>enforce_lease_expiry\<close> revokes
  every active, releasing or expired lease whose expiry has passed and frees its resources, and it
  leaves failed and released leases alone, whatever the journal and the event store answer.
\<close>

section \<open>One turn\<close>

lemma publish_into_ok: "fst (publish_into P ns i k sch b h s) = Inr ()"
  by (simp add: publish_into_def put_history_def act_simps Let_def split: prod.split sum.split option.split)

lemma attempt_ok:
  assumes "\<And>msg. fst (m s) \<noteq> Inl (Panicked msg)"
  obtains r s' where "attempt m s = (Inr r, s')"
proof -
  obtain a s1 where m: "m s = (a, s1)" by (cases "m s")
  show thesis
  proof (cases a)
    case (Inl e)
    then show ?thesis using that assms m by (cases e) (auto simp: attempt_def)
  qed (use that m in \<open>simp add: attempt_def\<close>)
qed

lemma publish_ok: "fst (publish_semantic_event_in P ns i k sch b s) = Inr ()"
proof -
  have no_panic: "fst (event_history_for P ns src s) \<noteq> Inl (Panicked m)" for src m s
    by (auto simp: event_history_for_def act_simps map_err_def split: prod.splits sum.splits option.splits)
  obtain r s1 where a: "attempt (event_history_for P ns (semantic_event_source_for P ns)) s = (Inr r, s1)"
    by (rule attempt_ok [OF no_panic])
  show ?thesis
    unfolding publish_semantic_event_in_def
    by (simp add: bind_act_def gets_def a ret_def publish_into_ok split: option.split sum.split)
qed

text \<open>What a turn does to the ledger, as a function of the clock reading it makes.\<close>

definition reclaim :: "u64 \<Rightarrow> resource_lease \<Rightarrow> rm_state \<Rightarrow> rm_state" where
  "reclaim t l L =
     (if rl_state l = LRevoked then snd (complete_revocation (rl_name l) (rl_fence_token l) L)
      else case revoke t (rl_name l) (rl_fence_token l) L of
        (Inl _, L1) \<Rightarrow> L1
      | (Inr x, L1) \<Rightarrow> snd (complete_revocation (rl_name x) (rl_fence_token x) L1))"

lemma ignore_complete:
  "ignore (daemon_complete_revocation n f) s =
     (Inr (), s\<lparr>au_ledger := snd (complete_revocation n f (au_ledger s))\<rparr>)"
  by (cases "complete_revocation n f (au_ledger s)"; cases "fst (complete_revocation n f (au_ledger s))")
    (auto simp: ignore_def daemon_complete_revocation_def act_simps map_err_def)

definition turn_tail :: "'w ports \<Rightarrow> namespace_id \<Rightarrow> identity \<Rightarrow> resource_lease \<Rightarrow> ('w, provider_reconcile_action list) act" where
  "turn_tail P ns i x =
     then_act (ignore (record_runtime P JLeaseRevoked None (Some x) ''LEASE_EXPIRED''))
    (then_act (ignore (record_runtime P FenceAdvanced None (Some x) ''LEASE_EXPIRED''))
    (then_act (ignore (daemon_complete_revocation (rl_name x) (rl_fence_token x)))
    (then_act (publish_lease_revoked P ns i)
     (ret [RevokeLease i]))))"

lemma turn_tail_effect:
  "fst (turn_tail P ns i x s) = Inr [RevokeLease i] \<and>
   au_ledger (snd (turn_tail P ns i x s)) = snd (complete_revocation (rl_name x) (rl_fence_token x) (au_ledger s)) \<and>
   au_instances (snd (turn_tail P ns i x s)) = au_instances s"
proof -
  obtain w where 1: "ignore (record_runtime P JLeaseRevoked None (Some x) ''LEASE_EXPIRED'') s =
      (Inr (), s\<lparr>au_world := w\<rparr>)" by (rule ignore_record)
  let ?s1 = "s\<lparr>au_world := w\<rparr>"
  obtain w2 where 2: "ignore (record_runtime P FenceAdvanced None (Some x) ''LEASE_EXPIRED'') ?s1 =
      (Inr (), ?s1\<lparr>au_world := w2\<rparr>)" by (rule ignore_record)
  let ?s3 = "?s1\<lparr>au_world := w2\<rparr>\<lparr>au_ledger := snd (complete_revocation (rl_name x) (rl_fence_token x) (au_ledger s))\<rparr>"
  have t: "turn_tail P ns i x s = then_act (publish_lease_revoked P ns i) (ret [RevokeLease i]) ?s3"
    using 1 2 ignore_complete [of "rl_name x" "rl_fence_token x" "?s1\<lparr>au_world := w2\<rparr>"]
    by (simp add: turn_tail_def then_act_def bind_act_def)
  obtain s4 where p: "publish_lease_revoked P ns i ?s3 = (Inr (), s4)"
    unfolding publish_lease_revoked_def using publish_ok by (metis prod.collapse)
  have "au_ledger s4 = au_ledger ?s3" "au_instances s4 = au_instances ?s3"
    using keepsD [OF publish_keeps p [unfolded publish_lease_revoked_def]] by (simp_all add: publishes_def)
  then show ?thesis unfolding t using p by (simp add: then_act_def bind_act_def ret_def)
qed

lemma standalone_effect:
  obtains t r where "fst (expire_standalone P ns i l s) = Inr r"
    and "au_ledger (snd (expire_standalone P ns i l s)) = reclaim t l (au_ledger s)"
    and "au_instances (snd (expire_standalone P ns i l s)) = au_instances s"
proof (cases "rl_state l = LRevoked")
  case True
  then have "expire_standalone P ns i l s = turn_tail P ns i l s"
    by (simp add: expire_standalone_def revoke_unless_revoked_def turn_tail_def bind_act_def ret_def)
  then show ?thesis using that turn_tail_effect [of P ns i l s] True by (simp add: reclaim_def)
next
  case False
  obtain t w where now: "pt_now P (au_world s) = (t, w)" by (cases "pt_now P (au_world s)")
  obtain res L1 where r: "revoke t (rl_name l) (rl_fence_token l) (au_ledger s) = (res, L1)"
    by (cases "revoke t (rl_name l) (rl_fence_token l) (au_ledger s)")
  let ?s = "s\<lparr>au_world := w\<rparr>\<lparr>au_ledger := L1\<rparr>"
  have v: "revoke_unless_revoked P l s = (Inr (map_err provider_rejection res), ?s)"
    using False now r
    by (cases res) (simp_all add: revoke_unless_revoked_def daemon_revoke_def act_simps map_err_def)
  show ?thesis
  proof (cases res)
    case (Inl e)
    then have "expire_standalone P ns i l s = (Inr [], ?s)"
      using v by (simp add: expire_standalone_def bind_act_def map_err_def ret_def)
    then show ?thesis using that [of "[]" t] False r Inl by (simp add: reclaim_def)
  next
    case (Inr x)
    then have "expire_standalone P ns i l s = turn_tail P ns i x ?s"
      using v by (simp add: expire_standalone_def bind_act_def map_err_def turn_tail_def)
    then show ?thesis
      using that [of "[RevokeLease i]" t] turn_tail_effect [of P ns i x ?s] False r Inr by (simp add: reclaim_def)
  qed
qed

lemma idle_turn:
  assumes "au_instances s = []"
  obtains (skip) "\<not> needs_active_expiry now (lease_is_allocated (rl_name l) (au_ledger s)) l"
      and "expire_one P now l s = (Inr [], s)"
  | (turn) t r where "fst (expire_one P now l s) = Inr r"
      and "au_ledger (snd (expire_one P now l s)) = reclaim t l (au_ledger s)"
      and "au_instances (snd (expire_one P now l s)) = []"
proof (cases "needs_active_expiry now (lease_is_allocated (rl_name l) (au_ledger s)) l")
  case False
  then show ?thesis
    using skip by (simp add: expire_one_def daemon_is_allocated_def bind_act_def gets_def ret_def)
next
  case True
  have "\<exists>ns i. expire_one P now l s = expire_standalone P ns i l s"
    using assms True
    by (auto simp: expire_one_def daemon_is_allocated_def bind_act_def gets_def Let_def)
  then show ?thesis using standalone_effect turn assms by metis
qed

section \<open>The scan\<close>

text \<open>
  Before its turn an expired lease waits under its old token; after its turn it is revoked
  under a larger one and none of its resources is allocated.
\<close>

definition waiting :: "string \<Rightarrow> u64 \<Rightarrow> string list \<Rightarrow> rm_state \<Rightarrow> bool" where
  "waiting n f ids L \<longleftrightarrow>
     (\<exists>k. map_of (rm_leases L) n = Some k \<and> rl_fence_token k = f \<and> lease_ids k = ids \<and>
        rl_state k \<in> {LActive, LReleasing, LExpired})"

definition reclaimed :: "string \<Rightarrow> u64 \<Rightarrow> string list \<Rightarrow> rm_state \<Rightarrow> bool" where
  "reclaimed n f ids L \<longleftrightarrow>
     (\<exists>k. map_of (rm_leases L) n = Some k \<and> f < rl_fence_token k \<and> rl_state k = LRevoked) \<and>
     set ids \<inter> set (rm_allocated L) = {}"

lemma expire_lease_state:
  "rl_state k \<in> {LActive, LReleasing, LExpired} \<Longrightarrow>
     rl_state (expire_lease t k) \<in> {LActive, LReleasing, LExpired}"
  "rl_state k = LRevoked \<Longrightarrow> expire_lease t k = k"
  by (auto simp: expire_lease_def)

lemma waiting_expire: "waiting n f ids L \<Longrightarrow> waiting n f ids (expire_due_leases t L)"
  using expire_lease_state(1) by (fastforce simp: waiting_def map_of_expire)

lemma reclaimed_expire: "reclaimed n f ids L \<Longrightarrow> reclaimed n f ids (expire_due_leases t L)"
  using expire_lease_state(2) by (fastforce simp: reclaimed_def map_of_expire)

lemma complete_revocation_effect:
  obtains "snd (complete_revocation m g L) = L"
  | x where "map_of (rm_leases L) m = Some x" and "rl_state x = LRevoked"
      and "snd (complete_revocation m g L) = free_allocations x L"
proof (cases "fenced_lookup L m g")
  case (Inl e)
  then show ?thesis using that(1) by (simp add: complete_revocation_def)
next
  case (Inr x)
  then have "map_of (rm_leases L) m = Some x" by (simp add: fenced_lookup_Inr)
  then show ?thesis using that Inr by (cases "rl_state x = LRevoked") (simp_all add: complete_revocation_def)
qed

text \<open>A turn for another lease; its own revocation result carries its own name.\<close>

lemma complete_keeps:
  "waiting n f ids L \<Longrightarrow> waiting n f ids (snd (complete_revocation m g L))"
  "reclaimed n f ids L \<Longrightarrow> reclaimed n f ids (snd (complete_revocation m g L))"
  by (rule complete_revocation_effect [of m g L]; auto simp: waiting_def reclaimed_def)+

lemma revoke_keeps:
  assumes "m \<noteq> n"
  shows "waiting n f ids L \<Longrightarrow> waiting n f ids (snd (revoke t m g L))"
    and "reclaimed n f ids L \<Longrightarrow> reclaimed n f ids (snd (revoke t m g L))"
proof -
  have "\<exists>L1. snd (revoke t m g L) = expire_due_leases t L \<or>
      rm_leases (snd (revoke t m g L)) = bm_update m L1 (rm_leases (expire_due_leases t L)) \<and>
      rm_allocated (snd (revoke t m g L)) = rm_allocated L"
    by (rule revoke_state [of t m g L]) auto
  then obtain L1 where "snd (revoke t m g L) = expire_due_leases t L \<or>
      rm_leases (snd (revoke t m g L)) = bm_update m L1 (rm_leases (expire_due_leases t L)) \<and>
      rm_allocated (snd (revoke t m g L)) = rm_allocated L" by blast
  then show "waiting n f ids L \<Longrightarrow> waiting n f ids (snd (revoke t m g L))"
    "reclaimed n f ids L \<Longrightarrow> reclaimed n f ids (snd (revoke t m g L))"
    using waiting_expire [of n f ids L t] reclaimed_expire [of n f ids L t] assms
    by (auto simp: waiting_def reclaimed_def)
qed

lemma reclaim_other:
  assumes "rl_name l \<noteq> n"
  shows "waiting n f ids L \<Longrightarrow> waiting n f ids (reclaim t l L)"
    and "reclaimed n f ids L \<Longrightarrow> reclaimed n f ids (reclaim t l L)"
  using revoke_keeps [OF assms, of f ids L t "rl_fence_token l"]
  by (auto simp: reclaim_def complete_keeps split: prod.split sum.split)

lemma reclaim_own:
  assumes "waiting n f ids L" and "rl_name l = n" and "rl_fence_token l = f" and "rl_state l \<noteq> LRevoked"
    and "f \<noteq> - 1" and "named_ledger L"
  shows "reclaimed n f ids (reclaim t l L)"
proof -
  obtain k where k: "map_of (rm_leases L) n = Some k" "rl_fence_token k = f" "lease_ids k = ids"
    "rl_state k \<in> {LActive, LReleasing, LExpired}"
    using assms(1) unfolding waiting_def by blast
  show ?thesis
  proof (rule revoke_state [of t n f L])
    fix e assume "revoke t n f L = (Inl e, expire_due_leases t L)"
    moreover have "\<exists>x L1. revoke t n f L = (Inr x, L1)"
      using k by (auto simp: revoke_def fenced_lookup_def map_of_expire Let_def expire_lease_def)
    ultimately show ?thesis by simp
  next
    fix x g
    assume x: "map_of (rm_leases (expire_due_leases t L)) n = Some x" "rl_fence_token x = f"
      and g: "g = max (rm_next_fence_token L) (saturating_add f 1)"
      and r: "revoke t n f L = (Inr (x\<lparr>rl_fence_token := g, rl_state := LRevoked\<rparr>),
         store_lease n (x\<lparr>rl_fence_token := g, rl_state := LRevoked\<rparr>)
           ((expire_due_leases t L)\<lparr>rm_next_fence_token := saturating_add g 1\<rparr>))"
    let ?x = "x\<lparr>rl_fence_token := g, rl_state := LRevoked\<rparr>"
    let ?L = "store_lease n ?x ((expire_due_leases t L)\<lparr>rm_next_fence_token := saturating_add g 1\<rparr>)"
    have "f < g" unfolding g using saturating_add_one_gt [OF assms(5)] by (simp add: less_max_iff_disj)
    moreover have ids: "lease_ids ?x = ids" "rl_name ?x = n"
      using x(1) k(1,3) assms(6) by (auto simp: map_of_expire named_ledger_def lease_ids_def expire_lease_def)
    moreover have look: "map_of (rm_leases ?L) n = Some ?x" using x(1) by simp
    moreover from this have "complete_revocation n g ?L = (Inr ?x, free_allocations ?x ?L)"
      using complete_revocation_frees [of ?L ?x] ids by simp
    ultimately have "reclaimed n f ids (snd (complete_revocation n g ?L))"
      by (auto simp: reclaimed_def)
    moreover have "reclaim t l L = snd (complete_revocation n g ?L)"
      using assms(2-4) r ids(2) by (simp add: reclaim_def)
    ultimately show ?thesis by simp
  qed
qed

lemma named_reclaim: "named_ledger L \<Longrightarrow> named_ledger (reclaim t l L)"
  using named_revoke [of L t "rl_name l" "rl_fence_token l"]
  by (auto simp: reclaim_def named_fenced split: prod.split sum.split)

lemma scan_reclaims:
  assumes "au_instances s = []" and "named_ledger (au_ledger s)" and "f \<noteq> - 1"
    and "distinct (map rl_name ls)"
    and "(\<exists>l\<in>set ls. rl_name l = n \<and> rl_fence_token l = f \<and> lease_expired l now \<and>
           rl_state l \<in> {LActive, LReleasing, LExpired}) \<and> waiting n f ids (au_ledger s) \<or>
         n \<notin> rl_name ` set ls \<and> reclaimed n f ids (au_ledger s)"
  shows "(\<exists>r. fst (expire_all P now ls s) = Inr r) \<and> reclaimed n f ids (au_ledger (snd (expire_all P now ls s)))"
  using assms
proof (induction ls arbitrary: s)
  case Nil
  then show ?case by (simp add: ret_def)
next
  case (Cons l ls)
  obtain r s1 where e: "expire_one P now l s = (Inr r, s1)" and i: "au_instances s1 = []"
    and n: "named_ledger (au_ledger s1)"
    and own: "rl_name l = n \<longrightarrow> reclaimed n f ids (au_ledger s1)"
    and other: "rl_name l \<noteq> n \<longrightarrow> (waiting n f ids (au_ledger s) \<longrightarrow> waiting n f ids (au_ledger s1)) \<and>
      (reclaimed n f ids (au_ledger s) \<longrightarrow> reclaimed n f ids (au_ledger s1))"
  proof -
    have due: "rl_name l = n \<Longrightarrow> waiting n f ids (au_ledger s) \<and> rl_fence_token l = f \<and>
        rl_state l \<noteq> LRevoked \<and> needs_active_expiry now a l" for a
    proof -
      assume name: "rl_name l = n"
      then obtain x where x: "x \<in> set (l # ls)" "rl_name x = n" "rl_fence_token x = f" "lease_expired x now"
        "rl_state x \<in> {LActive, LReleasing, LExpired}" and w: "waiting n f ids (au_ledger s)"
        using Cons.prems(5) by auto
      have "x = l" using Cons.prems(4) x(1,2) name by (auto simp: image_iff)
      then show ?thesis using x w by (auto simp: needs_active_expiry_def)
    qed
    show thesis
      using Cons.prems(1)
    proof (cases rule: idle_turn [where now = now and l = l and P = P, case_names skip turn])
      case skip
      then show ?thesis using that [of "[]" s] due Cons.prems by blast
    next
      case (turn t r)
      have "rl_name l = n \<longrightarrow> reclaimed n f ids (reclaim t l (au_ledger s))"
        using due reclaim_own Cons.prems(2,3) by blast
      then show ?thesis
        using that [of r "snd (expire_one P now l s)"] turn reclaim_other [of l n f ids "au_ledger s" t]
          named_reclaim [OF Cons.prems(2)] by (metis prod.collapse)
    qed
  qed
  have "(\<exists>x\<in>set ls. rl_name x = n \<and> rl_fence_token x = f \<and> lease_expired x now \<and>
           rl_state x \<in> {LActive, LReleasing, LExpired}) \<and> waiting n f ids (au_ledger s1) \<or>
         n \<notin> rl_name ` set ls \<and> reclaimed n f ids (au_ledger s1)"
    using Cons.prems(4,5) own other by (cases "rl_name l = n") auto
  from Cons.IH [OF i n Cons.prems(3) _ this] show ?case
    using Cons.prems(4) e by (auto simp: bind_act_def ret_def split: prod.splits sum.splits)
qed

text \<open>A turn is a short sequence of ledger calls, and leaves every other lease that is not active alone.\<close>

lemma reclaim_exec: "\<exists>cs. reclaim t x L = fold rm_exec cs L"
proof (cases "rl_state x = LRevoked")
  case True
  then have "reclaim t x L = fold rm_exec [CCompleteRevocation (rl_name x) (rl_fence_token x)] L"
    by (simp add: reclaim_def)
  then show ?thesis by blast
next
  case False
  show ?thesis
  proof (cases "revoke t (rl_name x) (rl_fence_token x) L")
    case (Pair res L1)
    have "reclaim t x L = fold rm_exec (CRevoke t (rl_name x) (rl_fence_token x) #
        (case res of Inl _ \<Rightarrow> [] | Inr y \<Rightarrow> [CCompleteRevocation (rl_name y) (rl_fence_token y)])) L"
      using False Pair by (cases res) (simp_all add: reclaim_def)
    then show ?thesis by blast
  qed
qed

lemma complete_revocation_leases: "rm_leases (snd (complete_revocation m g L)) = rm_leases L"
  by (rule complete_revocation_effect [of m g L]) simp_all

lemma reclaim_spares:
  assumes "rl_name x \<noteq> n" and "map_of (rm_leases L) n = Some l" and "rl_state l \<noteq> LActive"
  shows "map_of (rm_leases (reclaim t x L)) n = Some l"
proof -
  have "expire_lease t l = l" using assms(3) by (simp add: expire_lease_def)
  then have e: "map_of (rm_leases (expire_due_leases t L)) n = Some l" using assms(2) by (simp add: map_of_expire)
  have "map_of (rm_leases (snd (revoke t (rl_name x) g L))) n = Some l" for g
    by (rule revoke_state [of t "rl_name x" g L]) (use e assms(1) in auto)
  from this [of "rl_fence_token x"] show ?thesis
    using assms(2)
    by (cases "revoke t (rl_name x) (rl_fence_token x) L")
      (auto simp: reclaim_def complete_revocation_leases split: sum.split)
qed

lemma scan_runs:
  assumes "au_instances s = []" and "map_of (rm_leases (au_ledger s)) n = Some l"
  shows "\<exists>r s' k. expire_all P now ls s = (Inr r, s') \<and> map_of (rm_leases (au_ledger s')) n = Some k \<and>
    ((\<forall>x\<in>set ls. rl_name x = n \<longrightarrow> x = l) \<and> rl_state l \<notin> {LActive, LReleasing, LExpired, LRevoked} \<longrightarrow> k = l)"
  using assms
proof (induction ls arbitrary: s l)
  case (Cons x ls)
  obtain r s1 where e: "expire_one P now x s = (Inr r, s1)" "au_instances s1 = []"
    and k: "\<exists>k. map_of (rm_leases (au_ledger s1)) n = Some k \<and>
      ((rl_name x = n \<longrightarrow> x = l) \<and> rl_state l \<notin> {LActive, LReleasing, LExpired, LRevoked} \<longrightarrow> k = l)"
  proof (cases "needs_active_expiry now (lease_is_allocated (rl_name x) (au_ledger s)) x")
    case False
    show ?thesis by (rule that [OF expire_one_not_due [OF False]]) (use Cons.prems in auto)
  next
    case True
    then have not_due: "rl_name x \<noteq> n" if "rl_name x = n \<longrightarrow> x = l" "rl_state l \<notin> {LActive, LReleasing, LExpired, LRevoked}"
      using that by (auto simp: needs_active_expiry_def)
    show ?thesis
      using Cons.prems(1)
    proof (cases rule: idle_turn [where now = now and l = x and P = P, case_names skip turn])
      case skip
      then show ?thesis using True by blast
    next
      case (turn t r)
      obtain cs where "reclaim t x (au_ledger s) = fold rm_exec cs (au_ledger s)" using reclaim_exec by blast
      then have "\<exists>k. map_of (rm_leases (reclaim t x (au_ledger s))) n = Some k"
        using run_evolves [OF Cons.prems(2), of cs] by auto
      moreover have "map_of (rm_leases (reclaim t x (au_ledger s))) n = Some l"
        if "rl_name x = n \<longrightarrow> x = l" "rl_state l \<notin> {LActive, LReleasing, LExpired, LRevoked}"
        by (rule reclaim_spares [OF not_due [OF that] Cons.prems(2)]) (use that in simp)
      ultimately show ?thesis
        using that [of r "snd (expire_one P now x s)"] turn by (metis option.inject prod.collapse)
    qed
  qed
  then obtain k where k: "map_of (rm_leases (au_ledger s1)) n = Some k"
    "(rl_name x = n \<longrightarrow> x = l) \<and> rl_state l \<notin> {LActive, LReleasing, LExpired, LRevoked} \<longrightarrow> k = l" by blast
  obtain r2 s2 k2 where rest: "expire_all P now ls s1 = (Inr r2, s2)" "map_of (rm_leases (au_ledger s2)) n = Some k2"
    "(\<forall>x\<in>set ls. rl_name x = n \<longrightarrow> x = k) \<and> rl_state k \<notin> {LActive, LReleasing, LExpired, LRevoked} \<longrightarrow> k2 = k"
    using Cons.IH [OF e(2) k(1)] by blast
  have "expire_all P now (x # ls) s = (Inr (r @ r2), s2)" using e(1) rest(1) by (simp add: bind_act_def ret_def)
  moreover have "k2 = l"
    if "\<forall>y\<in>set (x # ls). rl_name y = n \<longrightarrow> y = l" "rl_state l \<notin> {LActive, LReleasing, LExpired, LRevoked}"
    using that k(2) rest(3) by auto
  ultimately show ?case using rest(2) by blast
qed (simp add: ret_def)

text \<open>C11. What one expiry scan does to each lease when no process is managed. In a well-formed state one
  run of the scan succeeds, whatever the journal and the event store answer, and keeps every lease on
  record. A lease that was active, releasing or already expired and whose expiry has passed is then
  revoked under a strictly larger token with none of its resources allocated (unless its token was the
  64-bit maximum). A failed, released or quarantined lease is untouched, expired or not.\<close>

theorem expired_lease_reclaimed:
  assumes "well_formed s" and "au_instances s = []" and "map_of (rm_leases (au_ledger s)) n = Some l"
  shows "\<exists>r s' k. enforce_lease_expiry P s = (Inr r, s') \<and> map_of (rm_leases (au_ledger s')) n = Some k \<and>
    (rl_state l \<in> {LActive, LReleasing, LExpired} \<and> rl_fence_token l \<noteq> - 1 \<and>
       (\<exists>e. rl_expires_at_unix_ms l = Some e \<and> e \<le> fst (pt_now P (au_world s))) \<longrightarrow>
     rl_state k = LRevoked \<and> rl_fence_token l < rl_fence_token k \<and>
     set (lease_ids l) \<inter> set (rm_allocated (au_ledger s')) = {}) \<and>
    (rl_state l \<in> {LFailed, LReleased, LQuarantined} \<longrightarrow> k = l)"
proof -
  obtain now w0 where now: "pt_now P (au_world s) = (now, w0)" by (cases "pt_now P (au_world s)")
  obtain t w where t: "pt_now P w0 = (t, w)" by (cases "pt_now P w0")
  let ?L = "expire_due_leases t (au_ledger s)" and ?l = "expire_lease t l"
  let ?s = "s\<lparr>au_world := w, au_ledger := ?L\<rparr>" and ?ls = "bm_values (rm_leases ?L)"
  have run: "enforce_lease_expiry P s = expire_all P now ?ls ?s"
    using now daemon_leases_result [of P "s\<lparr>au_world := w0\<rparr>" t w] t
    by (simp add: enforce_lease_expiry_def bind_act_def port_def)
  have named: "named_ledger ?L" using assms(1) named_expire by (simp add: well_formed_def)
  have look: "map_of (rm_leases ?L) n = Some ?l" using assms(3) by (simp add: map_of_expire)
  have names: "map rl_name ?ls = map fst (rm_leases ?L)"
    using named by (auto simp: bm_values_def named_ledger_def map_of_in_set)
  have dist: "distinct (map rl_name ?ls)" unfolding names using named bm_ok_distinct by (auto simp: named_ledger_def)
  have l_in: "?l \<in> set ?ls" using look by (force simp: bm_values_def dest: map_of_SomeD)
  have l_name: "rl_name ?l = n" using look named unfolding named_ledger_def by blast
  have only: "\<forall>x\<in>set ?ls. rl_name x = n \<longrightarrow> x = ?l"
    using dist l_in l_name inj_onD [of rl_name "set ?ls"] by (metis distinct_map)
  obtain r s' k where k: "expire_all P now ?ls ?s = (Inr r, s')" "map_of (rm_leases (au_ledger s')) n = Some k"
    "rl_state ?l \<notin> {LActive, LReleasing, LExpired, LRevoked} \<longrightarrow> k = ?l"
    using scan_runs [of ?s n ?l P now ?ls] assms(2) look only by auto
  have "rl_state k = LRevoked \<and> rl_fence_token l < rl_fence_token k \<and>
      set (lease_ids l) \<inter> set (rm_allocated (au_ledger s')) = {}"
    if due: "rl_state l \<in> {LActive, LReleasing, LExpired}" "rl_fence_token l \<noteq> - 1"
      "rl_expires_at_unix_ms l = Some e" "e \<le> now" for e
  proof -
    have st: "rl_state ?l \<in> {LActive, LReleasing, LExpired}" by (rule expire_lease_state(1) [OF due(1)])
    moreover have "lease_expired ?l now" using due(3,4) by (simp add: lease_expired_def)
    moreover have "waiting n (rl_fence_token l) (lease_ids l) ?L" using look st by (auto simp: waiting_def)
    ultimately have "reclaimed n (rl_fence_token l) (lease_ids l) (au_ledger (snd (expire_all P now ?ls ?s)))"
      using named assms(2) due(2) dist l_in l_name
      by (intro scan_reclaims [THEN conjunct2]) auto
    then show ?thesis using k(1,2) by (auto simp: reclaimed_def)
  qed
  moreover have "k = l" if "rl_state l \<in> {LFailed, LReleased, LQuarantined}"
    using that k(3) by (auto simp: expire_lease_def)
  ultimately show ?thesis using run k(1,2) now by auto
qed

theorem expired_lease_reclaimed_witness:
  "\<exists>r s' k. enforce_lease_expiry (ex_ports 60) (ex_authority ex_held) = (Inr r, s') \<and>
    map_of (rm_leases (au_ledger s')) ''a'' = Some k \<and> rl_state k = LRevoked \<and>
    ''g0'' \<notin> set (rm_allocated (au_ledger s'))"
proof -
  let ?s = "ex_authority ex_held" and ?l = "ex_lease ''a'' 1 LActive"
  have wf: "well_formed ?s"
    by (simp add: well_formed_def authority_new_def named_ledger_def kept_under_def ex_state_def ex_lease_def
        bm_ok_def)
  have m: "map_of (rm_leases (au_ledger ?s)) ''a'' = Some ?l"
    by (simp add: authority_new_def ex_state_def)
  have i: "au_instances ?s = []" by (simp add: authority_new_def)
  have due: "rl_state ?l \<in> {LActive, LReleasing, LExpired}" "rl_fence_token ?l \<noteq> - 1"
    "\<exists>e. rl_expires_at_unix_ms ?l = Some e \<and> e \<le> fst (pt_now (ex_ports 60) (au_world ?s))"
    by (simp_all add: ex_lease_def ex_ports_def)
  have ids: "set (lease_ids ?l) = {''g0''}" by (simp add: ex_lease_def lease_ids_def)
  show ?thesis using expired_lease_reclaimed [OF wf i m, of "ex_ports 60"] due ids by auto
qed

end
