(* ===== verification/Artifact_Identity.thy ===== *)
theory Artifact_Identity
  imports Cyrene_Prelude "HOL-Library.Sublist"
begin

text \<open>
  Content-addressed artifacts (\<open>contracts/rust/cy-manifest/src/manifest/artifact.rs\<close> and
  \<open>canonical.rs\<close>): artifact kinds and references, and the portable directory manifest. The
  validation loop of the manifest, which folds every path prefix into a case-insensitive index, is
  proved equivalent to a declarative description of the directories that unpack unambiguously, and
  the reference built for an accepted manifest is proved to be a valid one. The JSON
  canonicalisation and SHA-256 are parameters.
\<close>

section \<open>Kinds and references\<close>

definition PORTABLE_DIRECTORY_MANIFEST_VERSION :: u32 where
  "PORTABLE_DIRECTORY_MANIFEST_VERSION = 2"

definition JCS_SAFE_INTEGER_MAX :: u64 where
  "JCS_SAFE_INTEGER_MAX = 9007199254740991"

datatype artifact_kind = ArtifactKind (kind_as_str: string)

definition ArtifactKind_new :: "string \<Rightarrow> string + artifact_kind" where
  "ArtifactKind_new value =
     (if trim value = [] \<or> 128 < length value \<or> has_control value
      then Inl ''artifact kind must be a bounded non-empty identifier''
      else Inr (ArtifactKind value))"

definition ArtifactKind_generic :: artifact_kind where
  "ArtifactKind_generic = ArtifactKind ''generic''"

record artifact_ref =
  ar_uri :: string
  ar_digest :: string
  ar_size_bytes :: u64
  ar_kind :: artifact_kind
  ar_manifest_digest :: "string option"

definition strip_prefix :: "string \<Rightarrow> string \<Rightarrow> string option" where
  "strip_prefix p s = (if prefix p s then Some (drop (length p) s) else None)"

definition lower_hex :: "char \<Rightarrow> bool" where
  "lower_hex c \<longleftrightarrow> is_ascii_digit c \<or> 97 \<le> byte c \<and> byte c \<le> 102"

definition sha256_digest :: "string \<Rightarrow> bool" where
  "sha256_digest value \<longleftrightarrow>
     (case strip_prefix ''sha256:'' value of
        None \<Rightarrow> False
      | Some hex \<Rightarrow> length hex = 64 \<and> list_all lower_hex hex)"

definition validate_digest :: "string \<Rightarrow> string + unit" where
  "validate_digest value = ensure (sha256_digest value) ''digest must be lowercase sha256:<hex>''"

definition artifact_uri :: "string \<Rightarrow> string" where
  "artifact_uri digest = ''artifact://sha256/'' @ drop 7 digest"

definition ArtifactRef_validate :: "artifact_ref \<Rightarrow> string + unit" where
  "ArtifactRef_validate a =
     bind_res (ArtifactKind_new (kind_as_str (ar_kind a))) (\<lambda>_.
     bind_res (validate_digest (ar_digest a)) (\<lambda>_.
     bind_res (ensure (ar_uri a = artifact_uri (ar_digest a))
                 ''Artifact URI does not match its canonical digest'') (\<lambda>_.
     case ar_manifest_digest a of None \<Rightarrow> Inr () | Some d \<Rightarrow> validate_digest d)))"

section \<open>Directory entries\<close>

text \<open>A rejection: a fixed message, or one that quotes one or two paths (\<open>{path:?}\<close>).\<close>

datatype directory_error =
    Message string
  | AtPath string string
  | AtPaths string string string

record artifact_directory_entry =
  de_path :: string
  de_digest :: string
  de_size_bytes :: u64

definition is_ascii_alphabetic :: "char \<Rightarrow> bool" where
  "is_ascii_alphabetic c \<longleftrightarrow> is_ascii_lowercase c \<or> is_ascii_uppercase c"

definition has_drive :: "string \<Rightarrow> bool" where
  "has_drive first \<longleftrightarrow> 2 \<le> length first \<and> first ! 1 = CHR '':'' \<and> is_ascii_alphabetic (first ! 0)"

definition validate_directory_path :: "string \<Rightarrow> directory_error + unit" where
  "validate_directory_path path =
     (if path = [] \<or> prefix ''/'' path \<or> suffix ''/'' path \<or> CHR 0x5C \<in> set path \<or>
         CHR 0x00 \<in> set path \<or> sublist ''//'' path \<or> prefix ''./'' path
      then Inl (AtPath ''directory path is not canonical POSIX-relative: '' path)
      else if has_control path
      then Inl (AtPath ''directory path contains a control character: '' path)
      else if has_drive (hd (split_on CHR ''/'' path))
      then Inl (AtPath ''directory path contains a Windows drive prefix: '' path)
      else if list_ex (\<lambda>c. c = [] \<or> c = ''.'' \<or> c = ''..'') (split_on CHR ''/'' path)
      then Inl (AtPath ''directory path contains a non-canonical component: '' path)
      else Inr ())"

definition ArtifactDirectoryEntry_validate :: "artifact_directory_entry \<Rightarrow> directory_error + unit" where
  "ArtifactDirectoryEntry_validate e =
     bind_res (validate_directory_path (de_path e)) (\<lambda>_.
     bind_res (map_err Message (validate_digest (de_digest e))) (\<lambda>_.
     ensure (\<not> JCS_SAFE_INTEGER_MAX < de_size_bytes e)
       (Message ''directory entry size exceeds the JCS safe integer range'')))"

definition ascii_lower :: "char \<Rightarrow> char" where
  "ascii_lower c = (if is_ascii_uppercase c then char_of (byte c + 32) else c)"

definition ascii_casefold_path :: "string \<Rightarrow> string" where
  "ascii_casefold_path path = join_with ''/'' (map (map ascii_lower) (split_on CHR ''/'' path))"

section \<open>The directory manifest\<close>

record portable_directory_manifest =
  pdm_version :: u32
  pdm_files :: "artifact_directory_entry list"
  pdm_size_bytes :: u64

text \<open>
  The prefixes of a path as the first loop builds them (a separator before every component but the
  first) and the parents as the second loop does (a separator when the prefix is not empty).
\<close>

fun prefixes_from :: "string \<Rightarrow> string list \<Rightarrow> string list" where
  "prefixes_from p [] = []"
| "prefixes_from p (c # cs) = (p @ c) # prefixes_from (p @ c @ ''/'') cs"

definition path_prefixes :: "string \<Rightarrow> string list" where
  "path_prefixes path = prefixes_from [] (split_on CHR ''/'' path)"

fun parents_from :: "string \<Rightarrow> string list \<Rightarrow> string list" where
  "parents_from p [] = []"
| "parents_from p (c # cs) =
     (let q = (if p = [] then p else p @ ''/'') @ c in q # parents_from q cs)"

definition path_parents :: "string \<Rightarrow> string list" where
  "path_parents path =
     (let components = split_on CHR ''/'' path
      in parents_from [] (take (length components - 1) components))"

definition index_prefix ::
    "(string, string) btree_map \<Rightarrow> string \<Rightarrow> directory_error + (string, string) btree_map" where
  "index_prefix m p =
     (let folded = ascii_casefold_path p; m' = bm_insert folded p m in
      case map_of m folded of
        None \<Rightarrow> Inr m'
      | Some existing \<Rightarrow>
          if existing \<noteq> p
          then Inl (AtPaths ''portable directory contains an ASCII case-insensitive path collision: ''
                      existing p)
          else Inr m')"

record manifest_vars =
  mv_previous_path :: "string option"
  mv_exact_paths :: "string btree_set"
  mv_casefold_prefixes :: "(string, string) btree_map"
  mv_logical_size :: u64

definition manifest_step :: "manifest_vars \<Rightarrow> artifact_directory_entry \<Rightarrow> directory_error + manifest_vars" where
  "manifest_step v e =
     bind_res (ArtifactDirectoryEntry_validate e) (\<lambda>_.
     bind_res (ensure (case mv_previous_path v of None \<Rightarrow> True | Some previous \<Rightarrow> \<not> de_path e \<le> previous)
       (Message ''portable directory files must be strictly sorted by path'')) (\<lambda>_.
     bind_res (ensure (de_path e \<notin> set (mv_exact_paths v))
       (AtPath ''portable directory contains duplicate path: '' (de_path e))) (\<lambda>_.
     bind_res (fold_res index_prefix (mv_casefold_prefixes v) (path_prefixes (de_path e))) (\<lambda>m.
     bind_res (ok_or (checked_add (mv_logical_size v) (de_size_bytes e))
       (Message ''portable directory logical size overflows u64'')) (\<lambda>size.
     Inr \<lparr>mv_previous_path = Some (de_path e), mv_exact_paths = bs_insert (de_path e) (mv_exact_paths v),
          mv_casefold_prefixes = m, mv_logical_size = size\<rparr>)))))"

definition parent_conflicts :: "string btree_set \<Rightarrow> artifact_directory_entry \<Rightarrow> directory_error + unit" where
  "parent_conflicts exact_paths e =
     for_each (\<lambda>p. ensure (p \<notin> set exact_paths)
         (AtPath ''portable directory has a file/directory path conflict at '' p))
       (path_parents (de_path e))"

definition PortableDirectoryManifest_validate :: "portable_directory_manifest \<Rightarrow> directory_error + unit" where
  "PortableDirectoryManifest_validate d =
     bind_res (ensure (pdm_version d = PORTABLE_DIRECTORY_MANIFEST_VERSION)
       (Message (''portable directory manifest version must be '' @
          show_u64 PORTABLE_DIRECTORY_MANIFEST_VERSION @ '', got '' @ show_u64 (pdm_version d)))) (\<lambda>_.
     bind_res (ensure (\<not> JCS_SAFE_INTEGER_MAX < pdm_size_bytes d)
       (Message ''directory logical size exceeds the JCS safe integer range'')) (\<lambda>_.
     bind_res (fold_res manifest_step
       \<lparr>mv_previous_path = None, mv_exact_paths = [], mv_casefold_prefixes = [], mv_logical_size = 0\<rparr>
       (pdm_files d)) (\<lambda>v.
     bind_res (ensure (mv_logical_size v = pdm_size_bytes d)
       (Message (''portable directory logical size mismatch: declared '' @ show_u64 (pdm_size_bytes d) @
          '', computed '' @ show_u64 (mv_logical_size v)))) (\<lambda>_.
     for_each (parent_conflicts (mv_exact_paths v)) (pdm_files d)))))"

section \<open>Identity of a directory\<close>

definition hex_digit :: "nat \<Rightarrow> char" where
  "hex_digit n = (if n < 10 then char_of (48 + n) else char_of (87 + n))"

definition to_hex :: "8 word list \<Rightarrow> string" where
  "to_hex bytes =
     concat (map (\<lambda>b. [hex_digit (unat (drop_bit 4 b)), hex_digit (unat (and b 15))]) bytes)"

definition computed_digest ::
    "(portable_directory_manifest \<Rightarrow> 8 word list) \<Rightarrow> (8 word list \<Rightarrow> 8 word list) \<Rightarrow>
     portable_directory_manifest \<Rightarrow> string" where
  "computed_digest canonical_bytes sha256 d = ''sha256:'' @ to_hex (sha256 (canonical_bytes d))"

definition PortableDirectoryManifest_artifact_ref ::
    "(portable_directory_manifest \<Rightarrow> 8 word list) \<Rightarrow> (8 word list \<Rightarrow> 8 word list) \<Rightarrow>
     artifact_kind \<Rightarrow> portable_directory_manifest \<Rightarrow> directory_error + artifact_ref" where
  "PortableDirectoryManifest_artifact_ref canonical_bytes sha256 kind d =
     bind_res (PortableDirectoryManifest_validate d) (\<lambda>_.
     let digest = computed_digest canonical_bytes sha256 d in
     Inr \<lparr>ar_uri = artifact_uri digest, ar_digest = digest, ar_size_bytes = pdm_size_bytes d,
          ar_kind = kind, ar_manifest_digest = Some digest\<rparr>)"

section \<open>Paths as component lists\<close>

abbreviation components :: "string \<Rightarrow> string list" where
  "components path \<equiv> split_on CHR ''/'' path"

lemma split_on_middle: "split_on c (xs @ c # ys) = split_on c xs @ split_on c ys"
proof (induction xs)
  case (Cons x xs)
  obtain t ts where "split_on c xs = t # ts" by (rule split_on_Cons_cases)
  then show ?case using Cons by auto
qed simp

lemma split_on_no_empty:
  assumes "[] \<notin> set (split_on c s)"
  shows "s \<noteq> []" and "\<not> prefix [c] s" and "\<not> suffix [c] s" and "\<not> sublist [c, c] s"
proof -
  show "s \<noteq> []" using assms by auto
  show "\<not> prefix [c] s" using assms by (auto simp: prefix_def)
  show "\<not> suffix [c] s" using assms by (auto simp: suffix_def split_on_middle)
  show "\<not> sublist [c, c] s" using assms by (auto simp: sublist_def split_on_middle)
qed

text \<open>A relative path: proper components only, no drive, no backslash and no control character.\<close>

definition relative_path :: "string \<Rightarrow> bool" where
  "relative_path path \<longleftrightarrow>
     (\<forall>c\<in>set (components path). c \<notin> {[], ''.'', ''..''}) \<and> \<not> has_drive (hd (components path)) \<and>
     CHR 0x5C \<notin> set path \<and> \<not> has_control path"

lemma has_control_nul: "CHR 0x00 \<in> set s \<Longrightarrow> has_control s"
proof -
  have "byte (CHR 0x00) < 32" by (simp add: byte_def)
  then show "CHR 0x00 \<in> set s \<Longrightarrow> has_control s" by (induction s) auto
qed

lemma if_Inl_Inr: "(if c then Inl a else x) = Inr u \<longleftrightarrow> \<not> c \<and> x = Inr u"
  by simp

lemma split_on_no_dot: "[d] \<notin> set (split_on c s) \<Longrightarrow> d \<noteq> c \<Longrightarrow> \<not> prefix [d, c] s"
  using split_on_append [of c "[d]"] by (auto simp: prefix_def)

lemma validate_directory_path_Inr: "validate_directory_path path = Inr () \<longleftrightarrow> relative_path path"
proof -
  let ?cs = "set (components path)"
  have proper: "list_ex (\<lambda>c. c = [] \<or> c = ''.'' \<or> c = ''..'') (components path) \<longleftrightarrow>
      \<not> (\<forall>c\<in>?cs. c \<notin> {[], ''.'', ''..''})"
    unfolding list_ex_iff by (simp only: insert_iff empty_iff bex_simps ball_simps not_not simp_thms)
  have canonical: "\<not> (path = [] \<or> prefix ''/'' path \<or> suffix ''/'' path \<or> sublist ''//'' path \<or>
      prefix ''./'' path)" if "\<forall>c\<in>?cs. c \<notin> {[], ''.'', ''..''}"
  proof -
    have "[] \<notin> ?cs" and "''.'' \<notin> ?cs" using that by (simp_all only: insert_iff) metis+
    then show ?thesis using split_on_no_empty [of "CHR ''/''" path] split_on_no_dot [of "CHR ''.''" "CHR ''/''" path]
      by simp
  qed
  show ?thesis
    unfolding validate_directory_path_def relative_path_def if_Inl_Inr proper
    using has_control_nul [of path] canonical by metis
qed

lemma tl_prefixes_nonempty: "q \<in> set (tl (prefixes cs)) \<longleftrightarrow> q \<noteq> [] \<and> prefix q cs"
  by (cases cs) (auto simp: prefix_Cons)

lemma join_with_Cons: "q \<noteq> [] \<Longrightarrow> join_with sep (c # q) = c @ sep @ join_with sep q"
  by (cases q) auto

lemma prefixes_from_eq:
  "prefixes_from p cs = map (\<lambda>q. p @ join_with ''/'' q) (tl (prefixes cs))"
proof (induction cs arbitrary: p)
  case (Cons c cs)
  have "prefixes cs = [] # tl (prefixes cs)" by (cases cs) auto
  then have "tl (prefixes (c # cs)) = [c] # map ((#) c) (tl (prefixes cs))"
    by (metis list.simps(9) prefixes.simps(2) list.sel(3))
  moreover have "prefixes_from (p @ c @ ''/'') cs = map (\<lambda>q. p @ join_with ''/'' (c # q)) (tl (prefixes cs))"
    unfolding Cons by (rule map_cong) (auto simp: tl_prefixes_nonempty join_with_Cons)
  ultimately show ?case by simp
qed simp

lemma set_path_prefixes:
  "set (path_prefixes path) = join_with ''/'' ` {q. q \<noteq> [] \<and> prefix q (components path)}"
  by (auto simp: path_prefixes_def prefixes_from_eq tl_prefixes_nonempty)

lemma parents_from_below: "p \<noteq> [] \<Longrightarrow> parents_from p cs = prefixes_from (p @ ''/'') cs"
  by (induction cs arbitrary: p) (auto simp: Let_def)

lemma parents_from_prefixes: "[] \<notin> set cs \<Longrightarrow> parents_from [] cs = prefixes_from [] cs"
  by (cases cs) (auto simp: Let_def parents_from_below)

lemma set_path_parents:
  assumes "[] \<notin> set (components path)"
  shows "set (path_parents path) = join_with ''/'' ` {q. q \<noteq> [] \<and> strict_prefix q (components path)}"
proof -
  have "[] \<notin> set (butlast (components path))" using assms by (meson in_set_butlastD)
  then have "path_parents path = map (join_with ''/'') (tl (prefixes (butlast (components path))))"
    unfolding path_parents_def Let_def butlast_conv_take [symmetric]
    by (simp add: parents_from_prefixes prefixes_from_eq)
  moreover have "prefix q (butlast cs) \<longleftrightarrow> strict_prefix q cs" if "cs \<noteq> []" for q cs :: "string list"
    using that by (cases cs rule: rev_cases) (auto simp: strict_prefix_def prefix_snoc dest: prefix_length_le)
  ultimately show ?thesis using split_on_nonempty by (auto simp: tl_prefixes_nonempty)
qed

definition slash_free :: "string list \<Rightarrow> bool" where
  "slash_free q \<longleftrightarrow> q \<noteq> [] \<and> (\<forall>c\<in>set q. CHR ''/'' \<notin> set c)"

lemma slash_free_prefix: "q \<noteq> [] \<Longrightarrow> prefix q (components path) \<Longrightarrow> slash_free q"
  using split_on_parts by (fastforce simp: slash_free_def dest: set_mono_prefix)

lemma components_join: "slash_free q \<Longrightarrow> components (join_with ''/'' q) = q"
  using split_on_join [of q] by (simp add: slash_free_def)

lemma join_inject: "slash_free p \<Longrightarrow> slash_free q \<Longrightarrow> join_with ''/'' p = join_with ''/'' q \<longleftrightarrow> p = q"
  by (metis components_join)

lemma ascii_lower_slash: "ascii_lower c = CHR ''/'' \<longleftrightarrow> c = CHR ''/''"
proof -
  have slash: "byte CHR ''/'' = 47" by (simp add: byte_def)
  have "char_of (byte c + 32) \<noteq> CHR ''/''" if "65 \<le> byte c" "byte c \<le> 90"
    using that slash byte_char_of [of "byte c + 32"] by (auto simp del: byte_char_of)
  then show ?thesis using slash by (auto simp: ascii_lower_def is_ascii_uppercase_def)
qed

lemma slash_free_lower: "slash_free q \<Longrightarrow> slash_free (map (map ascii_lower) q)"
  by (auto simp: slash_free_def) (metis ascii_lower_slash)

lemma casefold_join:
  "slash_free p \<Longrightarrow> slash_free q \<Longrightarrow>
     ascii_casefold_path (join_with ''/'' p) = ascii_casefold_path (join_with ''/'' q) \<longleftrightarrow>
     map (map ascii_lower) p = map (map ascii_lower) q"
  by (simp add: ascii_casefold_path_def components_join join_inject slash_free_lower)

section \<open>The validation loop\<close>

text \<open>The case-insensitive index holds exactly the set of prefixes seen, each under its folded form.\<close>

definition indexed :: "(string, string) btree_map \<Rightarrow> string set \<Rightarrow> bool" where
  "indexed m S \<longleftrightarrow> (\<forall>k p. map_of m k = Some p \<longleftrightarrow> p \<in> S \<and> ascii_casefold_path p = k)"

lemma indexed_inj: "indexed m S \<Longrightarrow> inj_on ascii_casefold_path S"
  unfolding indexed_def inj_on_def by (metis option.inject)

lemma index_prefix_result:
  assumes "indexed m S"
  shows "case index_prefix m p of
      Inl _ \<Rightarrow> \<not> inj_on ascii_casefold_path (insert p S)
    | Inr m' \<Rightarrow> indexed m' (insert p S)"
proof (cases "map_of m (ascii_casefold_path p)")
  case None
  then have "q \<in> S \<Longrightarrow> ascii_casefold_path q \<noteq> ascii_casefold_path p" for q
    using assms unfolding indexed_def by (metis option.distinct(1))
  then show ?thesis using assms None by (auto simp: index_prefix_def indexed_def Let_def)
next
  case (Some q)
  then have q: "q \<in> S" "ascii_casefold_path q = ascii_casefold_path p"
    using assms unfolding indexed_def by blast+
  show ?thesis
  proof (cases "q = p")
    case True
    then have "map_of (bm_insert (ascii_casefold_path p) p m) = map_of m" "insert p S = S"
      using Some q(1) by (auto simp: fun_upd_idem)
    moreover have "index_prefix m p = Inr (bm_insert (ascii_casefold_path p) p m)"
      using Some True by (simp add: index_prefix_def)
    ultimately show ?thesis using assms by (simp add: indexed_def)
  next
    case False
    then have "\<not> inj_on ascii_casefold_path (insert p S)" using q unfolding inj_on_def by blast
    then show ?thesis using Some False by (simp add: index_prefix_def Let_def)
  qed
qed

lemma index_prefixes_result:
  "indexed m S \<Longrightarrow>
     case fold_res index_prefix m ps of
       Inl _ \<Rightarrow> \<not> inj_on ascii_casefold_path (S \<union> set ps)
     | Inr m' \<Rightarrow> indexed m' (S \<union> set ps)"
proof (induction ps arbitrary: m S)
  case (Cons p ps)
  show ?case
  proof (cases "index_prefix m p")
    case (Inl e)
    then have "\<not> inj_on ascii_casefold_path (insert p S)"
      using index_prefix_result [OF Cons.prems, of p] by simp
    then have "\<not> inj_on ascii_casefold_path (S \<union> set (p # ps))"
      by (rule contrapos_nn) (erule inj_on_subset, auto)
    then show ?thesis using Inl by simp
  next
    case (Inr m')
    moreover have "S \<union> set (p # ps) = insert p S \<union> set ps" by simp
    ultimately show ?thesis
      using index_prefix_result [OF Cons.prems, of p] Cons.IH [of m' "insert p S"] by (simp split: sum.splits)
  qed
qed simp

definition entry_ok :: "artifact_directory_entry \<Rightarrow> bool" where
  "entry_ok e \<longleftrightarrow>
     relative_path (de_path e) \<and> sha256_digest (de_digest e) \<and> unat (de_size_bytes e) \<le> 2 ^ 53 - 1"

lemma safe_integer: "\<not> JCS_SAFE_INTEGER_MAX < n \<longleftrightarrow> unat n \<le> 2 ^ 53 - 1"
  by (simp add: JCS_SAFE_INTEGER_MAX_def word_less_nat_alt not_less)

lemma entry_validate_Inr: "ArtifactDirectoryEntry_validate e = Inr () \<longleftrightarrow> entry_ok e"
  by (auto simp: ArtifactDirectoryEntry_validate_def bind_res_Inr validate_directory_path_Inr validate_digest_def
      entry_ok_def safe_integer)

definition total_size :: "artifact_directory_entry list \<Rightarrow> nat" where
  "total_size es = sum_list (map (unat \<circ> de_size_bytes) es)"

definition all_prefixes :: "artifact_directory_entry list \<Rightarrow> string set" where
  "all_prefixes es = (\<Union>e\<in>set es. set (path_prefixes (de_path e)))"

definition scan_ok :: "artifact_directory_entry list \<Rightarrow> bool" where
  "scan_ok es \<longleftrightarrow> list_all entry_ok es \<and> sorted_wrt (<) (map de_path es) \<and>
     inj_on ascii_casefold_path (all_prefixes es) \<and> total_size es < 2 ^ 64"

definition scanned :: "artifact_directory_entry list \<Rightarrow> manifest_vars \<Rightarrow> bool" where
  "scanned es v \<longleftrightarrow>
     mv_previous_path v = (if es = [] then None else Some (de_path (last es))) \<and>
     set (mv_exact_paths v) = de_path ` set es \<and> indexed (mv_casefold_prefixes v) (all_prefixes es) \<and>
     unat (mv_logical_size v) = total_size es"

lemma sorted_snoc_iff:
  fixes x :: "'a::linorder"
  assumes "sorted_wrt (<) xs"
  shows "sorted_wrt (<) (xs @ [x]) \<longleftrightarrow> xs = [] \<or> last xs < x"
  using assms by (cases xs rule: rev_cases) (auto simp: sorted_wrt_append)

lemma manifest_step_result:
  assumes ok: "scan_ok es" and v: "scanned es v"
  shows "case manifest_step v e of
      Inl _ \<Rightarrow> \<not> scan_ok (es @ [e])
    | Inr v' \<Rightarrow> scan_ok (es @ [e]) \<and> scanned (es @ [e]) v'"
proof -
  let ?ps = "path_prefixes (de_path e)"
  have idx: "indexed (mv_casefold_prefixes v) (all_prefixes es)"
    and size: "unat (mv_logical_size v) = total_size es"
    and exact: "set (mv_exact_paths v) = de_path ` set es"
    using v by (simp_all add: scanned_def)
  have all: "all_prefixes (es @ [e]) = all_prefixes es \<union> set ?ps"
    and tot: "total_size (es @ [e]) = total_size es + unat (de_size_bytes e)"
    by (auto simp: all_prefixes_def total_size_def)
  have prev: "(case mv_previous_path v of None \<Rightarrow> True | Some p \<Rightarrow> \<not> de_path e \<le> p) \<longleftrightarrow>
      sorted_wrt (<) (map de_path (es @ [e]))"
    using sorted_snoc_iff [of "map de_path es" "de_path e"] v ok
    by (auto simp: scanned_def scan_ok_def last_map)
  have fresh: "sorted_wrt (<) (map de_path (es @ [e])) \<Longrightarrow> de_path e \<notin> de_path ` set es"
    by (auto simp: sorted_wrt_append)
  have index: "case fold_res index_prefix (mv_casefold_prefixes v) ?ps of
      Inl _ \<Rightarrow> \<not> inj_on ascii_casefold_path (all_prefixes (es @ [e]))
    | Inr m \<Rightarrow> indexed m (all_prefixes (es @ [e]))"
    unfolding all by (rule index_prefixes_result [OF idx])
  have sum: "case checked_add (mv_logical_size v) (de_size_bytes e) of
      None \<Rightarrow> \<not> total_size (es @ [e]) < 2 ^ 64
    | Some n \<Rightarrow> unat n = total_size (es @ [e])"
    using checked_add_None [of "mv_logical_size v" "de_size_bytes e"]
      checked_add_Some [of "mv_logical_size v" "de_size_bytes e"]
    by (auto simp: tot size split: option.split)
  have bound: "unat n = total_size xs \<Longrightarrow> total_size xs < 2 ^ 64" for n :: u64 and xs
    using unat_le_max [of n] by simp
  consider (entry) "\<not> entry_ok e" | (order) "entry_ok e" "\<not> sorted_wrt (<) (map de_path (es @ [e]))"
    | (more) "entry_ok e" "sorted_wrt (<) (map de_path (es @ [e]))" by blast
  then show ?thesis
  proof cases
    case entry
    then obtain x where "ArtifactDirectoryEntry_validate e = Inl x"
      using entry_validate_Inr unit_result_cases by blast
    then show ?thesis using entry by (simp add: manifest_step_def scan_ok_def)
  next
    case order
    then have "manifest_step v e = Inl (Message ''portable directory files must be strictly sorted by path'')"
      using prev entry_validate_Inr [of e] by (simp add: manifest_step_def)
    then show ?thesis using order by (simp add: scan_ok_def)
  next
    case more
    then have step: "manifest_step v e =
      bind_res (fold_res index_prefix (mv_casefold_prefixes v) ?ps) (\<lambda>m.
      bind_res (ok_or (checked_add (mv_logical_size v) (de_size_bytes e))
        (Message ''portable directory logical size overflows u64'')) (\<lambda>size.
      Inr \<lparr>mv_previous_path = Some (de_path e), mv_exact_paths = bs_insert (de_path e) (mv_exact_paths v),
        mv_casefold_prefixes = m, mv_logical_size = size\<rparr>))"
      using prev fresh exact entry_validate_Inr [of e] by (simp add: manifest_step_def)
    show ?thesis
    proof (cases "fold_res index_prefix (mv_casefold_prefixes v) ?ps")
      case (Inl x)
      then show ?thesis using index by (simp add: step scan_ok_def)
    next
      case (Inr m)
      then have m: "indexed m (all_prefixes (es @ [e]))" using index by simp
      show ?thesis
      proof (cases "checked_add (mv_logical_size v) (de_size_bytes e)")
        case None
        then show ?thesis using sum by (simp add: step Inr scan_ok_def)
      next
        case (Some n)
        then have n: "unat n = total_size (es @ [e])" using sum by simp
        then have "scan_ok (es @ [e])"
          using more ok bound indexed_inj [OF m] unfolding scan_ok_def by simp
        moreover have "manifest_step v e = Inr \<lparr>mv_previous_path = Some (de_path e),
            mv_exact_paths = bs_insert (de_path e) (mv_exact_paths v), mv_casefold_prefixes = m, mv_logical_size = n\<rparr>"
          by (simp add: step Inr Some)
        ultimately show ?thesis using n m exact by (simp add: scanned_def)
      qed
    qed
  qed
qed

lemma manifest_scan_result:
  "case fold_res manifest_step
      \<lparr>mv_previous_path = None, mv_exact_paths = [], mv_casefold_prefixes = [], mv_logical_size = 0\<rparr> es of
     Inl _ \<Rightarrow> \<not> scan_ok es
   | Inr v \<Rightarrow> scan_ok es \<and> scanned es v"
  (is "case fold_res _ ?v es of Inl _ \<Rightarrow> _ | Inr v \<Rightarrow> _ v")
proof (induction es rule: rev_induct)
  case Nil
  then show ?case
    by (simp add: scan_ok_def scanned_def all_prefixes_def total_size_def indexed_def)
next
  case (snoc e es)
  show ?case
  proof (cases "fold_res manifest_step ?v es")
    case (Inl x)
    then have "\<not> scan_ok es" using snoc by simp
    moreover have "scan_ok (es @ [e]) \<Longrightarrow> scan_ok es"
      by (auto simp: scan_ok_def sorted_wrt_append all_prefixes_def total_size_def elim: inj_on_subset)
    ultimately show ?thesis using Inl by (auto simp: fold_res_snoc)
  next
    case (Inr v)
    then show ?thesis using snoc manifest_step_result [of es v e] by (simp add: fold_res_snoc)
  qed
qed

text \<open>
  A directory that unpacks without ambiguity: names that agree up to ASCII case are the same name at
  every level, and no file lies below another file.
\<close>

definition no_case_collision :: "string list \<Rightarrow> bool" where
  "no_case_collision paths \<longleftrightarrow>
     (\<forall>x\<in>set paths. \<forall>y\<in>set paths. \<forall>p q. prefix p (components x) \<longrightarrow> prefix q (components y) \<longrightarrow>
        map (map ascii_lower) p = map (map ascii_lower) q \<longrightarrow> p = q)"

definition no_file_below_file :: "string list \<Rightarrow> bool" where
  "no_file_below_file paths \<longleftrightarrow>
     (\<forall>x\<in>set paths. \<forall>y\<in>set paths. \<not> strict_prefix (components x) (components y))"

definition portable_directory :: "portable_directory_manifest \<Rightarrow> bool" where
  "portable_directory d \<longleftrightarrow>
     (let paths = map de_path (pdm_files d) in
      pdm_version d = 2 \<and> sorted_wrt (<) paths \<and> list_all relative_path paths \<and>
      list_all (sha256_digest \<circ> de_digest) (pdm_files d) \<and>
      no_case_collision paths \<and> no_file_below_file paths \<and>
      total_size (pdm_files d) = unat (pdm_size_bytes d) \<and> unat (pdm_size_bytes d) < 2 ^ 53)"

lemma no_case_collisionD:
  "no_case_collision paths \<Longrightarrow> x \<in> set paths \<Longrightarrow> y \<in> set paths \<Longrightarrow> prefix p (components x) \<Longrightarrow>
     prefix q (components y) \<Longrightarrow> map (map ascii_lower) p = map (map ascii_lower) q \<Longrightarrow> p = q"
  unfolding no_case_collision_def by blast

lemma no_case_collision_iff:
  "inj_on ascii_casefold_path (all_prefixes es) \<longleftrightarrow> no_case_collision (map de_path es)"
proof
  assume inj: "inj_on ascii_casefold_path (all_prefixes es)"
  have "p = q" if e: "e \<in> set es" "f \<in> set es" and p: "prefix p (components (de_path e))"
    and q: "prefix q (components (de_path f))" and eq: "map (map ascii_lower) p = map (map ascii_lower) q" for e f p q
  proof (cases "p = []")
    case False
    moreover from False have "q \<noteq> []" using eq by auto
    ultimately have free: "slash_free p" "slash_free q" using p q slash_free_prefix by blast+
    have "join_with ''/'' p \<in> all_prefixes es" "join_with ''/'' q \<in> all_prefixes es"
      using e p q False \<open>q \<noteq> []\<close> by (auto simp: all_prefixes_def set_path_prefixes)
    then have "join_with ''/'' p = join_with ''/'' q"
      using inj free eq casefold_join [OF free] unfolding inj_on_def by blast
    then show ?thesis using join_inject free by blast
  qed (use eq in auto)
  then show "no_case_collision (map de_path es)" by (simp add: no_case_collision_def)
next
  assume safe: "no_case_collision (map de_path es)"
  show "inj_on ascii_casefold_path (all_prefixes es)"
  proof (rule inj_onI)
    fix x y assume "x \<in> all_prefixes es" "y \<in> all_prefixes es" and eq: "ascii_casefold_path x = ascii_casefold_path y"
    then obtain e f p q where e: "e \<in> set es" "f \<in> set es" and x: "x = join_with ''/'' p" "y = join_with ''/'' q"
      and p: "p \<noteq> []" "prefix p (components (de_path e))" "q \<noteq> []" "prefix q (components (de_path f))"
      by (auto simp: all_prefixes_def set_path_prefixes)
    have "slash_free p" "slash_free q" using p slash_free_prefix by blast+
    then have "map (map ascii_lower) p = map (map ascii_lower) q" using eq x casefold_join by blast
    then have "p = q"
      using no_case_collisionD [OF safe, of "de_path e" "de_path f"] e p(2,4) by simp
    then show "x = y" using x by simp
  qed
qed

lemma join_split: "join_with [c] (split_on c s) = s"
proof (induction s)
  case (Cons x s)
  obtain t ts where "split_on c s = t # ts" by (rule split_on_Cons_cases)
  then show ?case using Cons by (cases ts) auto
qed simp

lemma parent_is_prefix:
  assumes "relative_path y"
  shows "x \<in> set (path_parents y) \<longleftrightarrow> strict_prefix (components x) (components y)"
proof -
  have "[] \<notin> set (components y)" using assms by (auto simp: relative_path_def)
  then have "x \<in> set (path_parents y) \<longleftrightarrow>
      (\<exists>q. x = join_with ''/'' q \<and> q \<noteq> [] \<and> strict_prefix q (components y))"
    by (auto simp: set_path_parents)
  also have "\<dots> \<longleftrightarrow> strict_prefix (components x) (components y)"
    using join_split [of "CHR ''/''" x] split_on_nonempty [of "CHR ''/''" x] components_join
      slash_free_prefix prefix_order.less_imp_le by metis
  finally show ?thesis .
qed

lemma no_file_below_file_iff:
  assumes "list_all relative_path (map de_path es)" and "set paths = de_path ` set es"
  shows "for_each (parent_conflicts paths) es = Inr () \<longleftrightarrow> no_file_below_file (map de_path es)"
proof -
  have "parent_conflicts paths e = Inr () \<longleftrightarrow>
      (\<forall>f\<in>set es. \<not> strict_prefix (components (de_path f)) (components (de_path e)))" if "e \<in> set es" for e
    using that assms parent_is_prefix [of "de_path e"] by (auto simp: parent_conflicts_def list_all_iff)
  then show ?thesis by (auto simp: no_file_below_file_def)
qed

lemma directory_accepted:
  "PortableDirectoryManifest_validate d = Inr () \<longleftrightarrow> portable_directory d"
proof -
  let ?v = "\<lparr>mv_previous_path = None, mv_exact_paths = [], mv_casefold_prefixes = [], mv_logical_size = 0\<rparr>"
  let ?es = "pdm_files d" and ?paths = "map de_path (pdm_files d)"
  have sizes: "list_all (\<lambda>e. unat (de_size_bytes e) < 2 ^ 53) ?es" if "total_size ?es < 2 ^ 53"
    using that member_le_sum_list [of _ "map (unat \<circ> de_size_bytes) ?es"]
    by (fastforce simp: list_all_iff total_size_def)
  have "scan_ok ?es \<longleftrightarrow> list_all entry_ok ?es \<and> sorted_wrt (<) ?paths \<and> no_case_collision ?paths \<and>
      total_size ?es < 2 ^ 64"
    by (simp add: scan_ok_def no_case_collision_iff)
  moreover have "list_all entry_ok ?es \<longleftrightarrow> list_all relative_path ?paths \<and> list_all (sha256_digest \<circ> de_digest) ?es \<and>
      list_all (\<lambda>e. unat (de_size_bytes e) < 2 ^ 53) ?es"
    by (auto simp: entry_ok_def list_all_iff)
  moreover have "unat n \<le> 2 ^ 53 - 1 \<longleftrightarrow> unat n < 2 ^ 53" for n :: u64 by auto
  ultimately show ?thesis
    using manifest_scan_result [of ?es] no_file_below_file_iff [of ?es] sizes
    by (cases "fold_res manifest_step ?v ?es")
      (auto simp: PortableDirectoryManifest_validate_def portable_directory_def bind_res_Inr Let_def
        PORTABLE_DIRECTORY_MANIFEST_VERSION_def safe_integer scanned_def word_unat_eq_iff)
qed

text \<open>C32. A portable directory manifest is accepted exactly when the directory unpacks without
  ambiguity: version 2, strictly sorted relative paths with no escaping component, canonical digests,
  no two names at any level that differ only in ASCII case, no file below another file, and a declared
  size that is the exact sum of the file sizes and at most 2^53 - 1.\<close>

theorem portable_manifest_exact:
  "PortableDirectoryManifest_validate d = Inr () \<longleftrightarrow> portable_directory d"
  by (rule directory_accepted)

section \<open>The reference of an accepted directory\<close>

lemma hex_digit_lower: "n < 16 \<Longrightarrow> lower_hex (hex_digit n)"
  by (auto simp: hex_digit_def lower_hex_def is_ascii_digit_def)

lemma nibble_bounds: "unat (drop_bit 4 (b :: 8 word)) < 16" "unat (and b 15) < 16"
proof -
  show "unat (drop_bit 4 b) < 16"
    using unat_le_max [of b] by (simp add: unat_drop_bit_eq drop_bit_eq_div unat_div)
  have "and b 15 = b mod 16" using take_bit_eq_mask [of 4 b] by (simp add: mask_numeral take_bit_eq_mod)
  then show "unat (and b 15) < 16" by (simp add: unat_mod)
qed

lemma to_hex_Cons: "to_hex (b # bs) = hex_digit (unat (drop_bit 4 b)) # hex_digit (unat (and b 15)) # to_hex bs"
  by (simp add: to_hex_def)

lemma to_hex_shape: "length (to_hex bs) = 2 * length bs \<and> list_all lower_hex (to_hex bs)"
  by (induction bs) (auto simp: to_hex_Cons nibble_bounds hex_digit_lower, simp add: to_hex_def, simp add: to_hex_def)

lemma hex_digit_inject: "m < 16 \<Longrightarrow> n < 16 \<Longrightarrow> hex_digit m = hex_digit n \<longleftrightarrow> m = n"
  using byte_char_of by (auto simp: hex_digit_def dest: arg_cong [where f = byte] split: if_splits)

lemma nibbles_inject: "drop_bit 4 a = drop_bit 4 b \<Longrightarrow> and a 15 = and b 15 \<Longrightarrow> a = (b :: 8 word)"
proof -
  have "push_bit 4 (drop_bit 4 w) + and w 15 = w" for w :: "8 word"
    using bits_ident [of 4 w] by (simp add: take_bit_eq_mask mask_numeral add.commute)
  then show "drop_bit 4 a = drop_bit 4 b \<Longrightarrow> and a 15 = and b 15 \<Longrightarrow> a = b" by metis
qed

lemma to_hex_inject: "to_hex as = to_hex bs \<Longrightarrow> as = bs"
proof (induction as arbitrary: bs)
  case Nil
  then show ?case by (cases bs) (auto simp: to_hex_def)
next
  case (Cons a as)
  then obtain b bs' where bs: "bs = b # bs'" by (cases bs) (auto simp: to_hex_def)
  have "unat (drop_bit 4 a) = unat (drop_bit 4 b)" "unat (and a 15) = unat (and b 15)"
    using Cons.prems by (simp_all add: bs to_hex_Cons hex_digit_inject nibble_bounds)
  then have "drop_bit 4 a = drop_bit 4 b" "and a 15 = and b 15" by (simp_all only: word_unat_eq_iff)
  then have "a = b" by (rule nibbles_inject)
  then show ?case using Cons by (simp add: bs to_hex_Cons)
qed

text \<open>
  The reference of an accepted directory is a valid artifact reference, and its digest determines the
  hash of the canonical bytes; a SHA-256 hash has 32 bytes.
\<close>

lemma directory_reference:
  assumes sha: "\<And>bytes. length (sha256 bytes) = 32" and kind: "ArtifactKind_new (kind_as_str kind) = Inr kind"
    and a: "PortableDirectoryManifest_artifact_ref canonical_bytes sha256 kind d = Inr a"
  shows "ArtifactRef_validate a = Inr ()" and "portable_directory d" and "ar_size_bytes a = pdm_size_bytes d"
    and "ar_digest a = computed_digest canonical_bytes sha256 d' \<Longrightarrow>
      sha256 (canonical_bytes d) = sha256 (canonical_bytes d')"
proof -
  have d: "PortableDirectoryManifest_validate d = Inr ()"
    and a: "a = \<lparr>ar_uri = artifact_uri (computed_digest canonical_bytes sha256 d),
      ar_digest = computed_digest canonical_bytes sha256 d, ar_size_bytes = pdm_size_bytes d, ar_kind = kind,
      ar_manifest_digest = Some (computed_digest canonical_bytes sha256 d)\<rparr>"
    using a by (auto simp: PortableDirectoryManifest_artifact_ref_def bind_res_Inr Let_def)
  have "sha256_digest (computed_digest canonical_bytes sha256 d)"
    using to_hex_shape [of "sha256 (canonical_bytes d)"] sha
    by (simp add: sha256_digest_def strip_prefix_def computed_digest_def)
  then show "ArtifactRef_validate a = Inr ()"
    using kind by (simp add: a ArtifactRef_validate_def validate_digest_def)
  show "portable_directory d" using d by (simp add: directory_accepted)
  show "ar_size_bytes a = pdm_size_bytes d" by (simp add: a)
  show "ar_digest a = computed_digest canonical_bytes sha256 d' \<Longrightarrow>
      sha256 (canonical_bytes d) = sha256 (canonical_bytes d')"
    using to_hex_inject by (simp add: a computed_digest_def)
qed

end
