(* ===== verification/Fabric_Admission.thy ===== *)
theory Fabric_Admission
  imports Contract_Model Artifact_Identity
begin

text \<open>
  The execution fabric (\<open>framework/crates/cy-execution-fabric\<close>): the observation cursor and the
  agent hello of \<open>admission.rs\<close>, the capability conventions of \<open>capability.rs\<close>, the node
  lifecycle of \<open>node.rs\<close>, and the reconciliation, connectivity, enrollment and provider seams.
  Accepted observations are proved to be numbered without gaps, the execution capability to carry the
  lifecycle facts it encodes, and the node lifecycle to keep its identity. The wire types are those of
  \<open>contracts/proto/cyrene/core/v1/node_control.proto\<close>; a wire enumeration is an integer that decodes
  to an option, and a property \<open>HashMap\<close> is the ordered map with the same entries.
\<close>

section \<open>Errors and wire enumerations\<close>

record fabric_contract_error =
  fe_reason_code :: string
  fe_message :: string

definition fab_err :: "string \<Rightarrow> string \<Rightarrow> fabric_contract_error" where
  "fab_err reason_code message = \<lparr>fe_reason_code = reason_code, fe_message = message\<rparr>"

type_synonym i32 = int

datatype execution_attachment_type = AttUnspecified | HostAgent | ContainerAgent | ProviderManaged

definition attachment_try_from :: "i32 \<Rightarrow> execution_attachment_type option" where
  "attachment_try_from v =
     (if v = 0 then Some AttUnspecified else if v = 1 then Some HostAgent
      else if v = 2 then Some ContainerAgent else if v = 3 then Some ProviderManaged else None)"

fun attachment_name :: "execution_attachment_type \<Rightarrow> string" where
  "attachment_name AttUnspecified = ''EXECUTION_ATTACHMENT_TYPE_UNSPECIFIED''"
| "attachment_name HostAgent = ''EXECUTION_ATTACHMENT_TYPE_HOST_AGENT''"
| "attachment_name ContainerAgent = ''EXECUTION_ATTACHMENT_TYPE_CONTAINER_AGENT''"
| "attachment_name ProviderManaged = ''EXECUTION_ATTACHMENT_TYPE_PROVIDER_MANAGED''"

datatype persistence_class = PcUnspecified | PcPersistent | PcEphemeral

definition persistence_try_from :: "i32 \<Rightarrow> persistence_class option" where
  "persistence_try_from v =
     (if v = 0 then Some PcUnspecified else if v = 1 then Some PcPersistent
      else if v = 2 then Some PcEphemeral else None)"

datatype restart_capability = RcUnspecified | RcNone | HostSupervised | ProviderSupervised

definition restart_try_from :: "i32 \<Rightarrow> restart_capability option" where
  "restart_try_from v =
     (if v = 0 then Some RcUnspecified else if v = 1 then Some RcNone
      else if v = 2 then Some HostSupervised else if v = 3 then Some ProviderSupervised else None)"

fun restart_name :: "restart_capability \<Rightarrow> string" where
  "restart_name RcUnspecified = ''RESTART_CAPABILITY_UNSPECIFIED''"
| "restart_name RcNone = ''RESTART_CAPABILITY_NONE''"
| "restart_name HostSupervised = ''RESTART_CAPABILITY_HOST_SUPERVISED''"
| "restart_name ProviderSupervised = ''RESTART_CAPABILITY_PROVIDER_SUPERVISED''"

datatype node_lifecycle_state = NodeUnspecified | NodeOnline | NodeOffline | NodeLost | NodeTerminated

section \<open>admission.rs: the observation cursor\<close>

definition MAX_REPLAY_IDS :: nat where "MAX_REPLAY_IDS = 1024"

datatype admission_disposition = Accepted | Duplicate

record observation_cursor =
  oc_last_sequence :: u64
  oc_recent_ids :: "string btree_set"
  oc_order :: "string list"

definition ObservationCursor_default :: observation_cursor where
  "ObservationCursor_default = \<lparr>oc_last_sequence = 0, oc_recent_ids = [], oc_order = []\<rparr>"

text \<open>
  \<open>last_sequence + 1\<close> is unchecked in the source: it wraps to zero in a release build, as here, so that
  after the largest sequence every fresh frame is a gap; a debug build panics at that point instead.
\<close>

definition ObservationCursor_admit ::
    "string \<Rightarrow> u64 \<Rightarrow> observation_cursor \<Rightarrow>
     (fabric_contract_error + admission_disposition) \<times> observation_cursor" where
  "ObservationCursor_admit frame_id sequence c =
     (if frame_id = [] \<or> sequence = 0
      then (Inl (fab_err ''FRAME_INVALID'' ''frame id and non-zero sequence are required''), c)
      else if frame_id \<in> set (oc_recent_ids c) then (Inr Duplicate, c)
      else if sequence \<noteq> oc_last_sequence c + 1
      then (Inl (fab_err ''SEQUENCE_GAP''
              (''expected sequence '' @ show_u64 (oc_last_sequence c + 1) @ '', received '' @
               show_u64 sequence)), c)
      else
        let recent = bs_insert frame_id (oc_recent_ids c); order = oc_order c @ [frame_id] in
        (Inr Accepted,
         if MAX_REPLAY_IDS < length order
         then (case order of
                 [] \<Rightarrow> \<lparr>oc_last_sequence = sequence, oc_recent_ids = recent, oc_order = order\<rparr>
               | evicted # rest \<Rightarrow>
                   \<lparr>oc_last_sequence = sequence, oc_recent_ids = bs_remove evicted recent, oc_order = rest\<rparr>)
         else \<lparr>oc_last_sequence = sequence, oc_recent_ids = recent, oc_order = order\<rparr>))"

section \<open>capability.rs\<close>

definition EXECUTION_CAPABILITY_ID :: string where
  "EXECUTION_CAPABILITY_ID = ''cyrene.execution.fabric.v1''"

definition ARTIFACT_TRANSFER_CAPABILITY_ID :: string where
  "ARTIFACT_TRANSFER_CAPABILITY_ID = ''cyrene.artifact.transfer.v1''"

record execution_capability_envelope =
  ece_attachment :: execution_attachment_type
  ece_persistent :: bool
  ece_restart :: restart_capability
  ece_host_supervision :: bool
  ece_runtime_supervision :: bool
  ece_provider_supervision :: bool
  ece_checkpoint_resume :: bool
  ece_persistent_volume :: bool
  ece_persistent_cache :: bool
  ece_outbound_https :: bool
  ece_inbound_available :: bool
  ece_peer_transfer :: bool
  ece_cpu_millicores :: "u64 option"
  ece_ram_bytes :: "u64 option"
  ece_accelerator :: "string option"
  ece_accelerator_count :: "u32 option"
  ece_vram_bytes :: "u64 option"

definition show_bool :: "bool \<Rightarrow> string" where
  "show_bool b = (if b then ''true'' else ''false'')"

definition insert_optional :: "string \<Rightarrow> string option \<Rightarrow> (string, string) btree_map \<Rightarrow> (string, string) btree_map" where
  "insert_optional key value m = (case value of None \<Rightarrow> m | Some v \<Rightarrow> bm_insert key v m)"

definition into_capability :: "execution_capability_envelope \<Rightarrow> capability" where
  "into_capability e =
     (let properties = bm_collect
            [(''attachment_type'', attachment_name (ece_attachment e)),
             (''persistent'', show_bool (ece_persistent e)),
             (''restart_capability'', restart_name (ece_restart e)),
             (''host_supervision'', show_bool (ece_host_supervision e)),
             (''runtime_supervision'', show_bool (ece_runtime_supervision e)),
             (''provider_supervision'', show_bool (ece_provider_supervision e)),
             (''checkpoint_resume'', show_bool (ece_checkpoint_resume e)),
             (''persistent_volume'', show_bool (ece_persistent_volume e)),
             (''persistent_cache'', show_bool (ece_persistent_cache e)),
             (''outbound_https'', show_bool (ece_outbound_https e)),
             (''inbound_available'', show_bool (ece_inbound_available e)),
             (''peer_transfer'', show_bool (ece_peer_transfer e))];
          properties = insert_optional ''cpu_millicores'' (map_option show_u64 (ece_cpu_millicores e)) properties;
          properties = insert_optional ''ram_bytes'' (map_option show_u64 (ece_ram_bytes e)) properties;
          properties = insert_optional ''accelerator_count'' (map_option show_u64 (ece_accelerator_count e)) properties;
          properties = insert_optional ''vram_bytes'' (map_option show_u64 (ece_vram_bytes e)) properties;
          properties = insert_optional ''accelerator'' (ece_accelerator e) properties
      in \<lparr>cap_id = EXECUTION_CAPABILITY_ID, cap_revision = 1, cap_properties = properties\<rparr>)"

definition execution_capability ::
    "execution_attachment_type \<Rightarrow> bool \<Rightarrow> restart_capability \<Rightarrow> capability" where
  "execution_capability attachment persistent restart =
     into_capability
       \<lparr>ece_attachment = attachment, ece_persistent = persistent, ece_restart = restart,
        ece_host_supervision = (restart = HostSupervised),
        ece_runtime_supervision = (attachment \<noteq> ProviderManaged),
        ece_provider_supervision = (restart = ProviderSupervised), ece_checkpoint_resume = False,
        ece_persistent_volume = False, ece_persistent_cache = False, ece_outbound_https = True,
        ece_inbound_available = False, ece_peer_transfer = True, ece_cpu_millicores = None,
        ece_ram_bytes = None, ece_accelerator = None, ece_accelerator_count = None, ece_vram_bytes = None\<rparr>"

definition artifact_transfer_capability :: capability where
  "artifact_transfer_capability =
     \<lparr>cap_id = ARTIFACT_TRANSFER_CAPABILITY_ID, cap_revision = 1,
      cap_properties = bm_collect [(''https_range'', ''true''), (''multipart'', ''true''),
        (''resume'', ''true''), (''peer_transfer'', ''true'')]\<rparr>"

definition validate_execution_capability ::
    "capability list \<Rightarrow> execution_attachment_type \<Rightarrow> bool \<Rightarrow> restart_capability \<Rightarrow>
     fabric_contract_error + unit" where
  "validate_execution_capability capabilities attachment persistent restart =
     bind_res (ok_or (find (\<lambda>c. cap_id c = EXECUTION_CAPABILITY_ID \<and> 1 \<le> cap_revision c) capabilities)
       (fab_err ''EXECUTION_CAPABILITY_REQUIRED'' ''canonical execution Capability is required'')) (\<lambda>c.
     ensure (\<not> list_ex (\<lambda>(key, value). map_of (cap_properties c) key \<noteq> Some value)
         [(''attachment_type'', attachment_name attachment), (''persistent'', show_bool persistent),
          (''restart_capability'', restart_name restart)])
       (fab_err ''EXECUTION_CAPABILITY_MISMATCH''
          ''typed execution lifecycle fields disagree with canonical Capability properties''))"

section \<open>node.rs\<close>

record node_ref =
  node_id :: string
  node_epoch :: u64

record execution_node_descriptor =
  nd_node :: "node_ref option"
  nd_node_type :: string
  nd_persistent :: "bool option"

definition validate_node_descriptor :: "execution_node_descriptor \<Rightarrow> fabric_contract_error + unit" where
  "validate_node_descriptor d =
     bind_res (ok_or (nd_node d) (fab_err ''NODE_IDENTITY_REQUIRED'' ''NodeRef is required'')) (\<lambda>node.
     bind_res (ensure (\<not> (node_id node = [] \<or> node_epoch node = 0 \<or> nd_node_type d = []))
       (fab_err ''NODE_IDENTITY_INVALID'' ''NodeId, positive Node epoch, and node_type are required'')) (\<lambda>_.
     ensure (nd_persistent d \<noteq> None)
       (fab_err ''NODE_PERSISTENCE_REQUIRED'' ''persistent must be explicitly true or false'')))"

record node_lifecycle_projection =
  nl_descriptor :: execution_node_descriptor
  nl_state :: node_lifecycle_state
  nl_session_id :: "string option"

definition nl_persistent :: "node_lifecycle_projection \<Rightarrow> bool" where
  "nl_persistent n \<longleftrightarrow> nd_persistent (nl_descriptor n) = Some True"

definition Node_enroll ::
    "execution_node_descriptor option \<Rightarrow> string \<Rightarrow> fabric_contract_error + node_lifecycle_projection" where
  "Node_enroll hello_node session_id =
     bind_res (ok_or hello_node (fab_err ''NODE_IDENTITY_REQUIRED'' ''Node descriptor is required'')) (\<lambda>d.
     bind_res (validate_node_descriptor d) (\<lambda>_.
     bind_res (ensure (session_id \<noteq> [])
       (fab_err ''NODE_SESSION_REQUIRED'' ''Node session identity is required'')) (\<lambda>_.
     Inr \<lparr>nl_descriptor = d, nl_state = NodeOnline, nl_session_id = Some session_id\<rparr>)))"

definition Node_reconnect ::
    "execution_node_descriptor \<Rightarrow> string \<Rightarrow> node_lifecycle_projection \<Rightarrow>
     (fabric_contract_error + unit) run \<times> node_lifecycle_projection" where
  "Node_reconnect d session_id n =
     (case validate_node_descriptor d of
        Inl e \<Rightarrow> (Return (Inl e), n)
      | Inr _ \<Rightarrow>
          (case (nd_node (nl_descriptor n), nd_node d) of
             (Some expected, Some received) \<Rightarrow>
               if node_id received \<noteq> node_id expected \<or> node_epoch received < node_epoch expected \<or>
                  nd_node_type d \<noteq> nd_node_type (nl_descriptor n) \<or>
                  nd_persistent d \<noteq> nd_persistent (nl_descriptor n)
               then (Return (Inl (fab_err ''NODE_IDENTITY_MISMATCH''
                       ''reconnect changed Node identity or immutable lifecycle attributes'')), n)
               else if nl_state n \<in> {NodeLost, NodeTerminated} \<and> \<not> nl_persistent n
               then (Return (Inl (fab_err ''EPHEMERAL_NODE_CLOSED''
                       ''an ephemeral Node cannot reconnect after its lifecycle is closed'')), n)
               else if session_id = [] \<or> nl_session_id n = Some session_id
               then (Return (Inl (fab_err ''NODE_SESSION_INVALID''
                       ''reconnect requires a new non-empty NodeSessionId'')), n)
               else (Return (Inr ()),
                     n\<lparr>nl_descriptor := d, nl_state := NodeOnline, nl_session_id := Some session_id\<rparr>)
           | _ \<Rightarrow> (Panic ''validated descriptor'', n)))"

definition Node_disconnect :: "bool \<Rightarrow> node_lifecycle_projection \<Rightarrow> node_lifecycle_projection" where
  "Node_disconnect canonical_lease_active n =
     n\<lparr>nl_session_id := None,
       nl_state := (if nl_persistent n \<or> canonical_lease_active then NodeOffline else NodeLost)\<rparr>"

definition Node_lease_expired :: "node_lifecycle_projection \<Rightarrow> node_lifecycle_projection" where
  "Node_lease_expired n =
     n\<lparr>nl_session_id := None, nl_state := (if nl_persistent n then NodeOffline else NodeLost)\<rparr>"

definition Node_terminate ::
    "node_lifecycle_projection \<Rightarrow> (fabric_contract_error + unit) \<times> node_lifecycle_projection" where
  "Node_terminate n =
     (if nl_persistent n
      then (Inl (fab_err ''PERSISTENT_NODE_RETAINED''
              ''persistent Node identity is retained while offline''), n)
      else (Inr (), n\<lparr>nl_session_id := None, nl_state := NodeTerminated\<rparr>))"

section \<open>admission.rs: the agent hello\<close>

definition map_contract_error :: "contract_error \<Rightarrow> fabric_contract_error" where
  "map_contract_error e =
     fab_err
       (if ce_reason_code e \<in> {''GENERATION_INVALID'', ''FENCE_TOKEN_INVALID'', ''LEASE_EXPIRED'',
            ''LEASE_NOT_ACTIVE'', ''LEASE_RENEWAL_INVALID'', ''FENCE_MISMATCH''}
        then ce_reason_code e else ''SEMANTIC_CONTRACT_REJECTED'')
       (ce_message e)"

definition validate_identity :: "identity option \<Rightarrow> string \<Rightarrow> fabric_contract_error + identity" where
  "validate_identity i name =
     bind_res (ok_or i (fab_err ''REQUIRED_FIELD_MISSING'' (name @ '' identity is required''))) (\<lambda>i.
     bind_res (map_err map_contract_error (Identity_validate i)) (\<lambda>_. Inr i))"

text \<open>A \<open>RuntimeRef\<close> is its optional identity.\<close>

definition runtime_identity :: "identity option option \<Rightarrow> fabric_contract_error + identity" where
  "runtime_identity runtime =
     bind_res (ok_or runtime (fab_err ''REQUIRED_FIELD_MISSING'' ''Runtime identity is required''))
       (\<lambda>r. validate_identity r ''Runtime'')"

record account_scope =
  as_user_id :: string
  as_organization_id :: string
  as_workspace_id :: string

record execution_agent_hello =
  eh_runtime :: "identity option option"
  eh_scope :: "account_scope option"
  eh_attachment_type :: i32
  eh_persistence_class :: i32
  eh_agent_version :: string
  eh_min_protocol_version :: u32
  eh_max_protocol_version :: u32
  eh_resume_token :: string
  eh_capabilities :: "capability list"
  eh_enrollment_proof :: string
  eh_node :: "execution_node_descriptor option"
  eh_restart_capability :: i32

definition restart_matches :: "execution_attachment_type \<Rightarrow> restart_capability \<Rightarrow> bool" where
  "restart_matches attachment restart \<longleftrightarrow>
     (attachment, restart) \<in> {(ContainerAgent, RcNone), (HostAgent, HostSupervised),
       (ProviderManaged, ProviderSupervised)}"

definition validate_hello_credentials :: "execution_agent_hello \<Rightarrow> fabric_contract_error + unit" where
  "validate_hello_credentials hello =
     bind_res (ensure (\<not> (eh_min_protocol_version hello = 0 \<or> 2 < eh_min_protocol_version hello \<or>
         eh_max_protocol_version hello < 2 \<or> eh_agent_version hello = []))
       (fab_err ''PROTOCOL_INCOMPATIBLE'' ''Execution Agent protocol range must include version 2'')) (\<lambda>_.
     bind_res (ensure (\<not> (eh_enrollment_proof hello = [] \<and> eh_resume_token hello = []))
       (fab_err ''AUTHENTICATION_REQUIRED''
          ''an enrollment proof or authenticated resume token is required'')) (\<lambda>_.
     bind_res (ensure (\<not> (eh_enrollment_proof hello \<noteq> [] \<and> eh_resume_token hello \<noteq> []))
       (fab_err ''CREDENTIAL_AMBIGUOUS''
          ''enrollment proof and resume token cannot be presented together'')) (\<lambda>_.
     ensure (case eh_scope hello of None \<Rightarrow> False | Some scope \<Rightarrow> as_workspace_id scope \<noteq> [])
       (fab_err ''WORKSPACE_REQUIRED'' ''workspace identity is required''))))"

definition validate_hello_lifecycle ::
    "execution_agent_hello \<Rightarrow> bool \<Rightarrow> fabric_contract_error + execution_attachment_type \<times> restart_capability" where
  "validate_hello_lifecycle hello persistent =
     bind_res (ok_or (attachment_try_from (eh_attachment_type hello))
       (fab_err ''UNKNOWN_ENUM_VALUE'' ''unknown attachment type'')) (\<lambda>attachment.
     bind_res (ensure (attachment \<noteq> AttUnspecified)
       (fab_err ''REQUIRED_FIELD_MISSING'' ''attachment type is required'')) (\<lambda>_.
     bind_res (ok_or (persistence_try_from (eh_persistence_class hello))
       (fab_err ''UNKNOWN_ENUM_VALUE'' ''unknown persistence class'')) (\<lambda>persistence.
     bind_res (ensure (persistence \<noteq> PcUnspecified)
       (fab_err ''REQUIRED_FIELD_MISSING'' ''persistence class is required'')) (\<lambda>_.
     bind_res (ensure (persistence = (if persistent then PcPersistent else PcEphemeral))
       (fab_err ''NODE_PERSISTENCE_MISMATCH''
          ''persistent disagrees with the compatibility persistence_class'')) (\<lambda>_.
     bind_res (ok_or (restart_try_from (eh_restart_capability hello))
       (fab_err ''UNKNOWN_ENUM_VALUE'' ''unknown restart capability'')) (\<lambda>restart.
     bind_res (ensure (restart_matches attachment restart)
       (fab_err ''RESTART_CAPABILITY_INVALID''
          ''restart capability is not provided by this attachment type'')) (\<lambda>_.
     Inr (attachment, restart))))))))"

text \<open>The \<open>expect\<close> on the persistence follows the validation of the descriptor.\<close>

definition validate_hello :: "execution_agent_hello \<Rightarrow> (fabric_contract_error + unit) run" where
  "validate_hello hello =
     (case bind_res (runtime_identity (eh_runtime hello)) (\<lambda>_.
           bind_res (ok_or (eh_node hello)
             (fab_err ''NODE_IDENTITY_REQUIRED'' ''Node descriptor is required'')) (\<lambda>node.
           bind_res (validate_node_descriptor node) (\<lambda>_. Inr node))) of
        Inl e \<Rightarrow> Return (Inl e)
      | Inr node \<Rightarrow>
          (case nd_persistent node of
             None \<Rightarrow> Panic ''validated Node persistence''
           | Some persistent \<Rightarrow>
               Return (bind_res (validate_hello_lifecycle hello persistent) (\<lambda>(attachment, restart).
                 bind_res (validate_hello_credentials hello) (\<lambda>_.
                 validate_execution_capability (eh_capabilities hello) attachment persistent restart)))))"

section \<open>reconcile.rs\<close>

datatype desired_runtime = DesiredRunning | DesiredStopped

datatype provider_observation =
  ProvRunning | ProvPreempted | ProvTerminated | ProvUnavailable | ProvUnknown

datatype lease_observation = LeaseObsActive | LeaseObsExpired | LeaseObsMissing

datatype runtime_observed_state =
  ObsUnspecified | ObsEnrolled | ObsStaging | ObsStarting | ObsRunning | ObsStopping | ObsStopped |
  ObsFailed | ObsLost

datatype termination_classification =
  TcUnspecified | TcExpected | TcGraceful | TcUnexpectedLoss | TcExternal | TcUnknownLoss

record reconcile_evidence =
  re_desired :: desired_runtime
  re_agent_state :: "runtime_observed_state option"
  re_agent_termination :: "termination_classification option"
  re_provider :: provider_observation
  re_lease :: lease_observation
  re_stop_acknowledged :: bool

datatype runtime_disposition =
  DispActive | NetworkPartitionCandidate | ExpectedTermination | GracefulTermination |
  UnexpectedLoss | ExternalTermination | UnknownLoss

definition reconcile_runtime :: "reconcile_evidence \<Rightarrow> runtime_disposition" where
  "reconcile_runtime e =
     (if re_agent_state e = Some ObsStopped \<and> re_agent_termination e = Some TcGraceful
      then GracefulTermination
      else if re_provider e \<in> {ProvPreempted, ProvTerminated}
      then (if re_desired e = DesiredStopped \<or> re_stop_acknowledged e then ExpectedTermination
            else ExternalTermination)
      else if re_lease e \<in> {LeaseObsExpired, LeaseObsMissing}
      then (if re_desired e = DesiredStopped \<and> re_stop_acknowledged e then ExpectedTermination
            else if re_desired e = DesiredRunning \<and> re_provider e = ProvRunning \<and> re_agent_state e = None
            then NetworkPartitionCandidate
            else if re_desired e = DesiredRunning then UnexpectedLoss
            else UnknownLoss)
      else DispActive)"

section \<open>connectivity.rs, enrollment.rs, provider.rs\<close>

datatype connectivity_mode = CmUnspecified | CmLocal | CmLanDirect | CmDirect | CmOverlay | CmRelay

record connectivity_route =
  cr_mode :: connectivity_mode
  cr_control_endpoint :: string
  cr_server_name :: string
  cr_outbound_only :: bool

definition validate_route :: "connectivity_route \<Rightarrow> fabric_contract_error + unit" where
  "validate_route r =
     ensure (\<not> (cr_mode r \<notin> {CmLocal, CmLanDirect, CmRelay} \<or> \<not> prefix ''https://'' (cr_control_endpoint r) \<or>
         cr_server_name r = [] \<or> \<not> cr_outbound_only r))
       (fab_err ''CONNECTIVITY_ROUTE_INVALID''
          ''connectivity requires LOCAL/LAN_DIRECT/RELAY outbound HTTPS with a server name'')"

text \<open>The three providers differ in the mode of the route they build.\<close>

definition connectivity_resolve ::
    "connectivity_mode \<Rightarrow> string \<Rightarrow> string \<Rightarrow> fabric_contract_error + connectivity_route" where
  "connectivity_resolve mode control_endpoint server_name =
     (let route = \<lparr>cr_mode = mode, cr_control_endpoint = control_endpoint, cr_server_name = server_name,
                   cr_outbound_only = True\<rparr>
      in bind_res (validate_route route) (\<lambda>_. Inr route))"

record runtime_scope =
  rsc_organization_id :: string
  rsc_workspace_id :: string
  rsc_runtime :: identity

record enrollment_grant =
  eg_workload_identity :: identity
  eg_scope :: runtime_scope
  eg_expires_at_unix_ms :: u64

text \<open>The development verifier holds its unused tokens and the lifetime of a grant.\<close>

definition Enrollment_enroll ::
    "u64 \<Rightarrow> string \<Rightarrow> runtime_scope \<Rightarrow> u64 \<Rightarrow> string btree_set \<Rightarrow>
     (fabric_contract_error + enrollment_grant) \<times> string btree_set" where
  "Enrollment_enroll lifetime_ms proof_token scope now_unix_ms tokens =
     (if proof_token = []
      then (Inl (fab_err ''AUTHENTICATION_REQUIRED'' ''development enrollment proof is required''), tokens)
      else if proof_token \<notin> set tokens
      then (Inl (fab_err ''ENROLLMENT_PROOF_REJECTED''
              ''development enrollment proof is invalid or already consumed''), tokens)
      else
        let rest = bs_remove proof_token tokens in
        (case checked_add now_unix_ms lifetime_ms of
           None \<Rightarrow> (Inl (fab_err ''TIMESTAMP_INVALID'' ''workload identity expiry overflowed''), rest)
         | Some expires \<Rightarrow>
             (Inr \<lparr>eg_workload_identity =
                     Identity (''workload-'' @ ident_id (rsc_runtime scope)) (ident_generation (rsc_runtime scope)),
                   eg_scope = scope, eg_expires_at_unix_ms = expires\<rparr>, rest)))"

definition FakeProvider_report ::
    "identity \<Rightarrow> provider_observation \<Rightarrow> (identity, provider_observation) btree_map \<Rightarrow>
     (identity, provider_observation) btree_map" where
  "FakeProvider_report runtime observation m = bm_insert runtime observation m"

definition FakeProvider_observe ::
    "identity \<Rightarrow> (identity, provider_observation) btree_map \<Rightarrow> provider_observation" where
  "FakeProvider_observe runtime m = (case map_of m runtime of None \<Rightarrow> ProvUnknown | Some x \<Rightarrow> x)"

section \<open>Accepted observations\<close>

fun admit_all ::
    "(string \<times> u64) list \<Rightarrow> observation_cursor \<Rightarrow>
     (fabric_contract_error + admission_disposition) list \<times> observation_cursor" where
  "admit_all [] c = ([], c)"
| "admit_all (f # fs) c =
     (let (r, c1) = ObservationCursor_admit (fst f) (snd f) c; (rs, c2) = admit_all fs c1 in (r # rs, c2))"

definition accepted :: "(string \<times> u64) list \<Rightarrow> (fabric_contract_error + admission_disposition) list \<Rightarrow>
     (string \<times> u64) list" where
  "accepted fs rs = map fst (filter (\<lambda>(f, r). r = Inr Accepted) (zip fs rs))"

text \<open>The replay window after the frames \<open>acc\<close>: the last 1024 of them.\<close>

definition replay_window :: "(string \<times> u64) list \<Rightarrow> string list" where
  "replay_window acc = drop (length acc - MAX_REPLAY_IDS) (map fst acc)"

definition cursor_at :: "(string \<times> u64) list \<Rightarrow> observation_cursor \<Rightarrow> bool" where
  "cursor_at acc c \<longleftrightarrow>
     map (unat \<circ> snd) acc = [1..<Suc (length acc)] \<and> unat (oc_last_sequence c) = length acc \<and>
     oc_order c = replay_window acc \<and> distinct (oc_order c) \<and> set (oc_recent_ids c) = set (oc_order c)"

lemma replay_window_snoc:
  "replay_window (acc @ [f]) =
     (if MAX_REPLAY_IDS < length (replay_window acc @ [fst f]) then tl (replay_window acc @ [fst f])
      else replay_window acc @ [fst f])"
proof (cases "length acc < MAX_REPLAY_IDS")
  case True
  then show ?thesis by (simp add: replay_window_def)
next
  case False
  then have "Suc (length acc) - MAX_REPLAY_IDS = Suc (length acc - MAX_REPLAY_IDS)" by simp
  moreover have "0 < MAX_REPLAY_IDS" by (simp add: MAX_REPLAY_IDS_def)
  ultimately show ?thesis using False by (simp add: replay_window_def drop_Suc tl_drop)
qed

lemma admit_result:
  obtains (refused) e where "ObservationCursor_admit f n c = (Inl e, c)" 
  | (duplicate) "f \<noteq> []" "n \<noteq> 0" "f \<in> set (oc_recent_ids c)" "ObservationCursor_admit f n c = (Inr Duplicate, c)"
  | (fresh) c' where "f \<noteq> []" "n \<noteq> 0" "f \<notin> set (oc_recent_ids c)" "n = oc_last_sequence c + 1"
      "ObservationCursor_admit f n c = (Inr Accepted, c')" "oc_last_sequence c' = n"
      "oc_order c' = (if MAX_REPLAY_IDS < length (oc_order c @ [f]) then tl (oc_order c @ [f]) else oc_order c @ [f])"
      "set (oc_recent_ids c') = insert f (set (oc_recent_ids c)) -
         (if MAX_REPLAY_IDS < length (oc_order c @ [f]) then {hd (oc_order c @ [f])} else {})"
proof (cases "f \<noteq> [] \<and> n \<noteq> 0 \<and> f \<notin> set (oc_recent_ids c) \<and> n = oc_last_sequence c + 1")
  case True
  obtain x xs where "oc_order c @ [f] = x # xs" by (cases "oc_order c") auto
  then show ?thesis using True
    by (intro fresh [of "snd (ObservationCursor_admit f n c)"]) (auto simp: ObservationCursor_admit_def Let_def)
next
  case False
  then consider "f = [] \<or> n = 0" | "f \<noteq> []" "n \<noteq> 0" "f \<in> set (oc_recent_ids c)"
    | "f \<noteq> []" "n \<noteq> 0" "f \<notin> set (oc_recent_ids c)" "n \<noteq> oc_last_sequence c + 1" by blast
  then show ?thesis
  proof cases
    case 1
    then show ?thesis by (intro refused) (simp add: ObservationCursor_admit_def)
  next
    case 2
    then show ?thesis by (intro duplicate) (simp_all add: ObservationCursor_admit_def)
  next
    case 3
    then show ?thesis by (intro refused) (simp add: ObservationCursor_admit_def)
  qed
qed

lemma cursor_admit:
  assumes "cursor_at acc c" and "ObservationCursor_admit (fst f) (snd f) c = (r, c')"
  shows "cursor_at (if r = Inr Accepted then acc @ [f] else acc) c'"
proof (cases rule: admit_result [of "fst f" "snd f" c])
  case (fresh d)
  let ?order = "oc_order c @ [fst f]"
  have c: "map (unat \<circ> snd) acc = [1..<Suc (length acc)]" "unat (oc_last_sequence c) = length acc"
    "oc_order c = replay_window acc" "distinct (oc_order c)" "set (oc_recent_ids c) = set (oc_order c)"
    using assms(1) unfolding cursor_at_def by blast+
  have "unat (snd f) = Suc (length acc)"
    using fresh(2,4) c(2) unatSuc [of "oc_last_sequence c"] by (simp add: add.commute)
  moreover have "distinct ?order" using fresh(3) c(4,5) by simp
  moreover have "set (tl ?order) = set ?order - {hd ?order}"
    using calculation(2) by (cases "oc_order c") auto
  ultimately show ?thesis
    using assms(2) fresh c(1,3,5)
    by (auto simp: cursor_at_def replay_window_snoc distinct_tl)
qed (use assms in auto)

lemma cursor_admit_all:
  "cursor_at acc c \<Longrightarrow> admit_all fs c = (rs, c') \<Longrightarrow> cursor_at (acc @ accepted fs rs) c'"
proof (induction fs arbitrary: acc c rs)
  case (Cons f fs)
  obtain r c1 where r: "ObservationCursor_admit (fst f) (snd f) c = (r, c1)"
    by (cases "ObservationCursor_admit (fst f) (snd f) c")
  obtain rs' where rs: "admit_all fs c1 = (rs', c')" "rs = r # rs'"
    using Cons.prems(2) r by (auto split: prod.splits)
  show ?case
    using Cons.IH [OF cursor_admit [OF Cons.prems(1) r] rs(1)] by (auto simp: accepted_def rs(2))
qed (simp add: accepted_def)

text \<open>C39. Observations are admitted exactly once and in order. Over any sequence of frames of a session
  the accepted ones carry the numbers 1, 2, 3, ... without a gap, the cursor stands at their count, its
  window holds the identifiers of the last 1024 accepted frames without repetition, and the next frame
  is reported as a duplicate exactly when it is well formed and its identifier is in that window.\<close>

theorem observations_gapless:
  "let (rs, c) = admit_all fs ObservationCursor_default; acc = accepted fs rs in
     map (unat \<circ> snd) acc = [1..<Suc (length acc)] \<and> unat (oc_last_sequence c) = length acc \<and>
     oc_order c = replay_window acc \<and> distinct (replay_window acc) \<and>
     set (oc_recent_ids c) = set (replay_window acc) \<and>
     (fst (ObservationCursor_admit f n c) = Inr Duplicate \<longleftrightarrow> f \<noteq> [] \<and> n \<noteq> 0 \<and> f \<in> set (replay_window acc))"
proof -
  obtain rs c where run: "admit_all fs ObservationCursor_default = (rs, c)"
    by (cases "admit_all fs ObservationCursor_default")
  have "cursor_at [] ObservationCursor_default"
    by (simp add: cursor_at_def ObservationCursor_default_def replay_window_def)
  from cursor_admit_all [OF this run] have "cursor_at (accepted fs rs) c" by simp
  then show ?thesis
    unfolding run by (auto simp: cursor_at_def ObservationCursor_admit_def Let_def)
qed

section \<open>The node lifecycle\<close>

datatype node_call =
  NReconnect execution_node_descriptor string | NDisconnect bool | NLeaseExpired | NTerminate

fun node_exec :: "node_call \<Rightarrow> node_lifecycle_projection \<Rightarrow> node_lifecycle_projection" where
  "node_exec (NReconnect d s) n = snd (Node_reconnect d s n)"
| "node_exec (NDisconnect active) n = Node_disconnect active n"
| "node_exec NLeaseExpired n = Node_lease_expired n"
| "node_exec NTerminate n = snd (Node_terminate n)"

definition node_run :: "node_call list \<Rightarrow> node_lifecycle_projection \<Rightarrow> node_lifecycle_projection" where
  "node_run cs n = fold node_exec cs n"

text \<open>Two descriptors of one logical node: only the epoch may have grown.\<close>

definition same_node :: "execution_node_descriptor \<Rightarrow> execution_node_descriptor \<Rightarrow> bool" where
  "same_node d d' \<longleftrightarrow>
     (case (nd_node d, nd_node d') of
        (Some r, Some r') \<Rightarrow> node_id r' = node_id r \<and> node_epoch r \<le> node_epoch r'
      | _ \<Rightarrow> False) \<and>
     nd_node_type d' = nd_node_type d \<and> nd_persistent d' = nd_persistent d"

definition node_coherent :: "node_lifecycle_projection \<Rightarrow> bool" where
  "node_coherent n \<longleftrightarrow> (nl_session_id n \<noteq> None \<longleftrightarrow> nl_state n = NodeOnline) \<and>
     (nl_persistent n \<longrightarrow> nl_state n \<in> {NodeOnline, NodeOffline})"

lemma same_node_trans: "same_node a b \<Longrightarrow> same_node b c \<Longrightarrow> same_node a c"
  by (auto simp: same_node_def split: option.splits)

lemma same_node_refl: "nd_node d \<noteq> None \<Longrightarrow> same_node d d"
  by (auto simp: same_node_def)

lemma same_node_known: "same_node d d' \<Longrightarrow> nd_node d' \<noteq> None"
  by (auto simp: same_node_def split: option.splits)

lemma node_descriptor_known: "validate_node_descriptor d = Inr u \<Longrightarrow> nd_node d \<noteq> None"
  by (auto simp: validate_node_descriptor_def bind_res_Inr)

lemma reconnect_result:
  assumes "nd_node (nl_descriptor n) \<noteq> None"
  obtains (refused) e where "Node_reconnect d s n = (Return (Inl e), n)"
  | (accepted) "Node_reconnect d s n = (Return (Inr ()),
        n\<lparr>nl_descriptor := d, nl_state := NodeOnline, nl_session_id := Some s\<rparr>)"
      "same_node (nl_descriptor n) d" "nl_state n \<in> {NodeLost, NodeTerminated} \<longrightarrow> nl_persistent n"
proof (cases "validate_node_descriptor d")
  case (Inl e)
  then show ?thesis by (intro refused) (simp add: Node_reconnect_def)
next
  case (Inr u)
  obtain r r' where "nd_node (nl_descriptor n) = Some r" "nd_node d = Some r'"
    using assms node_descriptor_known [OF Inr] by blast
  note known = Inr this
  let ?changed = "node_id r' \<noteq> node_id r \<or> node_epoch r' < node_epoch r \<or>
    nd_node_type d \<noteq> nd_node_type (nl_descriptor n) \<or> nd_persistent d \<noteq> nd_persistent (nl_descriptor n)"
  let ?closed = "nl_state n \<in> {NodeLost, NodeTerminated} \<and> \<not> nl_persistent n"
  let ?session = "s = [] \<or> nl_session_id n = Some s"
  show ?thesis
  proof (cases "?changed \<or> ?closed \<or> ?session")
    case True
    then have "\<exists>e. Node_reconnect d s n = (Return (Inl e), n)" using known by (auto simp: Node_reconnect_def)
    then show ?thesis using refused by blast
  next
    case False
    then show ?thesis
      using known by (intro accepted) (auto simp: Node_reconnect_def same_node_def)
  qed
qed

lemma node_exec_step:
  assumes "nd_node (nl_descriptor n) \<noteq> None" and "node_coherent n"
  shows "same_node (nl_descriptor n) (nl_descriptor (node_exec c n)) \<and> node_coherent (node_exec c n)"
proof (cases c)
  case (NReconnect d s)
  show ?thesis
    using assms same_node_refl
    by (cases rule: reconnect_result [OF assms(1), of d s])
      (auto simp: NReconnect node_coherent_def)
qed (use assms in \<open>auto simp: same_node_refl node_coherent_def Node_disconnect_def Node_lease_expired_def
    Node_terminate_def nl_persistent_def\<close>)

lemma node_run_step:
  "nd_node (nl_descriptor n) \<noteq> None \<Longrightarrow> node_coherent n \<Longrightarrow>
     same_node (nl_descriptor n) (nl_descriptor (node_run cs n)) \<and> node_coherent (node_run cs n)"
proof (induction cs arbitrary: n)
  case (Cons c cs)
  have s: "same_node (nl_descriptor n) (nl_descriptor (node_exec c n))" "node_coherent (node_exec c n)"
    using node_exec_step Cons.prems by blast+
  show ?case
    using Cons.IH [OF same_node_known [OF s(1)] s(2)] same_node_trans [OF s(1)] by (simp add: node_run_def)
qed (simp add: node_run_def same_node_refl)

lemma enrolled_node:
  "Node_enroll (Some d) s = Inr n \<longleftrightarrow>
     validate_node_descriptor d = Inr () \<and> s \<noteq> [] \<and>
     n = \<lparr>nl_descriptor = d, nl_state = NodeOnline, nl_session_id = Some s\<rparr>"
  by (auto simp: Node_enroll_def bind_res_Inr)

text \<open>C40. A closed ephemeral node can come back. Whatever happens to an enrolled node, it keeps its
  identifier, type and persistence, its epoch never decreases, a reconnect never panics, it has a
  session exactly while it is online, and a persistent node is only ever online or offline. After the
  termination of an ephemeral node every call but one keeps it closed; but a disconnect reported with
  an active lease moves it to offline, and the next reconnect with a new session is accepted.\<close>

theorem terminated_node_reopens:
  assumes "Node_enroll (Some d) s0 = Inr n0"
  shows "let n = node_run cs n0; closed = snd (Node_terminate n) in
    same_node d (nl_descriptor n) \<and> node_coherent n \<and> (\<forall>d' s. \<exists>r. fst (Node_reconnect d' s n) = Return r) \<and>
    (nd_persistent d = Some False \<longrightarrow>
       (\<forall>c. c \<noteq> NDisconnect True \<longrightarrow> nl_state (node_exec c closed) \<in> {NodeLost, NodeTerminated}) \<and>
       (\<forall>s. s \<noteq> [] \<longrightarrow> fst (Node_reconnect (nl_descriptor n) s (node_exec (NDisconnect True) closed)) = Return (Inr ())))"
proof -
  let ?n = "node_run cs n0" and ?closed = "snd (Node_terminate (node_run cs n0))"
  have n0: "validate_node_descriptor d = Inr ()" "nl_descriptor n0 = d" "node_coherent n0"
    using assms by (auto simp: enrolled_node node_coherent_def)
  have n: "same_node d (nl_descriptor ?n)" "node_coherent ?n"
    using node_run_step [of n0 cs] n0 node_descriptor_known by auto
  have known: "nd_node (nl_descriptor ?n) \<noteq> None" by (rule same_node_known [OF n(1)])
  have total: "\<exists>r. fst (Node_reconnect d' s ?n) = Return r" for d' s
    using reconnect_result [OF known, of d' s] by (metis fst_conv)
  have valid: "validate_node_descriptor (nl_descriptor ?n) = Inr ()"
    using n(1) n0(1) by (auto simp: validate_node_descriptor_def same_node_def bind_res_Inr split: option.splits)
  have stays: "nl_state (node_exec c ?closed) \<in> {NodeLost, NodeTerminated}"
    if e: "nd_persistent d = Some False" and c: "c \<noteq> NDisconnect True" for c
  proof -
    have p: "\<not> nl_persistent ?n" using e n(1) by (simp add: same_node_def nl_persistent_def)
    then have closed: "?closed = ?n\<lparr>nl_session_id := None, nl_state := NodeTerminated\<rparr>"
      by (simp add: Node_terminate_def)
    show ?thesis
    proof (cases c)
      case (NReconnect d' s)
      have "nd_node (nl_descriptor ?closed) \<noteq> None" using known by (simp add: closed)
      then show ?thesis
        using p by (cases rule: reconnect_result [of ?closed d' s]) (auto simp: NReconnect closed nl_persistent_def)
    qed (use c p in \<open>auto simp: closed Node_disconnect_def Node_lease_expired_def Node_terminate_def nl_persistent_def\<close>)
  qed
  have reopened: "fst (Node_reconnect (nl_descriptor ?n) s (node_exec (NDisconnect True) ?closed)) = Return (Inr ())"
    if "nd_persistent d = Some False" "s \<noteq> []" for s
    using that n(1) valid known
    by (auto simp: Node_reconnect_def Node_disconnect_def Node_terminate_def nl_persistent_def same_node_def)
  show ?thesis using n total stays reopened by (simp add: Let_def)
qed

definition ex_node :: execution_node_descriptor where
  "ex_node = \<lparr>nd_node = Some \<lparr>node_id = ''n1'', node_epoch = 1\<rparr>, nd_node_type = ''container'',
     nd_persistent = Some False\<rparr>"

theorem terminated_node_reopens_witness:
  "\<exists>n. Node_enroll (Some ex_node) ''s1'' = Inr n \<and>
     nl_state (snd (Node_terminate n)) = NodeTerminated \<and>
     fst (Node_reconnect ex_node ''s2'' (Node_disconnect True (snd (Node_terminate n)))) = Return (Inr ())"
proof -
  define n where "n = \<lparr>nl_descriptor = ex_node, nl_state = NodeOnline, nl_session_id = Some ''s1''\<rparr>"
  have n: "Node_enroll (Some ex_node) ''s1'' = Inr n"
    by (simp add: enrolled_node n_def ex_node_def validate_node_descriptor_def)
  have d: "nd_persistent ex_node = Some False" "nl_descriptor n = ex_node" by (simp_all add: n_def ex_node_def)
  have "fst (Node_reconnect ex_node ''s2'' (Node_disconnect True (snd (Node_terminate n)))) = Return (Inr ())"
    using terminated_node_reopens [OF n, of "[]"] d by (simp add: node_run_def Let_def)
  moreover have "nl_state (snd (Node_terminate n)) = NodeTerminated"
    using d by (simp add: Node_terminate_def nl_persistent_def)
  ultimately show ?thesis using n by blast
qed

section \<open>Capabilities, hellos and enrollment\<close>

lemma attachment_name_inject [simp]: "attachment_name a = attachment_name b \<longleftrightarrow> a = b"
  by (cases a; cases b) simp_all

lemma restart_name_inject [simp]: "restart_name a = restart_name b \<longleftrightarrow> a = b"
  by (cases a; cases b) simp_all

lemma show_bool_inject [simp]: "show_bool a = show_bool b \<longleftrightarrow> a = b"
  by (simp add: show_bool_def)

lemma map_of_insert_optional:
  "map_of (insert_optional k v m) k' = (if k' = k \<and> v \<noteq> None then v else map_of m k')"
  by (simp add: insert_optional_def split: option.split)

lemma into_capability_facts:
  "map_of (cap_properties (into_capability e)) ''attachment_type'' = Some (attachment_name (ece_attachment e))"
  "map_of (cap_properties (into_capability e)) ''persistent'' = Some (show_bool (ece_persistent e))"
  "map_of (cap_properties (into_capability e)) ''restart_capability'' = Some (restart_name (ece_restart e))"
  by (simp_all add: into_capability_def Let_def map_of_insert_optional map_of_collect)

text \<open>An execution capability is accepted for exactly the lifecycle facts it was built from.\<close>

lemma execution_capability_exact:
  "validate_execution_capability (into_capability e # cs) attachment persistent restart = Inr () \<longleftrightarrow>
     attachment = ece_attachment e \<and> persistent = ece_persistent e \<and> restart = ece_restart e"
proof -
  have "cap_id (into_capability e) = EXECUTION_CAPABILITY_ID \<and> 1 \<le> cap_revision (into_capability e)"
    by (simp add: into_capability_def Let_def)
  then show ?thesis
    by (auto simp: validate_execution_capability_def into_capability_facts)
qed

lemma hello_returns: "validate_hello hello \<noteq> Panic msg"
  by (auto simp: validate_hello_def validate_node_descriptor_def bind_res_Inr split: sum.splits option.splits)

text \<open>A token is spent by its first use, also when the expiry overflows.\<close>

lemma enrollment_single_use:
  assumes "Enrollment_enroll lifetime proof_token scope now tokens = (r, tokens')" and "proof_token \<in> set tokens"
    and "proof_token \<noteq> []"
  shows "set tokens' = set tokens - {proof_token}"
    and "fst (Enrollment_enroll lifetime proof_token scope' now' tokens') =
      Inl (fab_err ''ENROLLMENT_PROOF_REJECTED''
        ''development enrollment proof is invalid or already consumed'')"
  using assms by (auto simp: Enrollment_enroll_def Let_def split: option.splits)

text \<open>Without a graceful stop or a provider report, a runtime with an active lease is active.\<close>

lemma active_lease_is_active:
  "reconcile_runtime e = DispActive \<longleftrightarrow>
     \<not> (re_agent_state e = Some ObsStopped \<and> re_agent_termination e = Some TcGraceful) \<and>
     re_provider e \<notin> {ProvPreempted, ProvTerminated} \<and> re_lease e = LeaseObsActive"
  by (cases "re_lease e") (auto simp: reconcile_runtime_def)

end
