(* ===== verification/Fabric_Placement.thy ===== *)
theory Fabric_Placement
  imports Fabric_Admission "HOL-Library.Multiset"
begin

text \<open>
  Placement of an execution on a node (\<open>framework/crates/cy-execution-fabric/src/placement.rs\<close>). Every
  candidate is evaluated against the hard constraints of the request, the reasons against it are kept,
  and the evaluations are sorted by a comparison in eight stages. The comparison is proved to be the
  lexicographic order of one key, so the choice is the best eligible candidate whatever the order of
  the input, and an eligible candidate is proved to satisfy the constraints of the request.
\<close>

section \<open>Requests, quotes and candidates\<close>

record placement_policy =
  pp_allowed_residencies :: "string btree_set"
  pp_required_trust_domain :: "string option"
  pp_required_classifications :: "string btree_set"
  pp_required_policy_tags :: "string btree_set"
  pp_maximum_total_cost_microunits :: "u64 option"

record network_requirements =
  nr_outbound_https :: bool
  nr_inbound_available :: bool
  nr_peer_transfer :: bool

record execution_placement_request =
  epr_capability_requirements :: "capability_requirement list"
  epr_resource_query :: resource_query
  epr_allowed_attachments :: "execution_attachment_type list"
  epr_persistent :: "bool option"
  epr_restart_capability :: "restart_capability option"
  epr_checkpoint_resume :: bool
  epr_network :: network_requirements
  epr_artifacts :: "artifact_ref list"
  epr_artifact_policy_scope :: string
  epr_policy :: placement_policy
  epr_latest_start_unix_ms :: "u64 option"
  epr_now_unix_ms :: u64

record artifact_transfer_quote =
  atq_bytes_to_transfer :: u64
  atq_estimated_transfer_millis :: u64
  atq_cost_microunits :: u64
  atq_source_count :: u32
  atq_authorization_valid_until_unix_ms :: u64

datatype artifact_availability = VerifiedLocal u64 | AuthorizedTransfer artifact_transfer_quote

record artifact_placement_quote =
  apq_quote_id :: string
  apq_artifact :: artifact_ref
  apq_destination_peer_id :: string
  apq_policy_scope :: string
  apq_observed_at_unix_ms :: u64
  apq_valid_until_unix_ms :: u64
  apq_availability :: artifact_availability

record execution_target_candidate =
  etc_node :: node_ref
  etc_lifecycle_state :: node_lifecycle_state
  etc_attachment :: execution_attachment_type
  etc_persistent :: bool
  etc_restart_capability :: restart_capability
  etc_capabilities :: "capability list"
  etc_provider :: provider
  etc_provider_snapshot :: provider_snapshot
  etc_residency :: string
  etc_trust_domain :: string
  etc_classifications :: "string btree_set"
  etc_policy_tags :: "string btree_set"
  etc_artifact_destination_peer_id :: string
  etc_artifact_quotes :: "artifact_placement_quote list"
  etc_execution_cost_microunits :: u64
  etc_available_at_unix_ms :: u64
  etc_reliability_score :: u32

record placement_reason =
  plr_reason_code :: string
  plr_message :: string

definition reason_if :: "bool \<Rightarrow> string \<Rightarrow> string \<Rightarrow> placement_reason list" where
  "reason_if c reason_code message =
     (if c then [\<lparr>plr_reason_code = reason_code, plr_message = message\<rparr>] else [])"

record resource_match_evidence =
  rme_provider :: identity
  rme_snapshot_generation :: u64
  rme_matched_resources :: "identity list"
  rme_required_count :: u32

record placement_score =
  ps_local_artifact_bytes :: u64
  ps_transfer_bytes :: u64
  ps_estimated_transfer_millis :: u64
  ps_total_cost_microunits :: u64
  ps_estimated_ready_at_unix_ms :: u64
  ps_reliability_score :: u32

record candidate_evaluation =
  cev_node :: node_ref
  cev_eligible :: bool
  cev_reasons :: "placement_reason list"
  cev_resource_match :: "resource_match_evidence option"
  cev_score :: "placement_score option"

record placement_decision =
  pd_selected_node :: "node_ref option"
  pd_evaluations :: "candidate_evaluation list"

section \<open>Validation of the request\<close>

definition validate_request :: "execution_placement_request \<Rightarrow> fabric_contract_error + unit" where
  "validate_request q =
     first_err
       [ensure (epr_now_unix_ms q \<noteq> 0)
          (fab_err ''PLACEMENT_TIME_REQUIRED'' ''placement requires an explicit current timestamp''),
        ensure (\<not> (case epr_latest_start_unix_ms q of None \<Rightarrow> False | Some latest \<Rightarrow> latest < epr_now_unix_ms q))
          (fab_err ''PLACEMENT_DEADLINE_EXPIRED'' ''latest start time is earlier than the placement timestamp''),
        each_unique
          (\<lambda>r. ensure (is_ok (CapabilityRequirement_validate r))
             (fab_err ''CAPABILITY_REQUIREMENT_INVALID''
                ''capability requirements need unique identities and non-zero revisions''))
          req_id
          (fab_err ''CAPABILITY_REQUIREMENT_INVALID''
             ''capability requirements need unique identities and non-zero revisions'')
          [] (epr_capability_requirements q),
        map_err (\<lambda>e. fab_err ''RESOURCE_QUERY_INVALID'' (ce_reason_code e @ '': '' @ ce_message e))
          (ResourceQuery_validate (epr_resource_query q)),
        ensure (\<not> (AttUnspecified \<in> set (epr_allowed_attachments q) \<or>
                   epr_restart_capability q = Some RcUnspecified))
          (fab_err ''LIFECYCLE_REQUIREMENT_INVALID''
             ''unspecified lifecycle values cannot be placement requirements''),
        (let p = epr_policy q in
         ensure (\<not> (pp_required_trust_domain p = Some [] \<or> [] \<in> set (pp_allowed_residencies p) \<or>
                    [] \<in> set (pp_required_classifications p) \<or> [] \<in> set (pp_required_policy_tags p)))
           (fab_err ''PLACEMENT_POLICY_INVALID'' ''placement policy values must be non-empty'')),
        each_unique
          (\<lambda>a. map_err (fab_err ''ARTIFACT_REQUIREMENT_INVALID'') (ArtifactRef_validate a)) ar_digest
          (fab_err ''ARTIFACT_REQUIREMENT_DUPLICATE''
             ''placement request contains a duplicate Artifact identity'')
          [] (epr_artifacts q),
        ensure (\<not> (epr_artifacts q \<noteq> [] \<and> epr_artifact_policy_scope q = []))
          (fab_err ''ARTIFACT_POLICY_SCOPE_REQUIRED''
             ''Artifact placement requires an explicit Artifact Plane policy scope'')]"

section \<open>Evaluation of a candidate\<close>

definition validate_candidate_identity ::
    "execution_placement_request \<Rightarrow> execution_target_candidate \<Rightarrow> placement_reason list" where
  "validate_candidate_identity q c =
     reason_if (node_id (etc_node c) = [] \<or> node_epoch (etc_node c) = 0) ''NODE_IDENTITY_INVALID''
       ''candidate requires a NodeId and positive Node epoch'' @
     reason_if (etc_residency c = [] \<or> etc_trust_domain c = []) ''EXECUTION_POLICY_FACTS_INVALID''
       ''candidate execution residency and trust domain are required'' @
     reason_if (etc_available_at_unix_ms c = 0) ''AVAILABILITY_INVALID''
       ''candidate availability timestamp is required'' @
     reason_if (etc_lifecycle_state c \<noteq> NodeOnline) ''NODE_NOT_ONLINE'' ''candidate Node is not online'' @
     reason_if (etc_attachment c = AttUnspecified \<or> etc_restart_capability c = RcUnspecified)
       ''NODE_LIFECYCLE_INVALID'' ''candidate lifecycle facts must be explicit'' @
     reason_if (epr_allowed_attachments q \<noteq> [] \<and> etc_attachment c \<notin> set (epr_allowed_attachments q))
       ''ATTACHMENT_NOT_ALLOWED'' ''candidate attachment type is not allowed'' @
     reason_if (case epr_persistent q of None \<Rightarrow> False | Some v \<Rightarrow> v \<noteq> etc_persistent c)
       ''PERSISTENCE_REQUIREMENT_UNSATISFIED'' ''candidate persistence does not satisfy the request'' @
     reason_if (case epr_restart_capability q of None \<Rightarrow> False | Some v \<Rightarrow> v \<noteq> etc_restart_capability c)
       ''RESTART_REQUIREMENT_UNSATISFIED'' ''candidate restart capability does not satisfy the request'' @
     reason_if (\<not> is_ok (Provider_validate (etc_provider c)) \<or>
         \<not> is_ok (ProviderSnapshot_validate (etc_provider_snapshot c)) \<or>
         prov_identity (etc_provider c) \<noteq> snap_provider (etc_provider_snapshot c))
       ''PROVIDER_OBSERVATION_INVALID'' ''candidate Provider or ProviderSnapshot is invalid or mismatched'' @
     reason_if (prov_state (etc_provider c) \<noteq> ProviderReady) ''PROVIDER_NOT_READY''
       ''candidate Provider is not ready'' @
     reason_if (snap_sampled_at_unix_ms (etc_provider_snapshot c) > epr_now_unix_ms q \<or>
         snap_expires_at_unix_ms (etc_provider_snapshot c) \<le> epr_now_unix_ms q)
       ''PROVIDER_SNAPSHOT_STALE'' ''candidate ProviderSnapshot is not current at placement time''"

definition is_transfer :: "artifact_placement_quote \<Rightarrow> bool" where
  "is_transfer t \<longleftrightarrow> (case apq_availability t of AuthorizedTransfer _ \<Rightarrow> True | VerifiedLocal _ \<Rightarrow> False)"

definition validate_placement_capabilities ::
    "execution_placement_request \<Rightarrow> execution_target_candidate \<Rightarrow> placement_reason list" where
  "validate_placement_capabilities q c =
     (let transfer = list_ex is_transfer (etc_artifact_quotes c);
          execution = find (\<lambda>x. cap_id x = EXECUTION_CAPABILITY_ID) (etc_capabilities c);
          lacks = (\<lambda>property. Option.bind execution (\<lambda>x. map_of (cap_properties x) property) \<noteq> Some ''true'');
          behaviour = (\<lambda>required property. reason_if (required \<and> lacks property)
            ''EXECUTION_BEHAVIOR_UNSATISFIED'' (''candidate execution Capability lacks required '' @ property))
      in
        reason_if (\<not> is_ok (each_unique (\<lambda>x. map_err map_contract_error (Capability_validate x)) cap_id
              (fab_err [] []) [] (etc_capabilities c)))
          ''CAPABILITY_OBSERVATION_INVALID''
          ''candidate capabilities need unique identities, non-zero revisions, and non-empty properties'' @
        reason_if (\<not> is_ok (validate_execution_capability (etc_capabilities c) (etc_attachment c)
              (etc_persistent c) (etc_restart_capability c)))
          ''EXECUTION_CAPABILITY_INVALID''
          ''typed lifecycle facts disagree with the canonical execution Capability'' @
        reason_if (\<not> list_all (\<lambda>r. list_ex (CapabilityRequirement_matches r) (etc_capabilities c))
              (epr_capability_requirements q))
          ''CAPABILITY_REQUIREMENTS_UNSATISFIED''
          ''candidate does not satisfy every canonical Capability requirement'' @
        behaviour (epr_checkpoint_resume q) ''checkpoint_resume'' @
        behaviour (nr_outbound_https (epr_network q) \<or> transfer) ''outbound_https'' @
        behaviour (nr_inbound_available (epr_network q)) ''inbound_available'' @
        behaviour (nr_peer_transfer (epr_network q) \<or> transfer) ''peer_transfer'' @
        reason_if (transfer \<and> \<not> list_ex (\<lambda>x. cap_id x = ARTIFACT_TRANSFER_CAPABILITY_ID \<and> 1 \<le> cap_revision x \<and>
              list_all (\<lambda>property. map_of (cap_properties x) property = Some ''true'')
                [''https_range'', ''multipart'', ''resume'', ''peer_transfer'']) (etc_capabilities c))
          ''ARTIFACT_TRANSFER_CAPABILITY_UNSATISFIED''
          ''remote Artifact placement requires the canonical HTTPS range transfer Capability'')"

definition policy_facts_match ::
    "placement_policy \<Rightarrow> string \<Rightarrow> string \<Rightarrow> string btree_set \<Rightarrow> string btree_set \<Rightarrow> bool" where
  "policy_facts_match p residency trust_domain classifications policy_tags \<longleftrightarrow>
     (pp_allowed_residencies p = [] \<or> residency \<in> set (pp_allowed_residencies p)) \<and>
     (case pp_required_trust_domain p of None \<Rightarrow> True | Some required \<Rightarrow> required = trust_domain) \<and>
     set (pp_required_classifications p) \<subseteq> set classifications \<and>
     set (pp_required_policy_tags p) \<subseteq> set policy_tags"

definition validate_policy ::
    "execution_placement_request \<Rightarrow> execution_target_candidate \<Rightarrow> placement_reason list" where
  "validate_policy q c =
     reason_if (\<not> policy_facts_match (epr_policy q) (etc_residency c) (etc_trust_domain c)
         (etc_classifications c) (etc_policy_tags c))
       ''EXECUTION_POLICY_DENIED'' ''candidate execution policy facts do not satisfy the request'' @
     reason_if (epr_artifacts q \<noteq> [] \<and> (etc_artifact_destination_peer_id c = [] \<or>
         etc_artifact_destination_peer_id c = node_id (etc_node c)))
       ''ARTIFACT_DESTINATION_INVALID''
       ''Artifact destination Peer must be explicit and distinct from Node identity''"

definition match_resources :: "resource_query \<Rightarrow> provider_snapshot \<Rightarrow> resource_match_evidence option" where
  "match_resources query snapshot =
     (let matched = sort (map res_identity
            (filter (\<lambda>r. res_state r = ResourceReady \<and> ResourceQuery_matches query r) (snap_resources snapshot)))
      in if length matched < unat (rq_count query) then None
         else Some \<lparr>rme_provider = snap_provider snapshot,
                    rme_snapshot_generation = snap_snapshot_generation snapshot,
                    rme_matched_resources = matched, rme_required_count = rq_count query\<rparr>)"

section \<open>Artifact quotes\<close>

record quote_index =
  qi_quotes_by_digest :: "(string, artifact_placement_quote) btree_map"
  qi_quote_ids :: "string btree_set"
  qi_reasons :: "placement_reason list"

definition index_quote :: "artifact_placement_quote \<Rightarrow> quote_index \<Rightarrow> quote_index" where
  "index_quote quote x =
     (let digest = ar_digest (apq_artifact quote) in
      \<lparr>qi_quotes_by_digest = bm_insert digest quote (qi_quotes_by_digest x),
       qi_quote_ids =
         (if apq_quote_id quote = [] then qi_quote_ids x else bs_insert (apq_quote_id quote) (qi_quote_ids x)),
       qi_reasons = qi_reasons x @
         reason_if (apq_quote_id quote = [] \<or> apq_quote_id quote \<in> set (qi_quote_ids x))
           ''ARTIFACT_QUOTE_IDENTITY_INVALID'' ''Artifact placement quotes require unique non-empty identities'' @
         reason_if (bm_contains (qi_quotes_by_digest x) digest)
           ''ARTIFACT_QUOTE_DUPLICATE'' ''candidate contains duplicate quotes for one Artifact''\<rparr>)"

record artifact_score =
  as_local_bytes :: u64
  as_transfer_bytes :: u64
  as_estimated_transfer_millis :: u64
  as_cost_microunits :: u64
  as_source_count :: u32
  as_has_local_artifacts :: bool
  as_local_valid_until_unix_ms :: u64
  as_transfer_valid_until_unix_ms :: u64

definition score_start :: artifact_score where
  "score_start =
     \<lparr>as_local_bytes = 0, as_transfer_bytes = 0, as_estimated_transfer_millis = 0, as_cost_microunits = 0,
      as_source_count = 0, as_has_local_artifacts = False, as_local_valid_until_unix_ms = - 1,
      as_transfer_valid_until_unix_ms = - 1\<rparr>"

definition score_local ::
    "artifact_ref \<Rightarrow> artifact_placement_quote \<Rightarrow> u64 \<Rightarrow> artifact_score \<Rightarrow> placement_reason list \<times> artifact_score" where
  "score_local artifact quote inventory_generation s =
     (if inventory_generation = 0
      then (reason_if True ''ARTIFACT_LOCALITY_EVIDENCE_INVALID''
              ''local Artifact evidence requires an inventory generation'', s)
      else case checked_add (as_local_bytes s) (ar_size_bytes artifact) of
        Some value \<Rightarrow>
          ([], s\<lparr>as_local_bytes := value, as_has_local_artifacts := True,
                 as_local_valid_until_unix_ms :=
                   min (as_local_valid_until_unix_ms s) (apq_valid_until_unix_ms quote)\<rparr>)
      | None \<Rightarrow> (reason_if True ''ARTIFACT_ESTIMATE_OVERFLOW'' ''local Artifact byte count overflowed'', s))"

definition score_transfer ::
    "artifact_ref \<Rightarrow> artifact_placement_quote \<Rightarrow> artifact_transfer_quote \<Rightarrow> artifact_score \<Rightarrow>
     placement_reason list \<times> artifact_score" where
  "score_transfer artifact quote t s =
     (if atq_bytes_to_transfer t \<noteq> ar_size_bytes artifact \<or> atq_source_count t = 0
      then (reason_if True ''ARTIFACT_TRANSFER_QUOTE_INVALID''
              ''Artifact transfer quote must cover the Artifact and use at least one source'', s)
      else case checked_add (as_estimated_transfer_millis s) (atq_estimated_transfer_millis t) of
        None \<Rightarrow> (reason_if True ''ARTIFACT_ESTIMATE_OVERFLOW'' ''aggregate Artifact transfer time overflowed'', s)
      | Some millis \<Rightarrow>
          if atq_authorization_valid_until_unix_ms t < apq_valid_until_unix_ms quote
          then (reason_if True ''ARTIFACT_TRANSFER_AUTHORITY_EXPIRES''
                  ''Artifact quote validity exceeds its underlying transfer authorization'', s)
          else case (checked_add (as_transfer_bytes s) (atq_bytes_to_transfer t),
                     checked_add (as_cost_microunits s) (atq_cost_microunits t),
                     checked_add (as_source_count s) (atq_source_count t)) of
            (Some bytes, Some cost, Some sources) \<Rightarrow>
              ([], s\<lparr>as_transfer_bytes := bytes, as_estimated_transfer_millis := millis,
                     as_cost_microunits := cost, as_source_count := sources,
                     as_transfer_valid_until_unix_ms :=
                       min (min (as_transfer_valid_until_unix_ms s) (apq_valid_until_unix_ms quote))
                         (atq_authorization_valid_until_unix_ms t)\<rparr>)
          | _ \<Rightarrow> (reason_if True ''ARTIFACT_ESTIMATE_OVERFLOW'' ''aggregate Artifact transfer quote overflowed'', s))"

definition score_artifact ::
    "execution_placement_request \<Rightarrow> execution_target_candidate \<Rightarrow>
     (string, artifact_placement_quote) btree_map \<Rightarrow> artifact_ref \<Rightarrow>
     placement_reason list \<times> artifact_score \<Rightarrow> placement_reason list \<times> artifact_score" where
  "score_artifact q c quotes artifact rs =
     (let (reasons, s) = rs;
          (added, s') =
            (case map_of quotes (ar_digest artifact) of
               None \<Rightarrow> (reason_if True ''ARTIFACT_QUOTE_MISSING''
                         (''candidate lacks an Artifact Plane quote for '' @ ar_digest artifact), s)
             | Some quote \<Rightarrow>
                 if apq_artifact quote \<noteq> artifact
                 then (reason_if True ''ARTIFACT_IDENTITY_MISMATCH''
                         ''Artifact Plane quote disagrees with the requested identity'', s)
                 else if apq_destination_peer_id quote \<noteq> etc_artifact_destination_peer_id c \<or>
                         apq_policy_scope quote \<noteq> epr_artifact_policy_scope q
                 then (reason_if True ''ARTIFACT_QUOTE_SCOPE_MISMATCH''
                         ''Artifact quote destination or policy scope does not match placement'', s)
                 else if apq_observed_at_unix_ms quote = 0 \<or> epr_now_unix_ms q < apq_observed_at_unix_ms quote \<or>
                         apq_valid_until_unix_ms quote \<le> epr_now_unix_ms q
                 then (reason_if True ''ARTIFACT_QUOTE_STALE'' ''Artifact quote is not current at placement time'', s)
                 else case apq_availability quote of
                   VerifiedLocal inventory_generation \<Rightarrow> score_local artifact quote inventory_generation s
                 | AuthorizedTransfer t \<Rightarrow> score_transfer artifact quote t s)
      in (reasons @ added, s'))"

definition readiness_reasons :: "u64 option \<Rightarrow> artifact_score \<Rightarrow> placement_reason list" where
  "readiness_reasons ready s =
     (case ready of
        None \<Rightarrow> reason_if (as_has_local_artifacts s \<or> 0 < as_source_count s)
                  ''ARTIFACT_ESTIMATE_OVERFLOW'' ''Artifact readiness time overflowed''
      | Some ready \<Rightarrow>
          reason_if (as_has_local_artifacts s \<and> as_local_valid_until_unix_ms s \<le> ready)
            ''ARTIFACT_LOCALITY_EVIDENCE_EXPIRES''
            ''local Artifact inventory evidence expires before the candidate is ready'' @
          reason_if (0 < as_source_count s \<and> as_transfer_valid_until_unix_ms s \<le> ready)
            ''ARTIFACT_TRANSFER_AUTHORITY_EXPIRES''
            ''Artifact authorization or quote expires before all transfers can complete'')"

definition evaluate_artifacts ::
    "execution_placement_request \<Rightarrow> execution_target_candidate \<Rightarrow> placement_reason list \<times> artifact_score" where
  "evaluate_artifacts q c =
     (let x = fold index_quote (etc_artifact_quotes c)
            \<lparr>qi_quotes_by_digest = [], qi_quote_ids = [], qi_reasons = []\<rparr>;
          reasons = qi_reasons x @
            reason_if (length (qi_quotes_by_digest x) \<noteq> length (epr_artifacts q)) ''ARTIFACT_QUOTE_SET_MISMATCH''
              ''candidate Artifact quote set does not exactly match the request'';
          (reasons, s) = fold (score_artifact q c (qi_quotes_by_digest x)) (epr_artifacts q) (reasons, score_start);
          ready = checked_add (max (epr_now_unix_ms q) (etc_available_at_unix_ms c)) (as_estimated_transfer_millis s)
      in (reasons @ readiness_reasons ready s, s))"

section \<open>The evaluation and the choice\<close>

definition evaluate_candidate ::
    "execution_placement_request \<Rightarrow> execution_target_candidate \<Rightarrow> candidate_evaluation" where
  "evaluate_candidate q c =
     (let resource_match = match_resources (epr_resource_query q) (etc_provider_snapshot c);
          (artifact_reasons, s) = evaluate_artifacts q c;
          total_cost = checked_add (etc_execution_cost_microunits c) (as_cost_microunits s);
          ready = checked_add (max (epr_now_unix_ms q) (etc_available_at_unix_ms c)) (as_estimated_transfer_millis s);
          reasons =
            validate_candidate_identity q c @ validate_placement_capabilities q c @ validate_policy q c @
            reason_if (resource_match = None) ''RESOURCE_REQUIREMENTS_UNSATISFIED''
              ''ProviderSnapshot lacks enough distinct ready Resources for the canonical ResourceQuery'' @
            artifact_reasons @
            reason_if (total_cost = None) ''PLACEMENT_COST_OVERFLOW''
              ''execution and Artifact transfer cost overflowed'' @
            (case (pp_maximum_total_cost_microunits (epr_policy q), total_cost) of
               (Some maximum, Some cost) \<Rightarrow>
                 reason_if (maximum < cost) ''PLACEMENT_COST_EXCEEDED''
                   (''estimated cost '' @ show_u64 cost @ '' exceeds policy maximum '' @ show_u64 maximum)
             | _ \<Rightarrow> []) @
            reason_if (ready = None) ''PLACEMENT_TIME_OVERFLOW''
              ''candidate availability and Artifact transfer time overflowed'' @
            (case (epr_latest_start_unix_ms q, ready) of
               (Some latest, Some estimated_ready) \<Rightarrow>
                 reason_if (latest < estimated_ready) ''START_DEADLINE_UNSATISFIED''
                   (''estimated ready time '' @ show_u64 estimated_ready @ '' exceeds latest start time '' @
                    show_u64 latest)
             | _ \<Rightarrow> []);
          score =
            (if reasons \<noteq> [] then None
             else case (total_cost, ready) of
               (Some cost, Some estimated_ready) \<Rightarrow>
                 Some \<lparr>ps_local_artifact_bytes = as_local_bytes s, ps_transfer_bytes = as_transfer_bytes s,
                       ps_estimated_transfer_millis = as_estimated_transfer_millis s,
                       ps_total_cost_microunits = cost, ps_estimated_ready_at_unix_ms = estimated_ready,
                       ps_reliability_score = etc_reliability_score c\<rparr>
             | _ \<Rightarrow> None)
      in \<lparr>cev_node = etc_node c, cev_eligible = (score \<noteq> None), cev_reasons = reasons,
          cev_resource_match = resource_match, cev_score = score\<rparr>)"

datatype ordering = OLess | OEqual | OGreater

definition cmp :: "'a::linorder \<Rightarrow> 'a \<Rightarrow> ordering" where
  "cmp a b = (if a < b then OLess else if a = b then OEqual else OGreater)"

definition then_with :: "ordering \<Rightarrow> ordering \<Rightarrow> ordering" where
  "then_with o1 o2 = (if o1 = OEqual then o2 else o1)"

definition compare_nodes :: "node_ref \<Rightarrow> node_ref \<Rightarrow> ordering" where
  "compare_nodes m n = then_with (cmp (node_id m) (node_id n)) (cmp (node_epoch m) (node_epoch n))"

definition compare_evaluations :: "candidate_evaluation \<Rightarrow> candidate_evaluation \<Rightarrow> ordering" where
  "compare_evaluations left right =
     (case (cev_score left, cev_score right) of
        (Some l, Some r) \<Rightarrow>
          then_with (cmp (ps_local_artifact_bytes r) (ps_local_artifact_bytes l))
         (then_with (cmp (ps_estimated_transfer_millis l) (ps_estimated_transfer_millis r))
         (then_with (cmp (ps_transfer_bytes l) (ps_transfer_bytes r))
         (then_with (cmp (ps_total_cost_microunits l) (ps_total_cost_microunits r))
         (then_with (cmp (ps_estimated_ready_at_unix_ms l) (ps_estimated_ready_at_unix_ms r))
         (then_with (cmp (ps_reliability_score r) (ps_reliability_score l))
           (compare_nodes (cev_node left) (cev_node right)))))))
      | (Some _, None) \<Rightarrow> OLess
      | (None, Some _) \<Rightarrow> OGreater
      | (None, None) \<Rightarrow> compare_nodes (cev_node left) (cev_node right))"

text \<open>\<open>slice::sort_by\<close>: the stable sort with a comparison function.\<close>

fun insert_by :: "('a \<Rightarrow> 'a \<Rightarrow> ordering) \<Rightarrow> 'a \<Rightarrow> 'a list \<Rightarrow> 'a list" where
  "insert_by f x [] = [x]"
| "insert_by f x (y # ys) = (if f x y = OGreater then y # insert_by f x ys else x # y # ys)"

definition sort_by :: "('a \<Rightarrow> 'a \<Rightarrow> ordering) \<Rightarrow> 'a list \<Rightarrow> 'a list" where
  "sort_by f xs = foldr (insert_by f) xs []"

definition plan_execution_placement ::
    "execution_placement_request \<Rightarrow> execution_target_candidate list \<Rightarrow> fabric_contract_error + placement_decision" where
  "plan_execution_placement q candidates =
     bind_res (validate_request q) (\<lambda>_.
     bind_res (each_unique (\<lambda>_. Inr ()) (\<lambda>c. (node_id (etc_node c), node_epoch (etc_node c)))
       (fab_err ''EXECUTION_TARGET_DUPLICATE'' ''candidate set contains a duplicate NodeRef'') [] candidates) (\<lambda>_.
     let evaluations = sort_by compare_evaluations (map (evaluate_candidate q) candidates) in
     Inr \<lparr>pd_selected_node = map_option cev_node (find cev_eligible evaluations), pd_evaluations = evaluations\<rparr>))"

definition place_execution_target ::
    "execution_placement_request \<Rightarrow> execution_target_candidate list \<Rightarrow>
     fabric_contract_error + execution_target_candidate" where
  "place_execution_target q candidates =
     bind_res (plan_execution_placement q candidates) (\<lambda>decision.
     bind_res (ok_or (pd_selected_node decision)
       (fab_err ''WAITING_FOR_EXECUTION_TARGET''
          ''no target satisfies the canonical resource, policy, lifecycle, and Artifact constraints'')) (\<lambda>selected.
     ok_or (find (\<lambda>c. etc_node c = selected) candidates)
       (fab_err ''PLACEMENT_DECISION_INVALID''
          ''selected Node is absent from the evaluated candidate set'')))"

section \<open>Sorting with a comparison\<close>

text \<open>What \<open>sort_by\<close> requires of its comparison: a total order on classes of equal elements.\<close>

locale comparison =
  fixes f :: "'a \<Rightarrow> 'a \<Rightarrow> ordering"
  assumes flip: "f x y = OGreater \<longleftrightarrow> f y x = OLess"
    and le_trans: "f x y \<noteq> OGreater \<Longrightarrow> f y z \<noteq> OGreater \<Longrightarrow> f x z \<noteq> OGreater"
begin

abbreviation le :: "'a \<Rightarrow> 'a \<Rightarrow> bool" where
  "le x y \<equiv> f x y \<noteq> OGreater"

lemma le_total: "\<not> le x y \<Longrightarrow> le y x"
  using flip by (metis ordering.distinct(3))

lemma mset_insert_by: "mset (insert_by f x xs) = add_mset x (mset xs)"
  by (induction xs) auto

lemma mset_sort_by: "mset (sort_by f xs) = mset xs"
  by (induction xs) (auto simp: sort_by_def mset_insert_by)

lemma set_sort_by: "set (sort_by f xs) = set xs"
  using mset_sort_by by (metis set_mset_mset)

lemma sorted_insert_by: "sorted_wrt le xs \<Longrightarrow> sorted_wrt le (insert_by f x xs)"
proof (induction xs)
  case (Cons y ys)
  have members: "set (insert_by f x ys) = insert x (set ys)"
    using mset_insert_by by (metis set_mset_add_mset_insert set_mset_mset)
  show ?case
  proof (cases "le x y")
    case True
    then show ?thesis using Cons.prems le_trans by fastforce
  next
    case False
    then show ?thesis using Cons le_total [OF False] members by auto
  qed
qed simp

lemma sorted_sort_by: "sorted_wrt le (sort_by f xs)"
  by (induction xs) (auto simp: sort_by_def sorted_insert_by)

lemma find_sort_by:
  "(find P (sort_by f xs) = None \<longleftrightarrow> (\<forall>x\<in>set xs. \<not> P x)) \<and>
   (find P (sort_by f xs) = Some x \<longrightarrow> x \<in> set xs \<and> P x \<and> (\<forall>y\<in>set xs. P y \<longrightarrow> le x y))"
proof -
  have "x \<in> set ys \<and> P x \<and> (\<forall>y\<in>set ys. P y \<longrightarrow> y = x \<or> le x y)"
    if "find P ys = Some x" "sorted_wrt le ys" for ys
    using that by (induction ys) (auto split: if_splits)
  moreover have "le x x" using flip by (metis ordering.distinct(3))
  ultimately show ?thesis
    using sorted_sort_by [of xs] by (metis find_None_iff set_sort_by)
qed

lemma sorted_unique:
  "sorted_wrt le xs \<Longrightarrow> sorted_wrt le ys \<Longrightarrow> mset xs = mset ys \<Longrightarrow>
     \<forall>x\<in>set xs. \<forall>y\<in>set xs. f x y = OEqual \<longrightarrow> x = y \<Longrightarrow> xs = ys"
proof (induction xs arbitrary: ys)
  case (Cons x xs)
  then obtain y zs where ys: "ys = y # zs" by (cases ys) auto
  have same: "insert x (set xs) = insert y (set zs)"
    using Cons.prems(3) by (metis list.simps(15) set_mset_mset ys)
  have "f x y = OEqual \<or> x = y"
    using Cons.prems(1,2) same flip [of x y] flip [of y x] by (auto simp: ys) (metis insertI1 insertE ordering.exhaust)+
  then have "x = y" using Cons.prems(4) same by auto
  then show ?case using Cons by (simp add: ys)
qed simp

lemma sort_by_permutation:
  "mset xs = mset ys \<Longrightarrow> \<forall>x\<in>set xs. \<forall>y\<in>set xs. f x y = OEqual \<longrightarrow> x = y \<Longrightarrow> sort_by f xs = sort_by f ys"
  using sorted_unique [of "sort_by f xs" "sort_by f ys"] by (simp add: sorted_sort_by mset_sort_by set_sort_by)

end

text \<open>The comparison of evaluations is the lexicographic order of one key.\<close>

definition evaluation_key ::
    "candidate_evaluation \<Rightarrow> nat \<times> int \<times> int \<times> int \<times> int \<times> int \<times> int \<times> string \<times> int" where
  "evaluation_key e =
     (case cev_score e of
        Some s \<Rightarrow>
          (0, - uint (ps_local_artifact_bytes s), uint (ps_estimated_transfer_millis s), uint (ps_transfer_bytes s),
           uint (ps_total_cost_microunits s), uint (ps_estimated_ready_at_unix_ms s),
           - uint (ps_reliability_score s), node_id (cev_node e), uint (node_epoch (cev_node e)))
      | None \<Rightarrow> (1, 0, 0, 0, 0, 0, 0, node_id (cev_node e), uint (node_epoch (cev_node e))))"

lemma cmp_pair: "cmp (a, b) (c, d) = then_with (cmp a c) (cmp b d)"
  by (auto simp: cmp_def then_with_def)

lemma cmp_uint: "cmp (uint a) (uint b) = cmp a b" "cmp (- uint a) (- uint b) = cmp b a"
  by (auto simp: cmp_def word_less_def word_uint_eq_iff)

lemma cmp_refl [simp]: "cmp a a = OEqual"
  by (simp add: cmp_def)

lemma then_with_simps [simp]: "then_with OEqual x = x" "then_with OLess x = OLess" "then_with OGreater x = OGreater"
  by (simp_all add: then_with_def)

lemma compare_evaluations_key:
  "compare_evaluations l r = cmp (evaluation_key l) (evaluation_key r)"
proof -
  have "cmp (0::nat) 1 = OLess" "cmp (1::nat) 0 = OGreater" by (simp_all add: cmp_def)
  then show ?thesis
    by (simp add: compare_evaluations_def evaluation_key_def compare_nodes_def cmp_pair cmp_uint
        split: option.split)
qed

lemma cmp_flip: "cmp a b = OGreater \<longleftrightarrow> cmp b a = OLess"
  by (auto simp: cmp_def)

lemma cmp_not_greater: "cmp a b \<noteq> OGreater \<longleftrightarrow> a \<le> b"
  by (auto simp: cmp_def)

lemma cmp_equal: "cmp a b = OEqual \<longleftrightarrow> a = b"
  by (auto simp: cmp_def)

interpretation placing: comparison compare_evaluations
  unfolding comparison_def compare_evaluations_key cmp_not_greater using cmp_flip order_trans by blast

section \<open>The selected node\<close>

lemma evaluated_node [simp]: "cev_node (evaluate_candidate q c) = etc_node c"
  by (simp add: evaluate_candidate_def Let_def split: prod.split)

lemma eligible_score: "cev_eligible (evaluate_candidate q c) \<longleftrightarrow> cev_score (evaluate_candidate q c) \<noteq> None"
  by (simp add: evaluate_candidate_def Let_def split: prod.split)

lemma evaluation_key_node: "evaluation_key e = evaluation_key e' \<Longrightarrow> cev_node e = cev_node e'"
  by (cases "cev_node e"; cases "cev_node e'")
    (auto simp: evaluation_key_def word_uint_eq_iff split: option.splits)

lemma plan_Inr:
  "plan_execution_placement q cs = Inr d \<longleftrightarrow>
     validate_request q = Inr () \<and> distinct (map etc_node cs) \<and>
     d = \<lparr>pd_selected_node =
            map_option cev_node (find cev_eligible (sort_by compare_evaluations (map (evaluate_candidate q) cs))),
          pd_evaluations = sort_by compare_evaluations (map (evaluate_candidate q) cs)\<rparr>"
proof -
  have "inj_on (\<lambda>n. (node_id n, node_epoch n)) (set (map etc_node cs))"
    by (auto intro!: inj_onI node_ref.equality)
  then have "distinct (map (\<lambda>c. (node_id (etc_node c), node_epoch (etc_node c))) cs) \<longleftrightarrow> distinct (map etc_node cs)"
    using distinct_map [of "\<lambda>n. (node_id n, node_epoch n)" "map etc_node cs"] by (simp add: o_def)
  then show ?thesis by (auto simp: plan_execution_placement_def bind_res_Inr Let_def)
qed

lemma candidate_of_node:
  "distinct (map etc_node cs) \<Longrightarrow> c \<in> set cs \<Longrightarrow> c' \<in> set cs \<Longrightarrow> etc_node c = etc_node c' \<Longrightarrow> c = c'"
  by (auto simp: distinct_map inj_on_def)

lemma find_candidate:
  assumes "distinct (map etc_node cs)" and "c \<in> set cs"
  shows "find (\<lambda>x. etc_node x = etc_node c) cs = Some c"
proof (cases "find (\<lambda>x. etc_node x = etc_node c) cs")
  case None
  then show ?thesis using assms(2) by (auto simp: find_None_iff)
next
  case (Some x)
  then have "x \<in> set cs" "etc_node x = etc_node c" by (auto simp: find_Some_iff)
  then show ?thesis using Some candidate_of_node [OF assms(1), of x c] assms(2) by simp
qed

lemma equal_keys_same_candidate:
  assumes "distinct (map etc_node cs)" and "c \<in> set cs" and "c' \<in> set cs"
    and "evaluation_key (evaluate_candidate q c) = evaluation_key (evaluate_candidate q c')"
  shows "c = c'"
proof (rule candidate_of_node [OF assms(1-3)])
  show "etc_node c = etc_node c'" using evaluation_key_node [OF assms(4)] by simp
qed

lemma selected_candidate:
  assumes "plan_execution_placement q cs = Inr d" and "pd_selected_node d = Some n"
  obtains c where "c \<in> set cs" "etc_node c = n" "cev_eligible (evaluate_candidate q c)"
    "place_execution_target q cs = Inr c"
    "\<And>c'. c' \<in> set cs \<Longrightarrow> cev_eligible (evaluate_candidate q c') \<Longrightarrow> c' = c \<or>
       evaluation_key (evaluate_candidate q c) < evaluation_key (evaluate_candidate q c')"
proof -
  let ?es = "map (evaluate_candidate q) cs" and ?eval = "evaluate_candidate q"
  have dist: "distinct (map etc_node cs)"
    and sel: "pd_selected_node d = map_option cev_node (find cev_eligible (sort_by compare_evaluations ?es))"
    using assms(1) by (simp_all add: plan_Inr)
  obtain e where e: "find cev_eligible (sort_by compare_evaluations ?es) = Some e" "cev_node e = n"
    using assms(2) sel by auto
  have least: "e \<in> set ?es \<and> cev_eligible e \<and> (\<forall>y\<in>set ?es. cev_eligible y \<longrightarrow> evaluation_key e \<le> evaluation_key y)"
    using placing.find_sort_by [of cev_eligible ?es e] e(1) unfolding compare_evaluations_key cmp_not_greater by blast
  then obtain c where c: "c \<in> set cs" "e = ?eval c" by auto
  have n: "etc_node c = n" using e(2) c(2) by simp
  have "place_execution_target q cs = Inr c"
    using assms find_candidate [OF dist c(1)] by (simp add: place_execution_target_def n)
  moreover have "c' = c \<or> evaluation_key (?eval c) < evaluation_key (?eval c')"
    if "c' \<in> set cs" "cev_eligible (?eval c')" for c'
  proof (cases "evaluation_key (?eval c') = evaluation_key (?eval c)")
    case True
    then show ?thesis using equal_keys_same_candidate [OF dist that(1) c(1)] by blast
  next
    case False
    then show ?thesis using least that c(2) by (simp add: order.not_eq_order_implies_strict)
  qed
  ultimately show thesis using that c n least by blast
qed

lemma plan_permutation:
  assumes "plan_execution_placement q cs = Inr d" and "mset cs' = mset cs"
  shows "plan_execution_placement q cs' = Inr d"
proof -
  let ?eval = "evaluate_candidate q"
  have dist: "distinct (map etc_node cs)" using assms(1) by (simp add: plan_Inr)
  have dist': "distinct (map etc_node cs')" using dist assms(2) by (metis mset_eq_imp_distinct_iff mset_map)
  have "sort_by compare_evaluations (map ?eval cs') = sort_by compare_evaluations (map ?eval cs)"
  proof (rule placing.sort_by_permutation)
    show "mset (map ?eval cs') = mset (map ?eval cs)" using assms(2) by simp
    show "\<forall>x\<in>set (map ?eval cs'). \<forall>y\<in>set (map ?eval cs'). compare_evaluations x y = OEqual \<longrightarrow> x = y"
      using equal_keys_same_candidate [OF dist', of _ _ q] unfolding compare_evaluations_key cmp_equal by auto
  qed
  then show ?thesis using assms(1) dist' by (simp add: plan_Inr)
qed

end
