(* ===== verification/Placement_Properties.thy ===== *)
theory Placement_Properties
  imports Fabric_Placement
begin

text \<open>
  What eligibility means. The two loops over artifact quotes are followed with the reasons they add: a
  run that adds none has found, for every requested artifact, one current quote of the right identity,
  destination and scope, and its running totals are the exact sums of the quoted costs and times. An
  eligible candidate then satisfies the policy, the resource query, the cost limit and the deadline.
\<close>

section \<open>The index of quotes\<close>

lemma reason_if_Nil [simp]: "reason_if c code msg = [] \<longleftrightarrow> \<not> c"
  by (simp add: reason_if_def)

abbreviation quote_digest :: "artifact_placement_quote \<Rightarrow> string" where
  "quote_digest t \<equiv> ar_digest (apq_artifact t)"

lemma index_quote_step:
  "qi_reasons (index_quote t x) = [] \<Longrightarrow> qi_reasons x = []"
  "qi_reasons (index_quote t x) = [] \<Longrightarrow> map_of (qi_quotes_by_digest x) (quote_digest t) = None"
  "qi_quotes_by_digest (index_quote t x) = bm_insert (quote_digest t) t (qi_quotes_by_digest x)"
  by (simp_all add: index_quote_def Let_def bm_contains_iff map_of_eq_None_iff)

lemma index_quotes_reasons: "qi_reasons (fold index_quote ts x) = [] \<Longrightarrow> qi_reasons x = []"
proof (induction ts arbitrary: x)
  case (Cons t ts)
  have "qi_reasons (index_quote t x) = []" by (rule Cons.IH) (use Cons.prems in simp)
  then show ?case by (rule index_quote_step(1))
qed simp

lemma index_quotes:
  "qi_reasons (fold index_quote ts x) = [] \<Longrightarrow>
     map_of (qi_quotes_by_digest (fold index_quote ts x)) d = Some t \<longleftrightarrow>
     map_of (qi_quotes_by_digest x) d = Some t \<or> t \<in> set ts \<and> quote_digest t = d"
proof (induction ts arbitrary: x)
  case (Cons u ts)
  have "qi_reasons (index_quote u x) = []" by (rule index_quotes_reasons [of ts]) (use Cons.prems in simp)
  then have "map_of (qi_quotes_by_digest x) (quote_digest u) = None" by (rule index_quote_step(2))
  moreover have "map_of (qi_quotes_by_digest (fold index_quote (u # ts) x)) d = Some t \<longleftrightarrow>
      map_of (qi_quotes_by_digest (index_quote u x)) d = Some t \<or> t \<in> set ts \<and> quote_digest t = d"
    using Cons.IH [of "index_quote u x"] Cons.prems by (simp only: fold_simps)
  ultimately show ?case by (auto simp: index_quote_step(3) simp del: fold_simps)
qed simp

section \<open>The artifact totals\<close>

definition good_quote ::
    "execution_placement_request \<Rightarrow> execution_target_candidate \<Rightarrow> artifact_ref \<Rightarrow> artifact_placement_quote \<Rightarrow> bool" where
  "good_quote q c a t \<longleftrightarrow>
     apq_artifact t = a \<and> apq_destination_peer_id t = etc_artifact_destination_peer_id c \<and>
     apq_policy_scope t = epr_artifact_policy_scope q \<and> apq_observed_at_unix_ms t \<le> epr_now_unix_ms q"

definition quoted :: "(artifact_transfer_quote \<Rightarrow> u64) \<Rightarrow> artifact_placement_quote \<Rightarrow> nat" where
  "quoted f t = (case apq_availability t of VerifiedLocal _ \<Rightarrow> 0 | AuthorizedTransfer x \<Rightarrow> unat (f x))"

definition covered :: "artifact_placement_quote \<Rightarrow> artifact_score \<Rightarrow> bool" where
  "covered t s \<longleftrightarrow>
     (case apq_availability t of
        VerifiedLocal _ \<Rightarrow> as_has_local_artifacts s \<and> as_local_valid_until_unix_ms s \<le> apq_valid_until_unix_ms t
      | AuthorizedTransfer _ \<Rightarrow>
          0 < as_source_count s \<and> as_transfer_valid_until_unix_ms s \<le> apq_valid_until_unix_ms t)"

definition advances :: "artifact_score \<Rightarrow> artifact_score \<Rightarrow> bool" where
  "advances s s' \<longleftrightarrow>
     (as_has_local_artifacts s \<longrightarrow> as_has_local_artifacts s') \<and> as_source_count s \<le> as_source_count s' \<and>
     as_local_valid_until_unix_ms s' \<le> as_local_valid_until_unix_ms s \<and>
     as_transfer_valid_until_unix_ms s' \<le> as_transfer_valid_until_unix_ms s"

lemma advances_refl: "advances s s"
  by (simp add: advances_def)

lemma advances_trans: "advances s t \<Longrightarrow> advances t u \<Longrightarrow> advances s u"
  unfolding advances_def by (meson order_trans)

lemma covered_advances: "covered t s \<Longrightarrow> advances s s' \<Longrightarrow> covered t s'"
  unfolding covered_def advances_def
  by (cases "apq_availability t") (auto intro: order_trans order.strict_trans2)

text \<open>One artifact scored without a reason.\<close>

definition scored ::
    "execution_placement_request \<Rightarrow> execution_target_candidate \<Rightarrow> artifact_ref \<Rightarrow> artifact_placement_quote \<Rightarrow>
     artifact_score \<Rightarrow> artifact_score \<Rightarrow> bool" where
  "scored q c a t s s' \<longleftrightarrow>
     good_quote q c a t \<and> covered t s' \<and> advances s s' \<and>
     unat (as_cost_microunits s') = unat (as_cost_microunits s) + quoted atq_cost_microunits t \<and>
     unat (as_estimated_transfer_millis s') =
       unat (as_estimated_transfer_millis s) + quoted atq_estimated_transfer_millis t"

lemma checked_add_le: "checked_add a b = Some c \<Longrightarrow> a \<le> (c :: 'a::len word)"
  by (simp add: checked_add_Some word_le_nat_alt)

lemma checked_add_pos: "checked_add a b = Some c \<Longrightarrow> b \<noteq> 0 \<Longrightarrow> 0 < (c :: 'a::len word)"
  by (simp add: checked_add_Some word_less_nat_alt unat_gt_0)

lemma score_local_scored:
  assumes "apq_availability t = VerifiedLocal g" and "score_local a t g s = ([], s')" and "good_quote q c a t"
  shows "scored q c a t s s'"
  using assms
  by (auto simp: score_local_def scored_def covered_def advances_def quoted_def split: if_splits option.splits)

lemma score_transfer_scored:
  assumes "apq_availability t = AuthorizedTransfer x" and "score_transfer a t x s = ([], s')" and "good_quote q c a t"
  shows "scored q c a t s s'"
proof -
  obtain m b k n where
    n: "checked_add (as_estimated_transfer_millis s) (atq_estimated_transfer_millis x) = Some m"
      "checked_add (as_cost_microunits s) (atq_cost_microunits x) = Some k"
      "checked_add (as_source_count s) (atq_source_count x) = Some n" "atq_source_count x \<noteq> 0"
    and s': "s' = s\<lparr>as_transfer_bytes := b, as_estimated_transfer_millis := m, as_cost_microunits := k,
      as_source_count := n, as_transfer_valid_until_unix_ms :=
        min (min (as_transfer_valid_until_unix_ms s) (apq_valid_until_unix_ms t))
          (atq_authorization_valid_until_unix_ms x)\<rparr>"
    using assms(2) by (auto simp: score_transfer_def reason_if_def split: if_splits option.splits)
  show ?thesis
    using assms(1,3) n(1,2) checked_add_le [OF n(3)] checked_add_pos [OF n(3,4)]
    by (simp add: scored_def covered_def advances_def quoted_def s' checked_add_Some min_le_iff_disj)
qed

lemma score_artifact_scored:
  assumes "score_artifact q c quotes a (rs, s) = ([], s')"
  obtains t where "rs = []" "map_of quotes (ar_digest a) = Some t" "scored q c a t s s'"
proof (cases "map_of quotes (ar_digest a)")
  case None
  then show ?thesis using assms by (auto simp: score_artifact_def reason_if_def)
next
  case (Some t)
  show ?thesis
  proof (cases "apq_availability t")
    case (VerifiedLocal g)
    then have "rs = []" "good_quote q c a t" "score_local a t g s = ([], s')"
      using assms Some
      by (auto simp: score_artifact_def reason_if_def good_quote_def not_less split: if_splits prod.splits)
    then show ?thesis using that Some score_local_scored VerifiedLocal by blast
  next
    case (AuthorizedTransfer x)
    then have "rs = []" "good_quote q c a t" "score_transfer a t x s = ([], s')"
      using assms Some
      by (auto simp: score_artifact_def reason_if_def good_quote_def not_less split: if_splits prod.splits)
    then show ?thesis using that Some score_transfer_scored AuthorizedTransfer by blast
  qed
qed

lemma score_artifacts:
  "fold (score_artifact q c m) as (rs, s) = ([], s') \<Longrightarrow>
     rs = [] \<and> advances s s' \<and>
     (\<forall>a\<in>set as. \<exists>t. map_of m (ar_digest a) = Some t \<and> good_quote q c a t \<and> covered t s') \<and>
     unat (as_cost_microunits s') = unat (as_cost_microunits s) +
       sum_list (map (\<lambda>a. quoted atq_cost_microunits (the (map_of m (ar_digest a)))) as) \<and>
     unat (as_estimated_transfer_millis s') = unat (as_estimated_transfer_millis s) +
       sum_list (map (\<lambda>a. quoted atq_estimated_transfer_millis (the (map_of m (ar_digest a)))) as)"
proof (induction as arbitrary: rs s)
  case (Cons a as)
  obtain rs1 s1 where step: "score_artifact q c m a (rs, s) = (rs1, s1)"
    by (cases "score_artifact q c m a (rs, s)")
  then have rest: "fold (score_artifact q c m) as (rs1, s1) = ([], s')" using Cons.prems by simp
  note ih = Cons.IH [OF rest]
  then have "score_artifact q c m a (rs, s) = ([], s1)" using step by simp
  then obtain t where t: "rs = []" "map_of m (ar_digest a) = Some t" "scored q c a t s s1"
    by (rule score_artifact_scored)
  have "advances s1 s'" using ih by blast
  then show ?case
    using ih t covered_advances [of t s1 s'] advances_trans [of s s1 s'] by (auto simp: scored_def)
qed (simp add: advances_refl)

section \<open>Eligibility\<close>

definition quote_for :: "execution_target_candidate \<Rightarrow> artifact_ref \<Rightarrow> artifact_placement_quote option" where
  "quote_for c a = find (\<lambda>t. apq_artifact t = a) (etc_artifact_quotes c)"

definition quoted_total ::
    "execution_placement_request \<Rightarrow> execution_target_candidate \<Rightarrow> (artifact_transfer_quote \<Rightarrow> u64) \<Rightarrow> nat" where
  "quoted_total q c f =
     sum_list (map (\<lambda>a. case quote_for c a of None \<Rightarrow> 0 | Some t \<Rightarrow> quoted f t) (epr_artifacts q))"

definition ready_at :: "execution_placement_request \<Rightarrow> execution_target_candidate \<Rightarrow> nat" where
  "ready_at q c =
     max (unat (epr_now_unix_ms q)) (unat (etc_available_at_unix_ms c)) +
     quoted_total q c atq_estimated_transfer_millis"

lemma artifacts_evaluated:
  assumes "evaluate_artifacts q c = ([], s)"
  shows "\<forall>a\<in>set (epr_artifacts q). \<exists>t. quote_for c a = Some t \<and> t \<in> set (etc_artifact_quotes c) \<and>
      good_quote q c a t \<and> covered t s"
    and "unat (as_cost_microunits s) = quoted_total q c atq_cost_microunits"
    and "unat (as_estimated_transfer_millis s) = quoted_total q c atq_estimated_transfer_millis"
    and "readiness_reasons (checked_add (max (epr_now_unix_ms q) (etc_available_at_unix_ms c))
      (as_estimated_transfer_millis s)) s = []"
proof -
  let ?x = "fold index_quote (etc_artifact_quotes c) \<lparr>qi_quotes_by_digest = [], qi_quote_ids = [], qi_reasons = []\<rparr>"
  let ?m = "qi_quotes_by_digest ?x"
  define rs0 where "rs0 = qi_reasons ?x @ reason_if (length ?m \<noteq> length (epr_artifacts q)) ''ARTIFACT_QUOTE_SET_MISMATCH''
    ''candidate Artifact quote set does not exactly match the request''"
  obtain rs s' where run: "fold (score_artifact q c ?m) (epr_artifacts q) (rs0, score_start) = (rs, s')"
    by (cases "fold (score_artifact q c ?m) (epr_artifacts q) (rs0, score_start)")
  have ready: "rs @ readiness_reasons (checked_add (max (epr_now_unix_ms q) (etc_available_at_unix_ms c))
      (as_estimated_transfer_millis s')) s' = []" and s: "s' = s"
    using assms run by (auto simp: evaluate_artifacts_def rs0_def Let_def)
  then show "readiness_reasons (checked_add (max (epr_now_unix_ms q) (etc_available_at_unix_ms c))
      (as_estimated_transfer_millis s)) s = []" by simp
  have scored: "fold (score_artifact q c ?m) (epr_artifacts q) (rs0, score_start) = ([], s)" using run ready s by simp
  note all = score_artifacts [OF scored]
  then have "qi_reasons ?x = []" by (simp add: rs0_def)
  then have known: "map_of ?m d = Some t \<longleftrightarrow> t \<in> set (etc_artifact_quotes c) \<and> quote_digest t = d" for d t
    using index_quotes [of "etc_artifact_quotes c"] by simp
  have look: "quote_for c a = Some t" if "map_of ?m (ar_digest a) = Some t" "good_quote q c a t" for a t
  proof (cases "quote_for c a")
    case None
    then show ?thesis using that known by (auto simp: quote_for_def find_None_iff good_quote_def)
  next
    case (Some u)
    then have "map_of ?m (ar_digest a) = Some u" unfolding known by (auto simp: quote_for_def find_Some_iff)
    then show ?thesis using that(1) Some by simp
  qed
  show "\<forall>a\<in>set (epr_artifacts q). \<exists>t. quote_for c a = Some t \<and> t \<in> set (etc_artifact_quotes c) \<and>
      good_quote q c a t \<and> covered t s"
    using all look known by blast
  have sums: "sum_list (map (\<lambda>a. quoted f (the (map_of ?m (ar_digest a)))) (epr_artifacts q)) = quoted_total q c f" for f
    unfolding quoted_total_def
    by (rule arg_cong [where f = sum_list], rule map_cong [OF refl]) (use all look in fastforce)
  show "unat (as_cost_microunits s) = quoted_total q c atq_cost_microunits"
    and "unat (as_estimated_transfer_millis s) = quoted_total q c atq_estimated_transfer_millis"
    using all sums by (simp_all add: score_start_def)
qed

lemma eligible_cases:
  assumes "cev_eligible (evaluate_candidate q c)"
  obtains s m cost ready where
    "evaluate_artifacts q c = ([], s)"
    "match_resources (epr_resource_query q) (etc_provider_snapshot c) = Some m"
    "checked_add (etc_execution_cost_microunits c) (as_cost_microunits s) = Some cost"
    "checked_add (max (epr_now_unix_ms q) (etc_available_at_unix_ms c)) (as_estimated_transfer_millis s) = Some ready"
    "validate_candidate_identity q c = []" "validate_placement_capabilities q c = []" "validate_policy q c = []"
    "case pp_maximum_total_cost_microunits (epr_policy q) of None \<Rightarrow> True | Some maximum \<Rightarrow> cost \<le> maximum"
    "case epr_latest_start_unix_ms q of None \<Rightarrow> True | Some latest \<Rightarrow> ready \<le> latest"
    "cev_score (evaluate_candidate q c) =
       Some \<lparr>ps_local_artifact_bytes = as_local_bytes s, ps_transfer_bytes = as_transfer_bytes s,
             ps_estimated_transfer_millis = as_estimated_transfer_millis s,
             ps_total_cost_microunits = cost, ps_estimated_ready_at_unix_ms = ready,
             ps_reliability_score = etc_reliability_score c\<rparr>"
proof -
  obtain rs s where ev: "evaluate_artifacts q c = (rs, s)" by (cases "evaluate_artifacts q c")
  show ?thesis
  proof (rule that)
    show "evaluate_artifacts q c = ([], s)"
      using assms ev by (simp add: evaluate_candidate_def Let_def split: if_splits)
    show "match_resources (epr_resource_query q) (etc_provider_snapshot c) =
        Some (the (match_resources (epr_resource_query q) (etc_provider_snapshot c)))"
      using assms ev by (simp add: evaluate_candidate_def Let_def split: if_splits)
    show "checked_add (etc_execution_cost_microunits c) (as_cost_microunits s) =
        Some (the (checked_add (etc_execution_cost_microunits c) (as_cost_microunits s)))"
      and "checked_add (max (epr_now_unix_ms q) (etc_available_at_unix_ms c)) (as_estimated_transfer_millis s) =
        Some (the (checked_add (max (epr_now_unix_ms q) (etc_available_at_unix_ms c)) (as_estimated_transfer_millis s)))"
      using assms ev by (auto simp: evaluate_candidate_def Let_def split: if_splits)
  qed (use assms ev in \<open>auto simp: evaluate_candidate_def Let_def split: if_splits option.splits\<close>)
qed

lemma matched_resources:
  assumes "match_resources query snapshot = Some m"
  shows "unat (rq_count query) \<le> length (rme_matched_resources m)"
    and "set (rme_matched_resources m) =
      res_identity ` {r \<in> set (snap_resources snapshot). res_state r = ResourceReady \<and> ResourceQuery_matches query r}"
  using assms by (auto simp: match_resources_def Let_def split: if_splits)

lemma placed_target:
  assumes "place_execution_target q cs = Inr c"
  shows "c \<in> set cs" and "cev_eligible (evaluate_candidate q c)"
proof -
  obtain d n where d: "plan_execution_placement q cs = Inr d" "pd_selected_node d = Some n"
    using assms by (auto simp: place_execution_target_def bind_res_Inr)
  obtain c' where "c' \<in> set cs" "cev_eligible (evaluate_candidate q c')" "place_execution_target q cs = Inr c'"
    by (rule selected_candidate [OF d])
  then show "c \<in> set cs" and "cev_eligible (evaluate_candidate q c)" using assms by simp_all
qed

lemma covered_until_ready:
  assumes "covered t s" and "readiness_reasons (Some ready) s = []"
  shows "ready < apq_valid_until_unix_ms t"
  using assms
  by (cases "apq_availability t") (auto simp: covered_def readiness_reasons_def not_le intro: order.strict_trans2)

section \<open>What a request asks of a target\<close>

definition lifecycle_met :: "execution_placement_request \<Rightarrow> execution_target_candidate \<Rightarrow> bool" where
  "lifecycle_met q c \<longleftrightarrow>
     etc_lifecycle_state c = NodeOnline \<and> node_id (etc_node c) \<noteq> [] \<and> node_epoch (etc_node c) \<noteq> 0 \<and>
     etc_attachment c \<noteq> AttUnspecified \<and> etc_restart_capability c \<noteq> RcUnspecified \<and>
     (epr_allowed_attachments q \<noteq> [] \<longrightarrow> etc_attachment c \<in> set (epr_allowed_attachments q)) \<and>
     (\<forall>v. epr_persistent q = Some v \<longrightarrow> etc_persistent c = v) \<and>
     (\<forall>v. epr_restart_capability q = Some v \<longrightarrow> etc_restart_capability c = v)"

definition provider_current :: "execution_placement_request \<Rightarrow> execution_target_candidate \<Rightarrow> bool" where
  "provider_current q c \<longleftrightarrow>
     Provider_validate (etc_provider c) = Inr () \<and> prov_state (etc_provider c) = ProviderReady \<and>
     ProviderSnapshot_validate (etc_provider_snapshot c) = Inr () \<and>
     snap_provider (etc_provider_snapshot c) = prov_identity (etc_provider c) \<and>
     snap_sampled_at_unix_ms (etc_provider_snapshot c) \<le> epr_now_unix_ms q \<and>
     epr_now_unix_ms q < snap_expires_at_unix_ms (etc_provider_snapshot c)"

text \<open>The execution capability of a target grants a behaviour when its property is \<open>true\<close>.\<close>

definition behaves :: "execution_target_candidate \<Rightarrow> string \<Rightarrow> bool" where
  "behaves c property \<longleftrightarrow>
     (\<exists>x. find (\<lambda>x. cap_id x = EXECUTION_CAPABILITY_ID) (etc_capabilities c) = Some x \<and>
        map_of (cap_properties x) property = Some ''true'')"

definition capabilities_met :: "execution_placement_request \<Rightarrow> execution_target_candidate \<Rightarrow> bool" where
  "capabilities_met q c \<longleftrightarrow>
     (\<forall>r\<in>set (epr_capability_requirements q). \<exists>x\<in>set (etc_capabilities c). CapabilityRequirement_matches r x) \<and>
     validate_execution_capability (etc_capabilities c) (etc_attachment c) (etc_persistent c)
       (etc_restart_capability c) = Inr () \<and>
     (epr_checkpoint_resume q \<longrightarrow> behaves c ''checkpoint_resume'') \<and>
     (nr_outbound_https (epr_network q) \<longrightarrow> behaves c ''outbound_https'') \<and>
     (nr_inbound_available (epr_network q) \<longrightarrow> behaves c ''inbound_available'') \<and>
     (nr_peer_transfer (epr_network q) \<longrightarrow> behaves c ''peer_transfer'') \<and>
     ((\<exists>t\<in>set (etc_artifact_quotes c). is_transfer t) \<longrightarrow>
        behaves c ''outbound_https'' \<and> behaves c ''peer_transfer'' \<and>
        (\<exists>x\<in>set (etc_capabilities c). cap_id x = ARTIFACT_TRANSFER_CAPABILITY_ID \<and> 1 \<le> cap_revision x \<and>
           (\<forall>property\<in>{''https_range'', ''multipart'', ''resume'', ''peer_transfer''}.
              map_of (cap_properties x) property = Some ''true'')))"

lemma identity_met: "validate_candidate_identity q c = [] \<Longrightarrow> lifecycle_met q c \<and> provider_current q c"
  by (auto simp: validate_candidate_identity_def lifecycle_met_def provider_current_def is_ok_unit not_less not_le
      split: option.splits)

lemma lacks_iff:
  "Option.bind (find (\<lambda>x. cap_id x = EXECUTION_CAPABILITY_ID) (etc_capabilities c))
     (\<lambda>x. map_of (cap_properties x) property) = Some ''true'' \<longleftrightarrow> behaves c property"
  by (cases "find (\<lambda>x. cap_id x = EXECUTION_CAPABILITY_ID) (etc_capabilities c)") (simp_all add: behaves_def)

lemma placement_capabilities_met: "validate_placement_capabilities q c = [] \<Longrightarrow> capabilities_met q c"
  unfolding validate_placement_capabilities_def Let_def append_is_Nil_conv reason_if_Nil lacks_iff
  by (simp add: capabilities_met_def is_ok_unit list_all_iff list_ex_iff) blast

text \<open>C25. A target that placement returns satisfies every part of the request. It is one of the
  candidates; its node is identified and online, with an allowed attachment and the requested
  persistence and restart behaviour; its provider is valid and ready and its snapshot valid and
  current; it has a capability for every requirement, an execution capability that agrees with its
  lifecycle facts and grants the checkpoint and network behaviour asked for, and what remote artifacts
  need if a quote is a transfer; its policy facts are admitted; its snapshot holds at least the
  requested number of ready resources that match the query; every requested artifact has a quote of
  its own for this destination and scope that is still valid when the last transfer has finished; the
  execution cost plus all quoted transfer costs, summed without overflow, is within the policy's
  maximum; and the ready time, all quoted transfers included, is not after the latest start.\<close>

theorem placement_respects_request:
  assumes "place_execution_target q cs = Inr c"
  shows "c \<in> set cs \<and> lifecycle_met q c \<and> provider_current q c \<and> capabilities_met q c \<and>
    policy_facts_match (epr_policy q) (etc_residency c) (etc_trust_domain c) (etc_classifications c) (etc_policy_tags c) \<and>
    unat (rq_count (epr_resource_query q)) \<le>
      length (filter (\<lambda>r. res_state r = ResourceReady \<and> ResourceQuery_matches (epr_resource_query q) r)
        (snap_resources (etc_provider_snapshot c))) \<and>
    (\<forall>a\<in>set (epr_artifacts q). \<exists>t\<in>set (etc_artifact_quotes c).
       quote_for c a = Some t \<and> good_quote q c a t \<and> ready_at q c < unat (apq_valid_until_unix_ms t)) \<and>
    (\<forall>maximum. pp_maximum_total_cost_microunits (epr_policy q) = Some maximum \<longrightarrow>
       unat (etc_execution_cost_microunits c) + quoted_total q c atq_cost_microunits \<le> unat maximum) \<and>
    (\<forall>latest. epr_latest_start_unix_ms q = Some latest \<longrightarrow> ready_at q c \<le> unat latest)"
proof -
  obtain s m cost ready where e: "evaluate_artifacts q c = ([], s)"
    "match_resources (epr_resource_query q) (etc_provider_snapshot c) = Some m"
    "checked_add (etc_execution_cost_microunits c) (as_cost_microunits s) = Some cost"
    "checked_add (max (epr_now_unix_ms q) (etc_available_at_unix_ms c)) (as_estimated_transfer_millis s) = Some ready"
    "validate_candidate_identity q c = []" "validate_placement_capabilities q c = []" "validate_policy q c = []"
    "case pp_maximum_total_cost_microunits (epr_policy q) of None \<Rightarrow> True | Some maximum \<Rightarrow> cost \<le> maximum"
    "case epr_latest_start_unix_ms q of None \<Rightarrow> True | Some latest \<Rightarrow> ready \<le> latest"
    by (rule eligible_cases [OF placed_target(2) [OF assms]])
  note art = artifacts_evaluated [OF e(1)]
  have ready: "unat ready = ready_at q c"
    using e(4) art(3) by (simp add: ready_at_def checked_add_Some max_def word_le_nat_alt)
  have cost: "unat cost = unat (etc_execution_cost_microunits c) + quoted_total q c atq_cost_microunits"
    using e(3) art(2) by (simp add: checked_add_Some)
  have "ready_at q c < unat (apq_valid_until_unix_ms t)" if "covered t s" for t
    using covered_until_ready [OF that, of ready] art(4) e(4) by (simp add: word_less_nat_alt ready [symmetric])
  then have quotes: "\<forall>a\<in>set (epr_artifacts q). \<exists>t\<in>set (etc_artifact_quotes c).
      quote_for c a = Some t \<and> good_quote q c a t \<and> ready_at q c < unat (apq_valid_until_unix_ms t)"
    using art(1) by blast
  have resources: "unat (rq_count (epr_resource_query q)) \<le>
      length (filter (\<lambda>r. res_state r = ResourceReady \<and> ResourceQuery_matches (epr_resource_query q) r)
        (snap_resources (etc_provider_snapshot c)))"
    using e(2) by (simp add: match_resources_def Let_def split: if_splits)
  have limits: "\<forall>maximum. pp_maximum_total_cost_microunits (epr_policy q) = Some maximum \<longrightarrow>
       unat (etc_execution_cost_microunits c) + quoted_total q c atq_cost_microunits \<le> unat maximum"
    "\<forall>latest. epr_latest_start_unix_ms q = Some latest \<longrightarrow> ready_at q c \<le> unat latest"
    using e(8,9) cost ready by (auto simp: word_le_nat_alt)
  have "policy_facts_match (epr_policy q) (etc_residency c) (etc_trust_domain c) (etc_classifications c) (etc_policy_tags c)"
    using e(7) by (simp add: validate_policy_def)
  then show ?thesis
    using placed_target(1) [OF assms] identity_met [OF e(5)] placement_capabilities_met [OF e(6)] quotes resources limits
    by blast
qed

definition ex_artifact :: artifact_ref where
  "ex_artifact =
     \<lparr>ar_uri = artifact_uri (''sha256:'' @ replicate 64 CHR ''a''), ar_digest = ''sha256:'' @ replicate 64 CHR ''a'',
      ar_size_bytes = 7, ar_kind = ArtifactKind ''model'', ar_manifest_digest = None\<rparr>"

definition ex_placement :: execution_placement_request where
  "ex_placement =
     \<lparr>epr_capability_requirements = [],
      epr_resource_query = \<lparr>rq_class = ''gpu'', rq_count = 1, rq_required_capabilities = [], rq_minimum_capacity = []\<rparr>,
      epr_allowed_attachments = [], epr_persistent = None, epr_restart_capability = None, epr_checkpoint_resume = False,
      epr_network = \<lparr>nr_outbound_https = True, nr_inbound_available = False, nr_peer_transfer = False\<rparr>,
      epr_artifacts = [ex_artifact], epr_artifact_policy_scope = ''team'',
      epr_policy = \<lparr>pp_allowed_residencies = [''eu''], pp_required_trust_domain = Some ''lab'',
        pp_required_classifications = [], pp_required_policy_tags = [], pp_maximum_total_cost_microunits = Some 40\<rparr>,
      epr_latest_start_unix_ms = Some 130, epr_now_unix_ms = 100\<rparr>"

definition ex_candidate :: execution_target_candidate where
  "ex_candidate =
     (let p = Identity ''p1'' 1 in
      \<lparr>etc_node = \<lparr>node_id = ''n1'', node_epoch = 1\<rparr>, etc_lifecycle_state = NodeOnline,
       etc_attachment = ContainerAgent, etc_persistent = True, etc_restart_capability = HostSupervised,
       etc_capabilities = [execution_capability ContainerAgent True HostSupervised, artifact_transfer_capability],
       etc_provider = \<lparr>prov_identity = p, prov_state = ProviderReady, prov_capabilities = []\<rparr>,
       etc_provider_snapshot =
         \<lparr>snap_provider = p, snap_snapshot_generation = 1,
          snap_resources =
            [\<lparr>res_identity = Identity ''r1'' 1, res_provider = p, res_class = ''gpu'',
              res_capabilities = [], res_capacity = [], res_attributes = [], res_state = ResourceReady,
              res_reason_code = ''ready'', res_summary = ''ready'', res_links = []\<rparr>],
          snap_workers = [], snap_endpoints = [], snap_sampled_at_unix_ms = 90, snap_expires_at_unix_ms = 190\<rparr>,
       etc_residency = ''eu'', etc_trust_domain = ''lab'', etc_classifications = [], etc_policy_tags = [],
       etc_artifact_destination_peer_id = ''peer1'',
       etc_artifact_quotes =
         [\<lparr>apq_quote_id = ''q1'', apq_artifact = ex_artifact, apq_destination_peer_id = ''peer1'',
           apq_policy_scope = ''team'', apq_observed_at_unix_ms = 95, apq_valid_until_unix_ms = 180,
           apq_availability = AuthorizedTransfer
             \<lparr>atq_bytes_to_transfer = 7, atq_estimated_transfer_millis = 20, atq_cost_microunits = 5,
              atq_source_count = 1, atq_authorization_valid_until_unix_ms = 180\<rparr>\<rparr>],
       etc_execution_cost_microunits = 30, etc_available_at_unix_ms = 105, etc_reliability_score = 9\<rparr>)"

lemma ex_artifacts:
  "evaluate_artifacts ex_placement ex_candidate =
     ([], \<lparr>as_local_bytes = 0, as_transfer_bytes = 7, as_estimated_transfer_millis = 20, as_cost_microunits = 5,
           as_source_count = 1, as_has_local_artifacts = False, as_local_valid_until_unix_ms = - 1,
           as_transfer_valid_until_unix_ms = 180\<rparr>)"
proof -
  have "ar_size_bytes ex_artifact = 7" by (simp add: ex_artifact_def)
  then show ?thesis
    by (simp add: evaluate_artifacts_def ex_placement_def ex_candidate_def Let_def index_quote_def score_artifact_def
      score_transfer_def score_start_def readiness_reasons_def reason_if_def checked_add_def bm_contains_def)
qed

lemma ex_eligible: "cev_eligible (evaluate_candidate ex_placement ex_candidate)"
proof -
  have "validate_candidate_identity ex_placement ex_candidate = []" by code_simp
  moreover have "validate_placement_capabilities ex_placement ex_candidate = []" by code_simp
  moreover have "validate_policy ex_placement ex_candidate = []" by code_simp
  moreover have "match_resources (epr_resource_query ex_placement) (etc_provider_snapshot ex_candidate) \<noteq> None"
    by code_simp
  ultimately show ?thesis
    by (simp add: evaluate_candidate_def ex_artifacts Let_def)
      (simp add: ex_placement_def ex_candidate_def checked_add_def Let_def)
qed

lemma ex_planned:
  "\<exists>d. plan_execution_placement ex_placement [ex_candidate] = Inr d \<and> pd_selected_node d = Some (etc_node ex_candidate)"
proof -
  have "validate_request ex_placement = Inr ()" by code_simp
  then show ?thesis by (simp add: plan_Inr ex_eligible sort_by_def)
qed

theorem placement_respects_request_witness:
  "place_execution_target ex_placement [ex_candidate] = Inr ex_candidate \<and>
   lifecycle_met ex_placement ex_candidate \<and> provider_current ex_placement ex_candidate \<and>
   capabilities_met ex_placement ex_candidate \<and>
   (\<exists>t. quote_for ex_candidate ex_artifact = Some t \<and> ready_at ex_placement ex_candidate < unat (apq_valid_until_unix_ms t))"
proof -
  obtain d where "plan_execution_placement ex_placement [ex_candidate] = Inr d"
    "pd_selected_node d = Some (etc_node ex_candidate)" using ex_planned by blast
  then have p: "place_execution_target ex_placement [ex_candidate] = Inr ex_candidate"
    by (simp add: place_execution_target_def)
  have "ex_artifact \<in> set (epr_artifacts ex_placement)" by (simp add: ex_placement_def)
  then show ?thesis using placement_respects_request [OF p] p by blast
qed

text \<open>C26. Placement selects the best eligible candidate, deterministically. No node is selected exactly
  when no candidate is eligible; otherwise the selected node is that of an eligible candidate which
  precedes every other eligible one in the lexicographic order of local bytes, transfer time, transfer
  bytes, cost, readiness, reliability and node, this candidate is what the target lookup returns, and
  the decision does not depend on the order in which the candidates are listed.\<close>

theorem placement_selects_best:
  assumes "plan_execution_placement q cs = Inr d"
  shows "(pd_selected_node d = None \<longleftrightarrow> (\<forall>c\<in>set cs. \<not> cev_eligible (evaluate_candidate q c))) \<and>
    (\<forall>n. pd_selected_node d = Some n \<longrightarrow>
       (\<exists>c\<in>set cs. etc_node c = n \<and> cev_eligible (evaluate_candidate q c) \<and> place_execution_target q cs = Inr c \<and>
          (\<forall>c'\<in>set cs. cev_eligible (evaluate_candidate q c') \<longrightarrow> c' = c \<or>
             evaluation_key (evaluate_candidate q c) < evaluation_key (evaluate_candidate q c')))) \<and>
    (\<forall>cs'. mset cs' = mset cs \<longrightarrow> plan_execution_placement q cs' = Inr d)"
proof (intro conjI allI impI)
  show "pd_selected_node d = None \<longleftrightarrow> (\<forall>c\<in>set cs. \<not> cev_eligible (evaluate_candidate q c))"
    using placing.find_sort_by [of cev_eligible "map (evaluate_candidate q) cs"] assms by (simp add: plan_Inr)
  show "\<exists>c\<in>set cs. etc_node c = n \<and> cev_eligible (evaluate_candidate q c) \<and> place_execution_target q cs = Inr c \<and>
      (\<forall>c'\<in>set cs. cev_eligible (evaluate_candidate q c') \<longrightarrow> c' = c \<or>
         evaluation_key (evaluate_candidate q c) < evaluation_key (evaluate_candidate q c'))"
    if "pd_selected_node d = Some n" for n
    by (rule selected_candidate [OF assms that]) blast
  show "plan_execution_placement q cs' = Inr d" if "mset cs' = mset cs" for cs'
    by (rule plan_permutation [OF assms that])
qed

theorem placement_selects_best_witness:
  "place_execution_target ex_placement [ex_candidate] = Inr ex_candidate"
proof -
  obtain d where "plan_execution_placement ex_placement [ex_candidate] = Inr d"
    "pd_selected_node d = Some (etc_node ex_candidate)" using ex_planned by blast
  then show ?thesis using placement_selects_best [of ex_placement "[ex_candidate]" d] by auto
qed

end
