(* ===== verification/Fabric_Assignment.thy ===== *)
theory Fabric_Assignment
  imports Placement_Properties
begin

text \<open>
  Runtime assignments (\<open>cy-execution-fabric/src/assignment.rs\<close> and the assignment part of \<open>admission.rs\<close>):
  the wire form of a lease and its timestamps, the checks a runtime agent makes of an assignment and of
  a renewal, and the builder that binds a lease to an assignment and compares its artifacts with the
  placement. A built assignment is proved to be admitted by the agent as the very lease it was built
  from, and an accepted projection to cover the requested artifacts exactly.
\<close>

section \<open>The wire form of a lease\<close>

definition i64_max :: int where "i64_max = 2 ^ 63 - 1"
definition i32_max :: int where "i32_max = 2 ^ 31 - 1"

definition u64_try_from :: "int \<Rightarrow> u64 option" where
  "u64_try_from i = (if 0 \<le> i \<and> i < 2 ^ 64 then Some (word_of_int i) else None)"

definition checked_mul :: "u64 \<Rightarrow> u64 \<Rightarrow> u64 option" where
  "checked_mul a b = (if unat a * unat b < 2 ^ 64 then Some (a * b) else None)"

record timestamp =
  ts_seconds :: int
  ts_nanos :: i32

record lease_proto =
  lp_identity :: "identity option"
  lp_holder :: "identity option"
  lp_resources :: "identity list"
  lp_state :: i32
  lp_fence_token :: u64
  lp_expires_at :: "timestamp option"

definition timestamp_ms :: "timestamp option \<Rightarrow> fabric_contract_error + u64 option" where
  "timestamp_ms timestamp =
     (case timestamp of
        None \<Rightarrow> Inr None
      | Some t \<Rightarrow>
          if ts_seconds t \<le> 0 \<or> ts_nanos t < 0 \<or> ts_nanos t mod 1000000 \<noteq> 0
          then Inl (fab_err ''TIMESTAMP_INVALID'' ''timestamp must be a positive exact Unix millisecond'')
          else
            bind_res (ok_or (u64_try_from (ts_seconds t))
              (fab_err ''TIMESTAMP_INVALID'' ''timestamp seconds are out of range'')) (\<lambda>seconds.
            bind_res (ok_or
              (Option.bind (checked_mul seconds 1000) (\<lambda>value.
               Option.bind (u64_try_from (ts_nanos t div 1000000)) (checked_add value)))
              (fab_err ''TIMESTAMP_INVALID'' ''timestamp is out of range'')) (\<lambda>millis.
            Inr (Some millis))))"

definition timestamp_from_unix_ms :: "u64 \<Rightarrow> timestamp" where
  "timestamp_from_unix_ms unix_ms =
     (let seconds = uint (unix_ms div 1000); nanos = uint ((unix_ms mod 1000) * 1000000) in
      \<lparr>ts_seconds = (if seconds \<le> i64_max then seconds else i64_max),
       ts_nanos = (if nanos \<le> i32_max then nanos else 0)\<rparr>)"

fun lease_state_to_proto :: "lease_state \<Rightarrow> i32" where
  "lease_state_to_proto LeaseActive = 1"
| "lease_state_to_proto LeaseReleasing = 2"
| "lease_state_to_proto LeaseReleased = 3"
| "lease_state_to_proto LeaseExpired = 4"
| "lease_state_to_proto LeaseRevoked = 5"
| "lease_state_to_proto LeaseFailed = 6"

definition lease_state_from_proto :: "i32 \<Rightarrow> lease_state option" where
  "lease_state_from_proto v =
     (if v = 1 then Some LeaseActive else if v = 2 then Some LeaseReleasing
      else if v = 3 then Some LeaseReleased else if v = 4 then Some LeaseExpired
      else if v = 5 then Some LeaseRevoked else if v = 6 then Some LeaseFailed else None)"

fun validate_identities :: "string \<Rightarrow> identity list \<Rightarrow> fabric_contract_error + identity list" where
  "validate_identities name [] = Inr []"
| "validate_identities name (i # is) =
     bind_res (validate_identity (Some i) name) (\<lambda>j.
     bind_res (validate_identities name is) (\<lambda>js. Inr (j # js)))"

definition lease_from_proto :: "lease_proto option \<Rightarrow> fabric_contract_error + lease" where
  "lease_from_proto lease =
     bind_res (ok_or lease (fab_err ''REQUIRED_FIELD_MISSING'' ''Lease is required'')) (\<lambda>l.
     bind_res (ok_or (lease_state_from_proto (lp_state l))
       (fab_err ''UNKNOWN_ENUM_VALUE'' ''Lease state is invalid'')) (\<lambda>state.
     bind_res (validate_identity (lp_identity l) ''Lease'') (\<lambda>identity.
     bind_res (validate_identity (lp_holder l) ''Lease holder'') (\<lambda>holder.
     bind_res (validate_identities ''Lease resource'' (lp_resources l)) (\<lambda>resources.
     bind_res (timestamp_ms (lp_expires_at l)) (\<lambda>expires.
     Inr \<lparr>lease_identity = identity, lease_holder = holder, lease_resources = resources, lease_state = state,
          lease_fence_token = lp_fence_token l, lease_expires_at_unix_ms = expires\<rparr>))))))"

definition semantic_lease_from_proto :: "lease_proto \<Rightarrow> fabric_contract_error + lease" where
  "semantic_lease_from_proto lease =
     bind_res (lease_from_proto (Some lease)) (\<lambda>l.
     bind_res (map_err map_contract_error (Lease_validate l)) (\<lambda>_. Inr l))"

definition semantic_lease_to_proto :: "lease \<Rightarrow> lease_proto" where
  "semantic_lease_to_proto l =
     \<lparr>lp_identity = Some (lease_identity l), lp_holder = Some (lease_holder l), lp_resources = lease_resources l,
      lp_state = lease_state_to_proto (lease_state l), lp_fence_token = lease_fence_token l,
      lp_expires_at = map_option timestamp_from_unix_ms (lease_expires_at_unix_ms l)\<rparr>"

definition validate_renewal :: "lease \<Rightarrow> lease_proto \<Rightarrow> u64 \<Rightarrow> fabric_contract_error + lease" where
  "validate_renewal previous renewed now_unix_ms =
     bind_res (lease_from_proto (Some renewed)) (\<lambda>r.
     bind_res (ensure (\<not> (lease_identity r \<noteq> lease_identity previous \<or> lease_holder r \<noteq> lease_holder previous \<or>
         lease_resources r \<noteq> lease_resources previous \<or> lease_fence_token r \<noteq> lease_fence_token previous))
       (fab_err ''LEASE_RENEWAL_INVALID'' ''renewal changed immutable Lease authority'')) (\<lambda>_.
     bind_res (map_err map_contract_error (Lease_renew_lease previous (lease_fence_token r)
       (case lease_expires_at_unix_ms r of None \<Rightarrow> 0 | Some e \<Rightarrow> e) now_unix_ms)) (\<lambda>expected.
     bind_res (ensure (r = expected)
       (fab_err ''LEASE_RENEWAL_INVALID'' ''renewed Lease does not match the canonical transition'')) (\<lambda>_.
     Inr r))))"

section \<open>Assignments\<close>

record workload_identity =
  wi_identity :: "identity option"
  wi_scope :: "account_scope option"
  wi_runtime :: "identity option option"
  wi_allowed_actions :: "string list"
  wi_expires_at :: "timestamp option"

record runtime_profile =
  rp_image_digest :: string
  rp_resolved_digest :: string

record artifact_transfer_source =
  src_peer_id :: string
  src_replica_id :: string
  src_locator :: string
  src_transfer_ticket :: string
  src_path :: i32
  src_locator_expires_at_unix_ms :: u64

record artifact_part_source =
  part_index :: u32
  part_peer_id :: string
  part_replica_id :: string

record artifact_transfer_spec =
  xs_artifact_uri :: string
  xs_digest :: string
  xs_size_bytes :: u64
  xs_manifest_digest :: string
  xs_replica_uri :: string
  xs_part_size_bytes :: u64
  xs_part_digests :: "string list"
  xs_sources :: "artifact_transfer_source list"
  xs_part_sources :: "artifact_part_source list"
  xs_destination_peer_id :: string
  xs_artifact_kind :: string

record artifact_local_input =
  li_artifact_uri :: string
  li_digest :: string
  li_size_bytes :: u64
  li_artifact_kind :: string
  li_manifest_digest :: string

record runtime_assignment =
  ra_assignment_id :: string
  ra_runtime :: "identity option option"
  ra_operation :: "identity option"
  ra_attempt_id :: string
  ra_lease :: "lease_proto option"
  ra_workload_identity :: "workload_identity option"
  ra_profile :: "runtime_profile option"
  ra_desired_state :: i32
  ra_artifacts :: "artifact_transfer_spec list"
  ra_local_artifacts :: "artifact_local_input list"

datatype desired_runtime_state = DrsUnspecified | DrsRunning | DrsStopped

definition desired_state_try_from :: "i32 \<Rightarrow> desired_runtime_state option" where
  "desired_state_try_from v =
     (if v = 0 then Some DrsUnspecified else if v = 1 then Some DrsRunning
      else if v = 2 then Some DrsStopped else None)"

datatype artifact_transfer_path = AtpUnspecified | LanDirect | UserProvidedObjectStore

definition transfer_path_try_from :: "i32 \<Rightarrow> artifact_transfer_path option" where
  "transfer_path_try_from v =
     (if v = 0 then Some AtpUnspecified else if v = 1 then Some LanDirect
      else if v = 2 then Some UserProvidedObjectStore else None)"

definition validate_sha256 :: "string \<Rightarrow> string \<Rightarrow> fabric_contract_error + unit" where
  "validate_sha256 value name =
     ensure (sha256_digest value) (fab_err ''DIGEST_INVALID'' (name @ '' must be a lowercase SHA-256 digest''))"

definition artifact_kind_from_proto :: "string \<Rightarrow> fabric_contract_error + artifact_kind" where
  "artifact_kind_from_proto value =
     map_err (\<lambda>message. fab_err ''ARTIFACT_KIND_INVALID'' (''Artifact kind is invalid: '' @ message))
       (ArtifactKind_new value)"

definition validate_source :: "u64 \<Rightarrow> artifact_transfer_source \<Rightarrow> fabric_contract_error + unit" where
  "validate_source now_unix_ms source =
     bind_res (ok_or (transfer_path_try_from (src_path source))
       (fab_err ''ARTIFACT_TRANSFER_PATH_INVALID''
          ''Artifact source path is unknown; control Relay is not a bulk Artifact route'')) (\<lambda>path.
     if path = AtpUnspecified
     then Inl (fab_err ''ARTIFACT_TRANSFER_PATH_UNSPECIFIED''
       ''Artifact source must name LAN_DIRECT or USER_PROVIDED_OBJECT_STORE; control Relay is not a bulk Artifact route'')
     else ensure (\<not> (path = UserProvidedObjectStore \<and> src_locator_expires_at_unix_ms source \<le> now_unix_ms))
       (fab_err ''OBJECT_STORE_LOCATOR_EXPIRED'' ''user-provided object-store URL must have a future expiry''))"

definition routed_parts :: "artifact_transfer_spec \<Rightarrow> u32 btree_set" where
  "routed_parts a = fold (\<lambda>route. bs_insert (part_index route)) (xs_part_sources a) []"

definition duplicate_digest :: "string \<Rightarrow> fabric_contract_error" where
  "duplicate_digest digest =
     fab_err ''ARTIFACT_ASSIGNMENT_DUPLICATE'' (''assignment contains a duplicate Artifact digest: '' @ digest)"

definition validate_transfer_spec ::
    "u64 \<Rightarrow> string btree_set \<Rightarrow> artifact_transfer_spec \<Rightarrow> fabric_contract_error + string btree_set" where
  "validate_transfer_spec now_unix_ms artifact_digests a =
     bind_res (validate_sha256 (xs_digest a) ''Artifact digest'') (\<lambda>_.
     bind_res (ensure (xs_digest a \<notin> set artifact_digests) (duplicate_digest (xs_digest a))) (\<lambda>_.
     bind_res (ensure (\<not> (xs_artifact_uri a \<noteq> ''artifact://sha256/'' @ drop 7 (xs_digest a) \<or>
         xs_size_bytes a = 0 \<or> xs_part_size_bytes a = 0))
       (fab_err ''ARTIFACT_TRANSFER_INVALID'' ''Artifact transfer identity, size, and part size are required'')) (\<lambda>_.
     bind_res (ensure (xs_sources a \<noteq> [])
       (fab_err ''LAN_DIRECT_UNAVAILABLE_USER_OBJECT_STORE_REQUIRED''
          (''no reachable direct source or user-provided object-store candidate is available; supply an active, '' @
           ''short-lived pre-signed HTTPS URL from user-owned object storage; '' @
           ''Artifact bytes are never sent through the control Relay''))) (\<lambda>_.
     bind_res (if xs_manifest_digest a = [] then Inr ()
       else validate_sha256 (xs_manifest_digest a) ''Artifact manifest digest'') (\<lambda>_.
     bind_res (artifact_kind_from_proto (xs_artifact_kind a)) (\<lambda>_.
     bind_res (for_each (validate_source now_unix_ms) (xs_sources a)) (\<lambda>_.
     bind_res (ensure (\<not> (xs_destination_peer_id a = [] \<or>
         length (xs_part_sources a) \<noteq> length (xs_part_digests a) \<or>
         list_ex (\<lambda>source. src_peer_id source = [] \<or> src_replica_id source = [] \<or>
           \<not> prefix ''https://'' (src_locator source) \<or> src_transfer_ticket source = []) (xs_sources a)))
       (fab_err ''ARTIFACT_TRANSFER_PLAN_INVALID''
          ''source Peers, destination Peer, tickets, and per-part routes are required'')) (\<lambda>_.
     bind_res (ensure (\<not> (length (routed_parts a) \<noteq> length (xs_part_digests a) \<or>
         list_ex (\<lambda>(index, part). unat part \<noteq> index) (enumerate 0 (routed_parts a))))
       (fab_err ''ARTIFACT_PART_ROUTING_INVALID'' ''every Artifact part must have exactly one source route'')) (\<lambda>_.
     Inr (bs_insert (xs_digest a) artifact_digests))))))))))"

definition validate_local_input ::
    "string btree_set \<Rightarrow> artifact_local_input \<Rightarrow> fabric_contract_error + string btree_set" where
  "validate_local_input artifact_digests a =
     bind_res (validate_sha256 (li_digest a) ''local Artifact digest'') (\<lambda>_.
     bind_res (ensure (li_digest a \<notin> set artifact_digests) (duplicate_digest (li_digest a))) (\<lambda>_.
     bind_res (ensure (li_artifact_uri a = ''artifact://sha256/'' @ drop 7 (li_digest a))
       (fab_err ''ARTIFACT_LOCAL_IDENTITY_INVALID'' ''local Artifact URI must match its canonical digest'')) (\<lambda>_.
     bind_res (artifact_kind_from_proto (li_artifact_kind a)) (\<lambda>_.
     bind_res (if li_manifest_digest a = [] then Inr ()
       else validate_sha256 (li_manifest_digest a) ''local Artifact manifest digest'') (\<lambda>_.
     Inr (bs_insert (li_digest a) artifact_digests))))))"

definition validate_workload_identity ::
    "identity \<Rightarrow> workload_identity option \<Rightarrow> u64 \<Rightarrow> fabric_contract_error + unit" where
  "validate_workload_identity runtime workload now_unix_ms =
     bind_res (ok_or workload (fab_err ''REQUIRED_FIELD_MISSING'' ''workload identity is required'')) (\<lambda>w.
     bind_res (validate_identity (wi_identity w) ''workload identity'') (\<lambda>_.
     bind_res (runtime_identity (wi_runtime w)) (\<lambda>identity_runtime.
     bind_res (ensure (identity_runtime = runtime)
       (fab_err ''WORKLOAD_IDENTITY_SCOPE_MISMATCH''
          ''workload identity is scoped to another Runtime generation'')) (\<lambda>_.
     bind_res (timestamp_ms (wi_expires_at w)) (\<lambda>expires.
     ensure (\<not> (case expires of None \<Rightarrow> True | Some expiry \<Rightarrow> expiry \<le> now_unix_ms))
       (fab_err ''WORKLOAD_IDENTITY_EXPIRED'' ''workload identity is expired''))))))"

definition validate_assignment_payload ::
    "identity \<Rightarrow> runtime_assignment \<Rightarrow> u64 \<Rightarrow> fabric_contract_error + identity" where
  "validate_assignment_payload expected_runtime assignment now_unix_ms =
     bind_res (ensure (\<not> (ra_assignment_id assignment = [] \<or> ra_attempt_id assignment = []))
       (fab_err ''REQUIRED_FIELD_MISSING'' ''assignment and Attempt identities are required'')) (\<lambda>_.
     bind_res (runtime_identity (ra_runtime assignment)) (\<lambda>runtime.
     bind_res (ensure (\<not> (ident_id runtime \<noteq> ident_id expected_runtime \<or>
         ident_generation runtime < ident_generation expected_runtime))
       (fab_err ''STALE_GENERATION'' ''assignment Runtime generation is stale or belongs to another Runtime'')) (\<lambda>_.
     bind_res (ensure (runtime = expected_runtime)
       (fab_err ''GENERATION_MISMATCH'' ''assignment Runtime generation does not match this Agent'')) (\<lambda>_.
     bind_res (validate_identity (ra_operation assignment) ''operation'') (\<lambda>_.
     bind_res (ensure (desired_state_try_from (ra_desired_state assignment) = Some DrsRunning)
       (fab_err ''DESIRED_STATE_INVALID'' ''a new Assignment must desire RUNNING'')) (\<lambda>_.
     bind_res (validate_workload_identity runtime (ra_workload_identity assignment) now_unix_ms) (\<lambda>_.
     bind_res (ok_or (ra_profile assignment)
       (fab_err ''REQUIRED_FIELD_MISSING'' ''Runtime profile is required'')) (\<lambda>profile.
     bind_res (validate_sha256 (rp_image_digest profile) ''image digest'') (\<lambda>_.
     bind_res (validate_sha256 (rp_resolved_digest profile) ''resolved runtime digest'') (\<lambda>_.
     bind_res (fold_res (validate_transfer_spec now_unix_ms) [] (ra_artifacts assignment)) (\<lambda>artifact_digests.
     bind_res (fold_res validate_local_input artifact_digests (ra_local_artifacts assignment)) (\<lambda>_.
     Inr runtime))))))))))))"

definition validate_assignment :: "identity \<Rightarrow> runtime_assignment \<Rightarrow> u64 \<Rightarrow> fabric_contract_error + lease" where
  "validate_assignment expected_runtime assignment now_unix_ms =
     bind_res (validate_assignment_payload expected_runtime assignment now_unix_ms) (\<lambda>runtime.
     bind_res (lease_from_proto (ra_lease assignment)) (\<lambda>l.
     bind_res (map_err map_contract_error (Lease_validate l)) (\<lambda>_.
     bind_res (ensure (lease_state l = LeaseActive)
       (fab_err ''LEASE_NOT_ACTIVE'' ''assignment Lease is not active'')) (\<lambda>_.
     bind_res (ensure (lease_holder l = runtime)
       (fab_err ''LEASE_HOLDER_MISMATCH'' ''assignment Lease holder is not the Runtime generation'')) (\<lambda>_.
     bind_res (ensure (\<not> (case lease_expires_at_unix_ms l of None \<Rightarrow> True | Some expiry \<Rightarrow> expiry \<le> now_unix_ms))
       (fab_err ''LEASE_EXPIRED'' ''assignment Lease has expired'')) (\<lambda>_.
     Inr l))))))"

section \<open>The builder\<close>

record runtime_assignment_builder =
  rab_assignment_id :: string
  rab_runtime :: identity
  rab_operation :: identity
  rab_attempt_id :: string
  rab_workload_identity :: workload_identity
  rab_profile :: runtime_profile
  rab_artifacts :: "artifact_transfer_spec list"
  rab_local_artifacts :: "artifact_local_input list"

definition RuntimeAssignmentBuilder_new ::
    "string \<Rightarrow> identity \<Rightarrow> identity \<Rightarrow> string \<Rightarrow> workload_identity \<Rightarrow> runtime_profile \<Rightarrow>
     artifact_transfer_spec list \<Rightarrow> runtime_assignment_builder" where
  "RuntimeAssignmentBuilder_new assignment_id runtime operation attempt_id workload profile artifacts =
     \<lparr>rab_assignment_id = assignment_id, rab_runtime = runtime, rab_operation = operation,
      rab_attempt_id = attempt_id, rab_workload_identity = workload, rab_profile = profile,
      rab_artifacts = artifacts, rab_local_artifacts = []\<rparr>"

definition with_local_artifacts ::
    "artifact_local_input list \<Rightarrow> runtime_assignment_builder \<Rightarrow> runtime_assignment_builder" where
  "with_local_artifacts local_artifacts b = b\<lparr>rab_local_artifacts := local_artifacts\<rparr>"

definition builder_assignment :: "runtime_assignment_builder \<Rightarrow> lease_proto option \<Rightarrow> runtime_assignment" where
  "builder_assignment b lease =
     \<lparr>ra_assignment_id = rab_assignment_id b, ra_runtime = Some (Some (rab_runtime b)),
      ra_operation = Some (rab_operation b), ra_attempt_id = rab_attempt_id b, ra_lease = lease,
      ra_workload_identity = Some (rab_workload_identity b), ra_profile = Some (rab_profile b),
      ra_desired_state = 1, ra_artifacts = rab_artifacts b, ra_local_artifacts = rab_local_artifacts b\<rparr>"

definition builder_validate :: "runtime_assignment_builder \<Rightarrow> u64 \<Rightarrow> fabric_contract_error + unit" where
  "builder_validate b now_unix_ms =
     bind_res (validate_assignment_payload (rab_runtime b) (builder_assignment b None) now_unix_ms) (\<lambda>_. Inr ())"

definition builder_build :: "runtime_assignment_builder \<Rightarrow> lease \<Rightarrow> u64 \<Rightarrow> fabric_contract_error + runtime_assignment" where
  "builder_build b l now_unix_ms =
     bind_res (builder_validate b now_unix_ms) (\<lambda>_.
     let assignment = builder_assignment b (Some (semantic_lease_to_proto l)) in
     bind_res (validate_assignment (rab_runtime b) assignment now_unix_ms) (\<lambda>_. Inr assignment))"

section \<open>The artifact projection\<close>

definition optional_digest :: "string \<Rightarrow> string option" where
  "optional_digest d = (if d = [] then None else Some d)"

definition artifact_ref_from_local_input :: "artifact_local_input \<Rightarrow> fabric_contract_error + artifact_ref" where
  "artifact_ref_from_local_input input =
     bind_res (artifact_kind_from_proto (li_artifact_kind input)) (\<lambda>kind.
     let artifact = \<lparr>ar_uri = li_artifact_uri input, ar_digest = li_digest input,
       ar_size_bytes = li_size_bytes input, ar_kind = kind,
       ar_manifest_digest = optional_digest (li_manifest_digest input)\<rparr> in
     bind_res (map_err (\<lambda>message. fab_err ''ARTIFACT_LOCAL_IDENTITY_INVALID''
       (''assignment local Artifact is invalid: '' @ message)) (ArtifactRef_validate artifact)) (\<lambda>_. Inr artifact))"

definition artifact_ref_from_transfer_spec :: "artifact_transfer_spec \<Rightarrow> fabric_contract_error + artifact_ref" where
  "artifact_ref_from_transfer_spec spec =
     bind_res (artifact_kind_from_proto (xs_artifact_kind spec)) (\<lambda>kind.
     let artifact = \<lparr>ar_uri = xs_artifact_uri spec, ar_digest = xs_digest spec,
       ar_size_bytes = xs_size_bytes spec, ar_kind = kind,
       ar_manifest_digest = optional_digest (xs_manifest_digest spec)\<rparr> in
     bind_res (map_err (\<lambda>message. fab_err ''ARTIFACT_ASSIGNMENT_IDENTITY_INVALID''
       (''assignment Artifact transfer is invalid: '' @ message)) (ArtifactRef_validate artifact)) (\<lambda>_. Inr artifact))"

definition digest_entry ::
    "('x \<Rightarrow> fabric_contract_error + artifact_ref) \<Rightarrow> (string \<Rightarrow> fabric_contract_error) \<Rightarrow>
     (string, 'x) btree_map \<Rightarrow> 'x \<Rightarrow> fabric_contract_error + (string, 'x) btree_map" where
  "digest_entry project duplicate entries x =
     bind_res (project x) (\<lambda>projected.
     bind_res (ensure (\<not> bm_contains entries (ar_digest projected)) (duplicate (ar_digest projected))) (\<lambda>_.
     Inr (bm_insert (ar_digest projected) x entries)))"

definition valid_artifact :: "string \<Rightarrow> string \<Rightarrow> artifact_ref \<Rightarrow> fabric_contract_error + artifact_ref" where
  "valid_artifact reason_code message artifact =
     bind_res (map_err (\<lambda>m. fab_err reason_code (message @ m)) (ArtifactRef_validate artifact)) (\<lambda>_. Inr artifact)"

definition index_requested_artifacts ::
    "artifact_ref list \<Rightarrow> fabric_contract_error + (string, artifact_ref) btree_map" where
  "index_requested_artifacts artifacts =
     fold_res (digest_entry (valid_artifact ''ARTIFACT_IDENTITY_INVALID'' ''placement Artifact is invalid: '')
       (\<lambda>d. fab_err ''ARTIFACT_PLACEMENT_DUPLICATE'' (''placement contains a duplicate Artifact digest: '' @ d)))
       [] artifacts"

definition index_assignment_artifacts ::
    "artifact_transfer_spec list \<Rightarrow> fabric_contract_error + (string, artifact_transfer_spec) btree_map" where
  "index_assignment_artifacts artifacts =
     fold_res (digest_entry artifact_ref_from_transfer_spec
       (\<lambda>d. fab_err ''ARTIFACT_ASSIGNMENT_DUPLICATE'' (''assignment contains a duplicate Artifact digest: '' @ d)))
       [] artifacts"

definition index_local_artifacts ::
    "artifact_local_input list \<Rightarrow> fabric_contract_error + (string, artifact_local_input) btree_map" where
  "index_local_artifacts artifacts =
     fold_res (digest_entry artifact_ref_from_local_input
       (\<lambda>d. fab_err ''ARTIFACT_ASSIGNMENT_DUPLICATE''
          (''assignment contains a duplicate local Artifact digest: '' @ d)))
       [] artifacts"

definition quote_entry ::
    "(string, artifact_placement_quote) btree_map \<times> string btree_set \<Rightarrow> artifact_placement_quote \<Rightarrow>
     fabric_contract_error + (string, artifact_placement_quote) btree_map \<times> string btree_set" where
  "quote_entry st quote =
     (let (entries, quote_ids) = st; digest = ar_digest (apq_artifact quote) in
      bind_res (valid_artifact ''ARTIFACT_QUOTE_INVALID'' ''candidate Artifact quote is invalid: ''
        (apq_artifact quote)) (\<lambda>_.
      bind_res (ensure (\<not> (apq_quote_id quote = [] \<or> apq_quote_id quote \<in> set quote_ids))
        (fab_err ''ARTIFACT_QUOTE_DUPLICATE'' ''candidate Artifact quotes require unique non-empty identities'')) (\<lambda>_.
      bind_res (ensure (\<not> bm_contains entries digest)
        (fab_err ''ARTIFACT_QUOTE_DUPLICATE'' (''candidate contains duplicate Artifact quotes for '' @ digest))) (\<lambda>_.
      Inr (bm_insert digest quote entries, bs_insert (apq_quote_id quote) quote_ids)))))"

definition index_artifact_quotes ::
    "artifact_placement_quote list \<Rightarrow> fabric_contract_error + (string, artifact_placement_quote) btree_map" where
  "index_artifact_quotes quotes = bind_res (fold_res quote_entry ([], []) quotes) (\<lambda>(entries, _). Inr entries)"

definition reject_first :: "string list \<Rightarrow> (string \<Rightarrow> fabric_contract_error) \<Rightarrow> fabric_contract_error + unit" where
  "reject_first digests e = (case digests of [] \<Rightarrow> Inr () | d # _ \<Rightarrow> Inl (e d))"

definition validate_projected_local ::
    "(string, artifact_local_input) btree_map \<Rightarrow> string \<Rightarrow> artifact_ref \<Rightarrow> fabric_contract_error + unit" where
  "validate_projected_local local_artifacts digest artifact =
     bind_res (ok_or (map_of local_artifacts digest)
       (fab_err ''ARTIFACT_LOCAL_INPUT_MISSING''
          (''assignment lacks the local projection for Artifact '' @ digest))) (\<lambda>input.
     bind_res (artifact_ref_from_local_input input) (\<lambda>projected.
     ensure (projected = artifact)
       (fab_err ''ARTIFACT_LOCAL_INPUT_IDENTITY_MISMATCH''
          (''assignment local input disagrees with placement identity for '' @ digest))))"

definition validate_projected_transfer ::
    "(string, artifact_transfer_spec) btree_map \<Rightarrow> string \<Rightarrow> string \<Rightarrow> artifact_ref \<Rightarrow>
     fabric_contract_error + unit" where
  "validate_projected_transfer assignments destination digest artifact =
     bind_res (ensure (ar_size_bytes artifact \<noteq> 0)
       (fab_err ''ARTIFACT_ZERO_BYTE_TRANSFER_UNSUPPORTED''
          (''zero-byte remote Artifact cannot be projected for transfer: '' @ digest))) (\<lambda>_.
     bind_res (ok_or (map_of assignments digest)
       (fab_err ''ARTIFACT_ASSIGNMENT_MISSING''
          (''assignment lacks the transfer projection for Artifact '' @ digest))) (\<lambda>spec.
     bind_res (artifact_ref_from_transfer_spec spec) (\<lambda>projected.
     bind_res (ensure (projected = artifact)
       (fab_err ''ARTIFACT_ASSIGNMENT_IDENTITY_MISMATCH''
          (''assignment transfer disagrees with placement identity for '' @ digest))) (\<lambda>_.
     ensure (xs_destination_peer_id spec = destination)
       (fab_err ''ARTIFACT_DESTINATION_MISMATCH''
          (''assignment transfer destination disagrees with selected Peer for '' @ digest))))))"

definition validate_projected ::
    "(string, artifact_transfer_spec) btree_map \<Rightarrow> (string, artifact_local_input) btree_map \<Rightarrow>
     (string, artifact_placement_quote) btree_map \<Rightarrow> string \<Rightarrow> string \<Rightarrow> string \<times> artifact_ref \<Rightarrow>
     fabric_contract_error + unit" where
  "validate_projected assignments local_artifacts quotes destination scope entry =
     (let (digest, artifact) = entry in
      bind_res (ok_or (map_of quotes digest)
        (fab_err ''ARTIFACT_QUOTE_MISSING''
           (''selected candidate lacks an Artifact quote for '' @ digest))) (\<lambda>quote.
      bind_res (ensure (apq_artifact quote = artifact)
        (fab_err ''ARTIFACT_QUOTE_IDENTITY_MISMATCH''
           (''Artifact quote disagrees with placement identity for '' @ digest))) (\<lambda>_.
      bind_res (ensure (\<not> (apq_destination_peer_id quote \<noteq> destination \<or> apq_policy_scope quote \<noteq> scope))
        (fab_err ''ARTIFACT_QUOTE_SCOPE_MISMATCH''
           (''Artifact quote scope disagrees with selected destination for '' @ digest))) (\<lambda>_.
      case apq_availability quote of
        VerifiedLocal _ \<Rightarrow> validate_projected_local local_artifacts digest artifact
      | AuthorizedTransfer _ \<Rightarrow> validate_projected_transfer assignments destination digest artifact))))"

definition validate_artifact_projection ::
    "runtime_assignment_builder \<Rightarrow> execution_placement_request \<Rightarrow> execution_target_candidate \<Rightarrow>
     fabric_contract_error + unit" where
  "validate_artifact_projection b placement selected =
     bind_res (index_requested_artifacts (epr_artifacts placement)) (\<lambda>requested.
     bind_res (index_assignment_artifacts (rab_artifacts b)) (\<lambda>assignments.
     bind_res (index_local_artifacts (rab_local_artifacts b)) (\<lambda>local_artifacts.
     bind_res (index_artifact_quotes (etc_artifact_quotes selected)) (\<lambda>quotes.
     bind_res (reject_first (filter (bm_contains local_artifacts) (map fst assignments))
       (\<lambda>d. fab_err ''ARTIFACT_ASSIGNMENT_DUPLICATE''
          (''assignment projects Artifact '' @ d @ '' as both local and transfer''))) (\<lambda>_.
     let requested_digests = map fst requested;
         projection_digests = fold bs_insert (map fst assignments @ map fst local_artifacts) [];
         destination = etc_artifact_destination_peer_id selected in
     bind_res (reject_first (filter (\<lambda>d. d \<notin> set requested_digests) projection_digests)
       (\<lambda>d. fab_err ''ARTIFACT_ASSIGNMENT_UNEXPECTED''
          (''assignment contains an Artifact absent from placement: '' @ d))) (\<lambda>_.
     bind_res (ensure (length quotes = length requested)
       (fab_err ''ARTIFACT_QUOTE_SET_MISMATCH''
          ''selected candidate Artifact quote set does not exactly match placement'')) (\<lambda>_.
     bind_res (ensure (\<not> (requested \<noteq> [] \<and> (destination = [] \<or> destination = node_id (etc_node selected))))
       (fab_err ''ARTIFACT_DESTINATION_INVALID''
          ''selected candidate requires an explicit Artifact Peer distinct from Node identity'')) (\<lambda>_.
     bind_res (reject_first (filter (\<lambda>d. d \<notin> set projection_digests) requested_digests)
       (\<lambda>d. fab_err
          (case map_option apq_availability (map_of quotes d) of
             Some (VerifiedLocal _) \<Rightarrow> ''ARTIFACT_LOCAL_INPUT_MISSING'' | _ \<Rightarrow> ''ARTIFACT_ASSIGNMENT_MISSING'')
          (''assignment lacks the Artifact projection for '' @ d))) (\<lambda>_.
     for_each (validate_projected assignments local_artifacts quotes destination
       (epr_artifact_policy_scope placement)) requested)))))))))"

section \<open>Wire round trips\<close>

lemma u64_bound: "uint (ms :: u64) < 18446744073709551616"
  using uint_lt2p [of ms] by simp

lemma wire_seconds: "uint ((ms :: u64) div 1000) = uint ms div 1000" "uint ms div 1000 \<le> i64_max"
  using u64_bound [of ms] by (simp_all add: uint_div i64_max_def)

lemma wire_nanos:
  "uint ((ms :: u64) mod 1000 * 1000000) = uint ms mod 1000 * 1000000" "uint ms mod 1000 * 1000000 \<le> i32_max"
proof -
  have "uint ms mod 1000 < 1000" by simp
  then have "uint ms mod 1000 * 1000000 < 18446744073709551616" and "uint ms mod 1000 * 1000000 \<le> 999000000"
    by linarith+
  then show "uint (ms mod 1000 * 1000000) = uint ms mod 1000 * 1000000"
    and "uint ms mod 1000 * 1000000 \<le> i32_max"
    by (simp_all add: uint_word_ariths uint_mod i32_max_def)
qed

lemma timestamp_written:
  "timestamp_from_unix_ms ms = \<lparr>ts_seconds = uint ms div 1000, ts_nanos = uint ms mod 1000 * 1000000\<rparr>"
  by (simp add: timestamp_from_unix_ms_def Let_def wire_seconds wire_nanos)

lemma u64_try_from_uint: "u64_try_from (uint (ms :: u64)) = Some ms"
  using u64_bound [of ms] by (simp add: u64_try_from_def)

text \<open>An expiry survives the wire unless it lies in the first second.\<close>

lemma timestamp_round_trip:
  "timestamp_ms (Some (timestamp_from_unix_ms ms)) =
     (if 1000 \<le> ms then Inr (Some ms)
      else Inl (fab_err ''TIMESTAMP_INVALID'' ''timestamp must be a positive exact Unix millisecond''))"
proof (cases "1000 \<le> ms")
  case True
  then have "1000 \<le> uint ms" by (simp add: word_le_def)
  then have pos: "0 < uint ms div 1000" by (simp add: pos_imp_zdiv_pos_iff)
  have sec: "u64_try_from (uint ms div 1000) = Some (ms div 1000)"
    using u64_try_from_uint [of "ms div 1000"] by (simp add: wire_seconds)
  have milli: "u64_try_from (uint ms mod 1000) = Some (ms mod 1000)"
    using u64_try_from_uint [of "ms mod 1000"] by (simp add: uint_mod)
  have whole: "unat ms div 1000 * 1000 + unat ms mod 1000 = unat ms" by simp
  have lt: "unat ms < 18446744073709551616" using unat_le_max [of ms] by simp
  have mul: "checked_mul (ms div 1000) 1000 = Some (ms div 1000 * 1000)"
    and low: "unat (ms div 1000 * 1000) = unat ms div 1000 * 1000"
    using whole lt by (simp_all add: checked_mul_def unat_div unat_word_ariths)
  have "checked_add (ms div 1000 * 1000) (ms mod 1000) = Some ms"
    using whole lt low by (simp add: checked_add_def unat_mod word_unat_eq_iff unat_word_ariths)
  then show ?thesis using True pos sec milli mul by (simp add: timestamp_ms_def timestamp_written)
next
  case False
  then have "uint ms < 1000" by (simp add: word_le_def)
  then show ?thesis using False by (simp add: timestamp_ms_def timestamp_written)
qed

lemma lease_state_round_trip [simp]: "lease_state_from_proto (lease_state_to_proto s) = Some s"
  by (cases s) (simp_all add: lease_state_from_proto_def)

lemma validate_identity_Some: "validate_identity (Some i) name = Inr j \<longleftrightarrow> Identity_validate i = Inr () \<and> j = i"
  by (auto simp: validate_identity_def bind_res_Inr)

lemma validate_identities_Inr:
  "validate_identities name is = Inr js \<longleftrightarrow> (\<forall>i\<in>set is. Identity_validate i = Inr ()) \<and> js = is"
  by (induction "is" arbitrary: js) (auto simp: bind_res_Inr validate_identity_Some)

lemma lease_wire:
  "lease_from_proto (Some (semantic_lease_to_proto l)) = Inr l' \<longleftrightarrow>
     Identity_validate (lease_identity l) = Inr () \<and> Identity_validate (lease_holder l) = Inr () \<and>
     (\<forall>r\<in>set (lease_resources l). Identity_validate r = Inr ()) \<and>
     (\<forall>e. lease_expires_at_unix_ms l = Some e \<longrightarrow> 1000 \<le> e) \<and> l' = l"
proof (cases "lease_expires_at_unix_ms l")
  case None
  then show ?thesis
    by (auto simp: lease_from_proto_def semantic_lease_to_proto_def bind_res_Inr validate_identity_Some
      validate_identities_Inr timestamp_ms_def)
next
  case (Some e)
  have "timestamp_ms (map_option timestamp_from_unix_ms (Some e)) = Inr x \<longleftrightarrow> 1000 \<le> e \<and> x = Some e" for x
    by (auto simp: timestamp_round_trip)
  then show ?thesis
    using Some by (auto simp del: option.map simp: lease_from_proto_def semantic_lease_to_proto_def bind_res_Inr
      validate_identity_Some validate_identities_Inr)
qed

lemma valid_lease_wire:
  assumes "Lease_validate l = Inr ()"
  shows "lease_from_proto (Some (semantic_lease_to_proto l)) = Inr l' \<longleftrightarrow>
    (\<forall>e. lease_expires_at_unix_ms l = Some e \<longrightarrow> 1000 \<le> e) \<and> l' = l"
  using assms by (auto simp: lease_wire Lease_validate_def first_err_Inr)

lemma builder_payload:
  "validate_assignment_payload (rab_runtime b) (builder_assignment b p) now = Inr r \<longleftrightarrow>
     builder_validate b now = Inr () \<and> r = rab_runtime b"
proof -
  have same: "validate_assignment_payload (rab_runtime b) (builder_assignment b p) now =
      validate_assignment_payload (rab_runtime b) (builder_assignment b None) now"
    by (simp add: validate_assignment_payload_def builder_assignment_def)
  have "r = rab_runtime b"
    if "validate_assignment_payload (rab_runtime b) (builder_assignment b None) now = Inr r" for r
    using that by (auto simp: validate_assignment_payload_def bind_res_Inr)
  then show ?thesis unfolding same by (auto simp: builder_validate_def bind_res_Inr)
qed

lemma admitted_assignment:
  "validate_assignment (rab_runtime b) (builder_assignment b (Some (semantic_lease_to_proto l))) now = Inr l' \<longleftrightarrow>
     builder_validate b now = Inr () \<and> Lease_validate l = Inr () \<and> lease_state l = LeaseActive \<and>
     lease_holder l = rab_runtime b \<and> (\<exists>e. lease_expires_at_unix_ms l = Some e \<and> now < e \<and> 1000 \<le> e) \<and> l' = l"
proof -
  have p: "ra_lease (builder_assignment b (Some (semantic_lease_to_proto l))) = Some (semantic_lease_to_proto l)"
    by (simp add: builder_assignment_def)
  have "lease_from_proto (Some (semantic_lease_to_proto l)) = Inr l' \<and> Lease_validate l' = Inr () \<longleftrightarrow>
      Lease_validate l = Inr () \<and> (\<forall>e. lease_expires_at_unix_ms l = Some e \<longrightarrow> 1000 \<le> e) \<and> l' = l"
    using valid_lease_wire [of l l'] lease_wire [of l l'] by blast
  moreover have "validate_assignment (rab_runtime b) (builder_assignment b (Some (semantic_lease_to_proto l))) now = Inr l' \<longleftrightarrow>
      builder_validate b now = Inr () \<and>
      (lease_from_proto (Some (semantic_lease_to_proto l)) = Inr l' \<and> Lease_validate l' = Inr ()) \<and>
      lease_state l' = LeaseActive \<and> lease_holder l' = rab_runtime b \<and>
      (\<exists>e. lease_expires_at_unix_ms l' = Some e \<and> now < e)"
    unfolding validate_assignment_def p
    by (auto simp: bind_res_Inr builder_payload not_le split: option.splits)
  ultimately show ?thesis by (simp only:) auto
qed

lemma builder_build_Inr:
  "builder_build b l now = Inr a \<longleftrightarrow>
     builder_validate b now = Inr () \<and> Lease_validate l = Inr () \<and> lease_state l = LeaseActive \<and>
     lease_holder l = rab_runtime b \<and> (\<exists>e. lease_expires_at_unix_ms l = Some e \<and> now < e \<and> 1000 \<le> e) \<and>
     a = builder_assignment b (Some (semantic_lease_to_proto l))"
  by (auto simp: builder_build_def bind_res_Inr Let_def admitted_assignment)

text \<open>A renewal is accepted exactly when it is the wire form of the kernel's own renewal.\<close>

lemma renewal_keeps:
  assumes "Lease_renew_lease l f e now = Inr r"
  shows "lease_identity r = lease_identity l" "lease_holder r = lease_holder l"
    "lease_resources r = lease_resources l" "lease_fence_token r = lease_fence_token l"
    "lease_fence_token l = f" "lease_expires_at_unix_ms r = Some e" "Lease_validate r = Inr ()"
  using assms Lease_validate_extend [of l e] by (auto simp: Lease_renew_lease_Inr intro: word_pos_of_less)

lemma renewal_admitted:
  "validate_renewal l (semantic_lease_to_proto l') now = Inr r \<longleftrightarrow>
     (\<exists>e. Lease_renew_lease l (lease_fence_token l) e now = Inr l' \<and> 1000 \<le> e) \<and> r = l'"
proof
  assume "validate_renewal l (semantic_lease_to_proto l') now = Inr r"
  then obtain e where wire: "lease_from_proto (Some (semantic_lease_to_proto l')) = Inr r"
    and e: "Lease_renew_lease l (lease_fence_token r) e now = Inr r"
    by (auto simp: validate_renewal_def bind_res_Inr)
  have "r = l'" and "\<forall>x. lease_expires_at_unix_ms l' = Some x \<longrightarrow> 1000 \<le> x" using wire unfolding lease_wire by blast+
  then show "(\<exists>e. Lease_renew_lease l (lease_fence_token l) e now = Inr l' \<and> 1000 \<le> e) \<and> r = l'"
    using e renewal_keeps(5,6) [OF e] by auto
next
  assume "(\<exists>e. Lease_renew_lease l (lease_fence_token l) e now = Inr l' \<and> 1000 \<le> e) \<and> r = l'"
  then obtain e where e: "Lease_renew_lease l (lease_fence_token l) e now = Inr l'" "1000 \<le> e" "r = l'" by blast
  note keeps = renewal_keeps [OF e(1)]
  have "lease_from_proto (Some (semantic_lease_to_proto l')) = Inr l'"
    unfolding valid_lease_wire [OF keeps(7)] using e(2) keeps(6) by simp
  then show "validate_renewal l (semantic_lease_to_proto l') now = Inr r"
    using e(1,3) keeps(1-4,6) by (simp add: validate_renewal_def)
qed

text \<open>C27. A built assignment carries the kernel's lease unchanged. Building succeeds exactly when the
  payload is valid and the lease is a valid, active, unexpired lease of this runtime whose expiry is not
  within the first second of the epoch; the agent then admits the assignment, decodes from it the very
  lease it was built from, and that lease authorizes the runtime on each of its resources under its own
  fence.\<close>

theorem built_assignment_admitted:
  "((\<exists>a. builder_build b l now = Inr a) \<longleftrightarrow>
      builder_validate b now = Inr () \<and> Lease_validate l = Inr () \<and> lease_state l = LeaseActive \<and>
      lease_holder l = rab_runtime b \<and> (\<exists>e. lease_expires_at_unix_ms l = Some e \<and> now < e \<and> 1000 \<le> e)) \<and>
   (builder_build b l now = Inr a \<longrightarrow>
      validate_assignment (rab_runtime b) a now = Inr l \<and>
      (\<exists>p. ra_lease a = Some p \<and> semantic_lease_from_proto p = Inr l) \<and>
      (\<forall>r\<in>set (lease_resources l). Lease_authorizes l (rab_runtime b) r (lease_fence_token l) now))"
proof -
  have "semantic_lease_from_proto (semantic_lease_to_proto l) = Inr l"
    if "Lease_validate l = Inr ()" "\<forall>e. lease_expires_at_unix_ms l = Some e \<longrightarrow> 1000 \<le> e"
    using that valid_lease_wire [of l l] by (simp add: semantic_lease_from_proto_def)
  moreover have "ra_lease (builder_assignment b p) = p" for p by (simp add: builder_assignment_def)
  ultimately show ?thesis
    by (auto simp: builder_build_Inr admitted_assignment Lease_authorizes_def is_ok_unit)
qed

section \<open>The exact projection\<close>

text \<open>A projection of inputs to artifacts under a digest that is a field of the input.\<close>

locale digest_projection =
  fixes project :: "'x \<Rightarrow> fabric_contract_error + artifact_ref" and digest :: "'x \<Rightarrow> string"
  assumes project_digest: "project x = Inr a \<Longrightarrow> ar_digest a = digest x"
begin

lemma entry_Inr:
  "digest_entry project duplicate m x = Inr m' \<longleftrightarrow>
     (\<exists>a. project x = Inr a) \<and> digest x \<notin> fst ` set m \<and> m' = bm_insert (digest x) x m"
proof (cases "project x")
  case (Inr a)
  then show ?thesis
    using project_digest [OF Inr] unfolding digest_entry_def bm_contains_iff by (auto simp del: set_map image_iff simp: bind_res_Inr)
qed (simp add: digest_entry_def)

lemma entries_projected:
  "fold_res (digest_entry project duplicate) m xs = Inr m' \<Longrightarrow> x \<in> set xs \<Longrightarrow> \<exists>a. project x = Inr a"
  by (induction xs arbitrary: m) (auto simp: entry_Inr split: sum.splits)

lemma entries_keys:
  "fold_res (digest_entry project duplicate) m xs = Inr m' \<Longrightarrow>
     fst ` set m' = fst ` set m \<union> digest ` set xs \<and> distinct (map digest xs) \<and>
     digest ` set xs \<inter> fst ` set m = {} \<and> (bm_ok m \<longrightarrow> bm_ok m')"
proof (induction xs arbitrary: m)
  case (Cons x xs)
  then have "fold_res (digest_entry project duplicate) (bm_insert (digest x) x m) xs = Inr m'" "digest x \<notin> fst ` set m"
    by (auto simp: entry_Inr split: sum.splits)
  then show ?case using Cons.IH [of "bm_insert (digest x) x m"] by (auto simp: keys_bm_insert)
qed simp

lemma entries_lookup:
  "fold_res (digest_entry project duplicate) m xs = Inr m' \<Longrightarrow>
     map_of m' k = Some y \<longleftrightarrow> map_of m k = Some y \<or> y \<in> set xs \<and> digest y = k"
proof (induction xs arbitrary: m)
  case (Cons x xs)
  then have rest: "fold_res (digest_entry project duplicate) (bm_insert (digest x) x m) xs = Inr m'"
    and "digest x \<notin> fst ` set m"
    by (auto simp: entry_Inr split: sum.splits)
  then have "map_of m (digest x) = None" by (simp add: map_of_eq_None_iff)
  then show ?case using Cons.IH [OF rest] by auto
qed simp

end

interpretation requested: digest_projection "valid_artifact reason_code message" ar_digest
  by unfold_locales (auto simp: valid_artifact_def bind_res_Inr)

interpretation transfers: digest_projection artifact_ref_from_transfer_spec xs_digest
  by unfold_locales (auto simp: artifact_ref_from_transfer_spec_def bind_res_Inr Let_def)

interpretation locals: digest_projection artifact_ref_from_local_input li_digest
  by unfold_locales (auto simp: artifact_ref_from_local_input_def bind_res_Inr Let_def)

interpretation quotes: digest_projection "\<lambda>t. valid_artifact reason_code message (apq_artifact t)"
    "\<lambda>t. ar_digest (apq_artifact t)"
  by unfold_locales (auto simp: valid_artifact_def bind_res_Inr)

lemma quote_entry_Inr:
  "quote_entry (m, ids) t = Inr st \<longleftrightarrow>
     (\<exists>a. valid_artifact ''ARTIFACT_QUOTE_INVALID'' ''candidate Artifact quote is invalid: '' (apq_artifact t) = Inr a) \<and>
     apq_quote_id t \<noteq> [] \<and> apq_quote_id t \<notin> set ids \<and> ar_digest (apq_artifact t) \<notin> fst ` set m \<and>
     st = (bm_insert (ar_digest (apq_artifact t)) t m, bs_insert (apq_quote_id t) ids)"
  unfolding quote_entry_def Let_def prod.case bm_contains_iff bind_res_Inr by (auto simp del: image_iff)

lemma quote_entries:
  "fold_res quote_entry (m, ids) ts = Inr (m', ids') \<Longrightarrow>
     fold_res (digest_entry (\<lambda>t. valid_artifact ''ARTIFACT_QUOTE_INVALID'' ''candidate Artifact quote is invalid: ''
       (apq_artifact t)) (\<lambda>_. fab_err [] [])) m ts = Inr m'"
proof (induction ts arbitrary: m ids)
  case (Cons t ts)
  let ?d = "ar_digest (apq_artifact t)"
  have v: "\<exists>a. valid_artifact ''ARTIFACT_QUOTE_INVALID'' ''candidate Artifact quote is invalid: '' (apq_artifact t) = Inr a"
    and d: "?d \<notin> fst ` set m"
    and rest: "fold_res quote_entry (bm_insert ?d t m, bs_insert (apq_quote_id t) ids) ts = Inr (m', ids')"
    using Cons.prems by (auto simp: quote_entry_Inr simp del: image_iff split: sum.splits)
  have "digest_entry (\<lambda>t. valid_artifact ''ARTIFACT_QUOTE_INVALID'' ''candidate Artifact quote is invalid: ''
      (apq_artifact t)) (\<lambda>_. fab_err [] []) m t = Inr (bm_insert ?d t m)"
    unfolding quotes.entry_Inr using v d by simp
  then show ?case using Cons.IH [OF rest] by simp
qed simp

lemma quotes_indexed:
  assumes "index_artifact_quotes ts = Inr m"
  shows "map_of m k = Some t \<longleftrightarrow> t \<in> set ts \<and> ar_digest (apq_artifact t) = k"
proof -
  obtain ids where "fold_res quote_entry ([], []) ts = Inr (m, ids)"
    using assms by (auto simp: index_artifact_quotes_def bind_res_Inr)
  from quotes.entries_lookup [OF quote_entries [OF this]] show ?thesis by simp
qed

lemma reject_first_Inr [simp]: "reject_first ds e = Inr u \<longleftrightarrow> ds = []"
  by (simp add: reject_first_def split: list.split)

lemma set_bs_inserts: "set (fold bs_insert xs s) = set xs \<union> set s"
  by (induction xs arbitrary: s) auto

lemma projected_Inr:
  assumes "validate_projected assignments local_artifacts quotes destination scope (d, a) = Inr ()"
  obtains t where "map_of quotes d = Some t" "apq_artifact t = a" "apq_destination_peer_id t = destination"
    "apq_policy_scope t = scope"
    "case apq_availability t of
       VerifiedLocal _ \<Rightarrow> \<exists>i. map_of local_artifacts d = Some i \<and> artifact_ref_from_local_input i = Inr a
     | AuthorizedTransfer _ \<Rightarrow> \<exists>s. map_of assignments d = Some s \<and> artifact_ref_from_transfer_spec s = Inr a \<and>
         xs_destination_peer_id s = destination \<and> ar_size_bytes a \<noteq> 0"
proof -
  obtain t where t: "map_of quotes d = Some t" "apq_artifact t = a" "apq_destination_peer_id t = destination"
    "apq_policy_scope t = scope"
    "(case apq_availability t of
        VerifiedLocal _ \<Rightarrow> validate_projected_local local_artifacts d a
      | AuthorizedTransfer _ \<Rightarrow> validate_projected_transfer assignments destination d a) = Inr ()"
    using assms unfolding validate_projected_def Let_def prod.case bind_res_Inr ensure_Inr ok_or_Inr by blast
  have "case apq_availability t of
      VerifiedLocal _ \<Rightarrow> \<exists>i. map_of local_artifacts d = Some i \<and> artifact_ref_from_local_input i = Inr a
    | AuthorizedTransfer _ \<Rightarrow> \<exists>s. map_of assignments d = Some s \<and> artifact_ref_from_transfer_spec s = Inr a \<and>
        xs_destination_peer_id s = destination \<and> ar_size_bytes a \<noteq> 0"
    using t(5)
    by (cases "apq_availability t")
      (auto simp: validate_projected_local_def validate_projected_transfer_def bind_res_Inr)
  then show thesis by (rule that [OF t(1-4)])
qed

definition artifact_met ::
    "runtime_assignment_builder \<Rightarrow> execution_placement_request \<Rightarrow> execution_target_candidate \<Rightarrow> artifact_ref \<Rightarrow> bool" where
  "artifact_met b q c a \<longleftrightarrow>
     (\<exists>t\<in>set (etc_artifact_quotes c).
       apq_artifact t = a \<and> apq_destination_peer_id t = etc_artifact_destination_peer_id c \<and>
       apq_policy_scope t = epr_artifact_policy_scope q \<and>
       (case apq_availability t of
          VerifiedLocal _ \<Rightarrow> \<exists>i\<in>set (rab_local_artifacts b). artifact_ref_from_local_input i = Inr a
        | AuthorizedTransfer _ \<Rightarrow> \<exists>s\<in>set (rab_artifacts b). artifact_ref_from_transfer_spec s = Inr a \<and>
            xs_destination_peer_id s = etc_artifact_destination_peer_id c \<and> ar_size_bytes a \<noteq> 0))"

text \<open>C28. An accepted projection covers the placement exactly. The transfers and the local inputs of the
  assignment name pairwise distinct artifacts, together exactly those of the request; and for every
  requested artifact the selected candidate has a quote of this identity, destination and scope, which
  is met by a local input of the same identity when the artifact is verified on the node, and otherwise
  by a transfer of the same identity and positive size to the candidate's peer.\<close>

theorem projection_exact:
  assumes "validate_artifact_projection b q c = Inr ()"
  shows "distinct (map xs_digest (rab_artifacts b) @ map li_digest (rab_local_artifacts b)) \<and>
    set (map xs_digest (rab_artifacts b) @ map li_digest (rab_local_artifacts b)) = ar_digest ` set (epr_artifacts q) \<and>
    (\<forall>a\<in>set (epr_artifacts q). artifact_met b q c a)"
proof -
  obtain rm am lm qm where
    ix: "index_requested_artifacts (epr_artifacts q) = Inr rm" "index_assignment_artifacts (rab_artifacts b) = Inr am"
      "index_local_artifacts (rab_local_artifacts b) = Inr lm" "index_artifact_quotes (etc_artifact_quotes c) = Inr qm"
    and disj: "filter (bm_contains lm) (map fst am) = []"
    and extra: "filter (\<lambda>d. d \<notin> set (map fst rm)) (fold bs_insert (map fst am @ map fst lm) []) = []"
    and missing: "filter (\<lambda>d. d \<notin> set (fold bs_insert (map fst am @ map fst lm) [])) (map fst rm) = []"
    and all: "\<forall>x\<in>set rm. validate_projected am lm qm (etc_artifact_destination_peer_id c)
      (epr_artifact_policy_scope q) x = Inr ()"
    using assms unfolding validate_artifact_projection_def bind_res_Inr Let_def reject_first_Inr for_each_Inr by blast
  note rk = requested.entries_keys [OF ix(1) [unfolded index_requested_artifacts_def]]
    and rl = requested.entries_lookup [OF ix(1) [unfolded index_requested_artifacts_def]]
    and ak = transfers.entries_keys [OF ix(2) [unfolded index_assignment_artifacts_def]]
    and al = transfers.entries_lookup [OF ix(2) [unfolded index_assignment_artifacts_def]]
    and lk = locals.entries_keys [OF ix(3) [unfolded index_local_artifacts_def]]
    and ll = locals.entries_lookup [OF ix(3) [unfolded index_local_artifacts_def]]
  have keys: "fst ` set am \<union> fst ` set lm = fst ` set rm" "fst ` set am \<inter> fst ` set lm = {}"
    using extra missing disj unfolding filter_empty_conv set_bs_inserts bm_contains_iff by auto
  have one: "artifact_met b q c a" if "a \<in> set (epr_artifacts q)" for a
  proof -
    have "map_of rm (ar_digest a) = Some a" using rl that by simp
    then have "validate_projected am lm qm (etc_artifact_destination_peer_id c) (epr_artifact_policy_scope q)
        (ar_digest a, a) = Inr ()" using all map_of_SomeD by fastforce
    from projected_Inr [OF this] show ?thesis
      unfolding artifact_met_def using quotes_indexed [OF ix(4)] al ll by (fastforce split: artifact_availability.splits)
  qed
  have "distinct (map xs_digest (rab_artifacts b) @ map li_digest (rab_local_artifacts b))"
    using ak lk keys(2) by (auto simp del: image_iff)
  moreover have "set (map xs_digest (rab_artifacts b) @ map li_digest (rab_local_artifacts b)) = ar_digest ` set (epr_artifacts q)"
    using ak lk rk keys(1) by simp
  ultimately show ?thesis using one by blast
qed

section \<open>A concrete assignment\<close>

definition ex_spec :: artifact_transfer_spec where
  "ex_spec =
     \<lparr>xs_artifact_uri = ar_uri ex_artifact, xs_digest = ar_digest ex_artifact, xs_size_bytes = 7,
      xs_manifest_digest = [], xs_replica_uri = [], xs_part_size_bytes = 7, xs_part_digests = [ar_digest ex_artifact],
      xs_sources = [\<lparr>src_peer_id = ''peer2'', src_replica_id = ''replica1'', src_locator = ''https://peer2/a'',
        src_transfer_ticket = ''ticket'', src_path = 1, src_locator_expires_at_unix_ms = 0\<rparr>],
      xs_part_sources = [\<lparr>part_index = 0, part_peer_id = ''peer2'', part_replica_id = ''replica1''\<rparr>],
      xs_destination_peer_id = ''peer1'', xs_artifact_kind = ''model''\<rparr>"

definition ex_builder :: runtime_assignment_builder where
  "ex_builder =
     RuntimeAssignmentBuilder_new ''assignment1'' (Identity ''runtime1'' 1) (Identity ''operation1'' 1) ''attempt1''
       \<lparr>wi_identity = Some (Identity ''workload1'' 1), wi_scope = None, wi_runtime = Some (Some (Identity ''runtime1'' 1)),
        wi_allowed_actions = [], wi_expires_at = Some \<lparr>ts_seconds = 9, ts_nanos = 0\<rparr>\<rparr>
       \<lparr>rp_image_digest = ar_digest ex_artifact, rp_resolved_digest = ar_digest ex_artifact\<rparr> [ex_spec]"

definition ex_granted_lease :: lease where
  "ex_granted_lease =
     \<lparr>lease_identity = Identity ''lease1'' 1, lease_holder = Identity ''runtime1'' 1,
      lease_resources = [Identity ''r1'' 1], lease_state = LeaseActive, lease_fence_token = 4,
      lease_expires_at_unix_ms = Some 8000\<rparr>"

lemma ex_artifact_valid: "ArtifactRef_validate ex_artifact = Inr ()" "sha256_digest (ar_digest ex_artifact)"
  by code_simp+

lemma ex_spec_artifact: "artifact_ref_from_transfer_spec ex_spec = Inr ex_artifact"
proof -
  have "ArtifactKind_new ''model'' = Inr (ArtifactKind ''model'')" by code_simp
  moreover have "\<lparr>ar_uri = ar_uri ex_artifact, ar_digest = ar_digest ex_artifact, ar_size_bytes = 7,
      ar_kind = ArtifactKind ''model'', ar_manifest_digest = None\<rparr> = ex_artifact"
    by (simp add: ex_artifact_def)
  ultimately show ?thesis
    using ex_artifact_valid(1)
    by (simp add: artifact_ref_from_transfer_spec_def artifact_kind_from_proto_def ex_spec_def optional_digest_def)
qed

lemma ex_projection: "validate_artifact_projection ex_builder ex_placement ex_candidate = Inr ()"
proof -
  have b: "rab_artifacts ex_builder = [ex_spec]" "rab_local_artifacts ex_builder = []"
    by (simp_all add: ex_builder_def RuntimeAssignmentBuilder_new_def)
  have q: "epr_artifacts ex_placement = [ex_artifact]" "epr_artifact_policy_scope ex_placement = ''team''"
    by (simp_all add: ex_placement_def)
  have "ar_size_bytes ex_artifact \<noteq> 0" "xs_destination_peer_id ex_spec = ''peer1''"
    by (simp_all add: ex_artifact_def ex_spec_def)
  then show ?thesis
    using ex_artifact_valid(1) ex_spec_artifact
    by (simp add: validate_artifact_projection_def b q index_requested_artifacts_def index_assignment_artifacts_def
      index_local_artifacts_def index_artifact_quotes_def digest_entry_def quote_entry_def valid_artifact_def
      ex_candidate_def Let_def bm_contains_def reject_first_def validate_projected_def validate_projected_transfer_def)
qed

theorem projection_exact_witness: "artifact_met ex_builder ex_placement ex_candidate ex_artifact"
proof -
  have "ex_artifact \<in> set (epr_artifacts ex_placement)" by (simp add: ex_placement_def)
  then show ?thesis using projection_exact [OF ex_projection] by blast
qed

lemma ex_builder_valid: "builder_validate ex_builder 1500 = Inr ()"
proof -
  have id: "Identity_validate (Identity ''runtime1'' 1) = Inr ()" "Identity_validate (Identity ''operation1'' 1) = Inr ()"
    "Identity_validate (Identity ''workload1'' 1) = Inr ()" by code_simp+
  have kind: "ArtifactKind_new ''model'' = Inr (ArtifactKind ''model'')" by code_simp
  have uri: "ar_uri ex_artifact = ''artifact://sha256/'' @ drop 7 (ar_digest ex_artifact)"
    by (simp add: ex_artifact_def artifact_uri_def)
  have time: "timestamp_ms (Some \<lparr>ts_seconds = 9, ts_nanos = 0\<rparr>) = Inr (Some 9000)"
    by (simp add: timestamp_ms_def u64_try_from_def checked_mul_def checked_add_def)
  have "validate_transfer_spec 1500 [] ex_spec = Inr [ar_digest ex_artifact]"
    using ex_artifact_valid(2) kind uri
    by (simp add: validate_transfer_spec_def ex_spec_def validate_sha256_def artifact_kind_from_proto_def
      validate_source_def transfer_path_try_from_def routed_parts_def)
  then show ?thesis
    using ex_artifact_valid(2) id time
    by (simp add: builder_validate_def validate_assignment_payload_def builder_assignment_def ex_builder_def
      RuntimeAssignmentBuilder_new_def runtime_identity_def validate_identity_def desired_state_try_from_def
      validate_workload_identity_def validate_sha256_def)
qed

theorem built_assignment_admitted_witness:
  "\<exists>a. builder_build ex_builder ex_granted_lease 1500 = Inr a \<and>
     validate_assignment (rab_runtime ex_builder) a 1500 = Inr ex_granted_lease"
proof -
  have "Lease_validate ex_granted_lease = Inr ()" by code_simp
  moreover have "lease_state ex_granted_lease = LeaseActive" "lease_holder ex_granted_lease = rab_runtime ex_builder"
    "lease_expires_at_unix_ms ex_granted_lease = Some 8000"
    by (simp_all add: ex_granted_lease_def ex_builder_def RuntimeAssignmentBuilder_new_def)
  ultimately obtain a where "builder_build ex_builder ex_granted_lease 1500 = Inr a"
    using built_assignment_admitted [of ex_builder ex_granted_lease 1500] ex_builder_valid by auto
  then show ?thesis using built_assignment_admitted [of ex_builder ex_granted_lease 1500 a] by blast
qed

end
