(* ===== verification/Spec2Isabelle.thy ===== *)
theory Spec2Isabelle
  imports Kernel_Startup Authority_Expiry Fabric_Assignment
begin

text \<open>
  \<^bold>\<open>Verification of the CYRENE platform kernel and its execution fabric\<close>

  CYRENE is a node-local kernel that owns resources. Clients acquire leases on resources; every lease has
  a monotone fence token, and a worker acts only under a current lease and fence. The kernel launches
  workers in a sandbox, watches their heartbeats, reclaims what expired holders leave behind, publishes
  ordered events, and writes a journal from which a restart recovers. Above it, the execution fabric
  admits nodes and agents, places executions on nodes and turns leases into assignments. All paths below
  are relative to \<open>src/\<close>.

  \<^bold>\<open>How the parts interact.\<close> The composition root starts the journal's next epoch, clears the processes an
  earlier run left, and creates the ledger at the recovered fence token. The authority serves every client
  call: it checks the namespace of the caller, asks the ledger for leases, drives one actor per worker
  instance, appends to the journal before it acts, and publishes events. Its periodic scan revokes
  expired leases. A controller places an execution, asks the authority for a lease, and builds an
  assignment that the runtime agent checks again before it starts the workload.

  \<^bold>\<open>Theories and sources.\<close>

  \<^item> \<open>Cyrene_Prelude\<close>: words with Rust's saturating and checked addition, results with early return, byte
    strings, ordered maps and sets for \<open>BTreeMap\<close> and \<open>BTreeSet\<close>; the locales \<open>key_value_map\<close> and
    \<open>forward_machine\<close> with their laws.
  \<^item> \<open>Contract_Validation\<close>, \<open>Contract_Model\<close>, \<open>Contract_Adapter\<close>: the crate \<open>contracts/rust/cy-kernel-contract\<close>,
    one group of definitions per file (\<open>validation.rs\<close>, \<open>identity.rs\<close>, \<open>revision.rs\<close>; \<open>resource.rs\<close>, \<open>lease.rs\<close>,
    \<open>operation.rs\<close>, \<open>worker.rs\<close>, \<open>endpoint.rs\<close>, \<open>event.rs\<close>, \<open>snapshot.rs\<close>; \<open>adapter.rs\<close>). Structs are records,
    enums are datatypes, and \<open>X::validate\<close> is \<open>X_validate\<close>. Each validator has a lemma that says exactly
    what it accepts; the namespaced identifiers are characterised as a language; the three life cycles
    are interpreted as forward-only machines.
  \<^item> \<open>Kernel_Api\<close>: the types of \<open>kernel/crates/cy-kernel-api\<close> that the other parts exchange.
  \<^item> \<open>Resource_Manager\<close>, \<open>Ledger_Properties\<close>: \<open>kernel/crates/cy-resource-manager\<close>. The state is the record behind
    the mutex, every public method is a function on it, and \<open>rm_reach\<close> is reachability under all calls. The
    six operations that present a fence token share the locale \<open>fenced_operation\<close>. Shown: no resource is
    held twice, the exact outcome of an acquisition, unique fence tokens that stay dead once revoked, the
    life cycle of ledger leases, where its renewal agrees with the contract's, that an endpoint grant
    lives exactly as long as the lease it names, and how a cleanup reported twice breaks exclusivity.
  \<^item> \<open>Runtime_Journal\<close>, \<open>Journal_Properties\<close>: \<open>runtime/cyrene-kernel/src/runtime_journal.rs\<close>. The journal is the
    text of the file. Shown: what recovery reads from any written journal, also after a torn write, how
    a torn write makes the journal unreadable for good, that epochs increase, that listeners open only
    after every leftover process is accounted for, and that events replay as they were appended.
  \<^item> \<open>Instance_Actor\<close>: \<open>sandboxed_process.rs\<close> and \<open>watchdog/instance_actor.rs\<close> of \<open>kernel/crates/cy-kernel-daemon\<close>,
    two state machines over an arbitrary sandbox of which nothing is assumed. Shown, from the answers the
    sandbox gives: an actor launches only when no earlier process is outstanding and keeps the handle of
    the outstanding one; crash loops are quarantined and how quarantine ends; generations count starts.
  \<^item> \<open>Authority_State\<close>, \<open>Authority_Actions\<close>, \<open>Authority_Loss\<close>: \<open>authority.rs\<close>, \<open>authority/authority_actions.rs\<close>,
    \<open>authority/provider_actions.rs\<close> and the parts of \<open>daemon.rs\<close>, \<open>session.rs\<close> and \<open>convert/\<close> they call. A handler
    is an action on the authority state that returns, rejects or panics and keeps the state it reached.
    The ports (clock, journal, event store, sandbox, adapters, plan resolver, worker channel) are
    parameters over a world state, so each call may answer differently.
  \<^item> \<open>Action_Frames\<close>, \<open>Authority_Steps\<close>: the locale of frames, and an abstract machine of which every handler is
    proved to be a sequence of steps, on its failing paths as well.
  \<^item> \<open>Authority_Invariants\<close>, \<open>Authority_Properties\<close>, \<open>Authority_Handlers\<close>, \<open>Authority_Expiry\<close>: what holds along
    every sequence of calls (isolation of namespaces, fencing, gapless event streams, operations and
    provider sessions that only move forward) and what single handlers guarantee (event pages that are
    valid whenever the configured source is, and what the expiry scan does and fails to do to a lease).
  \<^item> \<open>Kernel_Startup\<close>: \<open>runtime/cyrene-kernel/src/main.rs\<close>, \<open>runtime/cyrene-runtime-identity\<close> and \<open>credential.rs\<close> of
    \<open>kernel/crates/cy-adapter-client\<close>: the command line, its checks, and the startup from journal to ledger.
  \<^item> \<open>Artifact_Identity\<close>: \<open>contracts/rust/cy-manifest/src/manifest/artifact.rs\<close>: artifact references and portable
    directory manifests, whose validation is proved equivalent to an unambiguous directory tree.
  \<^item> \<open>Fabric_Admission\<close>, \<open>Fabric_Placement\<close>, \<open>Placement_Properties\<close>, \<open>Fabric_Assignment\<close>: all files of
    \<open>framework/crates/cy-execution-fabric/src\<close>. Shown: observation frames are admitted without gaps, placement
    chooses the best candidate that satisfies the whole request, the lease of an assignment is the
    kernel's own, and an artifact projection is exact.
  \<^item> This theory: a property that spans the journal, the startup and the ledger.

  \<^bold>\<open>Bounds.\<close> Integers keep their Rust width: wrapping, checked and saturating arithmetic are the source's.
  The exceptions that statements make for the largest 64-bit number are the points where a counter
  saturates. Unchecked \<open>+\<close> wraps as in a release build; a debug build panics there. Strings are the bytes of Rust's UTF-8 strings. No function has fuel: every loop of the
  source runs over a finite collection and is a structural recursion or a fold.

  \<^bold>\<open>Parameters.\<close> JSON encoding and parsing of journal lines (with the law that printed records parse back,
  \<open>codec_ok\<close>), canonical JSON and SHA-256, the account database, the file system's read and write outcomes,
  the clock, the sandbox and the adapters. Examples instantiate each of them with concrete functions.

  \<^bold>\<open>Not modelled.\<close> Each handler is one step: interleavings inside a handler, poisoned locks and the
  cancellation timer thread are left out. Sockets, gRPC servers and protobuf conversion (\<open>rpc/\<close>, most of
  \<open>convert/\<close>), the legacy service adapter (\<open>adapter/\<close>) and the watchdog's supervising thread are I/O around
  the modelled calls. The host maintenance broker (\<open>cy-runtime-maintenance\<close>) and the sandbox daemon are
  transactions on the file system and on cgroups. The workspace services under \<open>framework/crates\<close> are HTTP
  and SQL applications whose behaviour lies in PostgreSQL, TLS and WebAuthn libraries. The agents, the
  artifact transfer SDK and the hardware adapters are mostly network and device I/O.
\<close>

section \<open>Properties across components\<close>

text \<open>C20. A fence token never survives a restart. When the kernel starts from a journal of complete
  records, possibly with a torn last write, and its startup succeeds, then after any sequence of ledger
  calls every lease carries a token above each token this node ever recorded, and every call that
  presents a recorded token is refused, under whatever lease name. (The 64-bit maximum, at which the
  counter saturates, is the one exception.)\<close>

theorem restart_outdates_fences:
  assumes "codec_ok parse print rs" and "torn_tail parse tail"
    and "start_ledger parse print None wrote now now' discovered cleanup os node
      (Some (journal_of print rs @ tail)) = (Return (Inr (st, s0)), file')"
    and "r \<in> set rs" and "pr_node_id r = node" and "pr_fence_token r = Some f" and "f \<noteq> - 1"
    and "s = fold rm_exec cs s0"
  shows "(\<forall>l. map_of (rm_leases s) n = Some l \<longrightarrow> f < rl_fence_token l) \<and>
    \<not> is_ok (fst (renew_lease t n f x s)) \<and> \<not> is_ok (fst (begin_release t n f s)) \<and>
    \<not> is_ok (fst (complete_release n f s)) \<and> \<not> is_ok (fst (fail_release n f s)) \<and>
    \<not> is_ok (fst (revoke t n f s)) \<and> \<not> is_ok (fst (complete_revocation n f s))"
proof -
  obtain st0 where st0: "recover parse None node (Some (journal_of print rs @ tail)) = Inr st0"
    and s0: "s0 = with_next_fence_token [] (rs_next_fence_token st0)"
    by (rule start_ledger_cases [OF assms(3)])
  have "f < rs_next_fence_token st0"
    by (rule recover_journal [OF assms(1,2), of node]) (use st0 next_fence_above assms(4-7) in auto)
  moreover have from0: "fences_from (rs_next_fence_token st0) s"
    unfolding assms(8) s0 by (rule fences_from_run [OF fresh_ledger_fences])
  ultimately obtain e e' where e: "fenced_lookup s n f = Inl e" "fenced_lookup (expire_due_leases t s) n f = Inl e'"
    using old_fence_unknown by blast
  have "\<forall>l. map_of (rm_leases s) n = Some l \<longrightarrow> f < rl_fence_token l"
    using from0 \<open>f < rs_next_fence_token st0\<close> unfolding fences_from_def by (meson order.strict_trans2)
  then show ?thesis
    using e by (simp add: renew_lease_def begin_release_def complete_release_def fail_release_def revoke_def
      complete_revocation_def Let_def)
qed

theorem restart_outdates_fences_witness:
  "\<exists>st s0 file'. start_ledger jx_parse jx_print None Written 8 8 (Inr [jx_evidence]) (\<lambda>_. Inr jx_report)
      (\<lambda>_. (9, Written)) ''n'' (Some (journal_of jx_print [jx_launched] @ [])) = (Return (Inr (st, s0)), file') \<and>
     \<not> is_ok (fst (renew_lease 1 ''l'' 3 9 (fold rm_exec [CGet 1 ''l''] s0)))"
proof -
  have codec: "codec_ok jx_parse jx_print [jx_launched]" by (rule jx_codec_sub) simp
  obtain st s0 file' where start: "start_ledger jx_parse jx_print None Written 8 8 (Inr [jx_evidence])
      (\<lambda>_. Inr jx_report) (\<lambda>_. (9, Written)) ''n'' (Some (journal_of jx_print [jx_launched] @ [])) =
      (Return (Inr (st, s0)), file')"
    by (simp add: start_ledger_def jx_begin jx_clean)
  have "jx_launched \<in> set [jx_launched]" "pr_node_id jx_launched = ''n''" "pr_fence_token jx_launched = Some 3"
    "(3 :: u64) \<noteq> - 1" by (simp_all add: jx_defs)
  from restart_outdates_fences [OF codec torn_tail_Nil start this refl] show ?thesis using start by blast
qed

end
